(* ===== verification/Prelude.thy ===== *)
theory Prelude
  imports Main "HOL-Library.Multiset"
begin

text \<open>
  Shared base of the development.

  \<^item> \<open>failure\<close>: everything a service operation can throw, as a value. \<open>RastaError\<close> carries the
    platform error code of \<^verbatim>\<open>packages/contracts/src/common/errors.ts\<close> and a tag that tells apart
    the throw sites that share a code (the tag abridges the fixed message); the other
    constructors are the plain JavaScript errors, the database's own refusals and the refusals an
    endpoint declares final (\<open>TerminalRefusalError\<close>, by name and code).
  \<^item> \<open>('s, 'a) action\<close>: an interactive database transaction as a function of the store. It either
    throws, and then carries no store (the transaction is rolled back as a whole), or returns a
    value and the next store.
  \<^item> \<open>triple P m Q\<close>: the partial-correctness triple of an action, with one rule per combinator in
    the collection \<open>triple_rules\<close>, and the generic lemmas on lists that the components share.
\<close>

section \<open>JSON\<close>

text \<open>A parsed JSON value. A number is its text as \<open>JSON.stringify\<close> prints it.\<close>

datatype json =
    JNull | JBool bool | JNumber string | JString string | JArray "json list" | JObject "(string \<times> json) list"

section \<open>Failures\<close>

datatype error_code =
    NOT_FOUND | ALREADY_EXISTS | CONFLICT | INVALID_STATE_TRANSITION | OPTIMISTIC_LOCK_FAILED
  | BUSINESS_RULE_VIOLATION | INSUFFICIENT_BALANCE | LEDGER_UNBALANCED | VALIDATION_FAILED
  | FORBIDDEN | TENANT_MISMATCH | SERVICE_TENANT_CONTEXT_INVALID
  | UPSTREAM_UNAVAILABLE | UPSTREAM_TIMEOUT | INTERNAL_ERROR
  | NO_ACTIVE_RULE | BUSINESS_LINE_REQUIRED | HOLD_DEADLINE_REQUIRED | HOLD_DEADLINE_PASSED
  | IDEMPOTENCY_KEY_REUSED

datatype failure =
    RastaError error_code string
  | RangeError string
  | PlainError string
  | UniqueViolation string
  | ConstraintViolation string
  | TerminalRefusalError string error_code

section \<open>Actions\<close>

type_synonym ('s, 'a) action = "'s \<Rightarrow> failure + ('a \<times> 's)"

definition returnM :: "'a \<Rightarrow> ('s, 'a) action" where
  "returnM x = (\<lambda>s. Inr (x, s))"

definition throwM :: "failure \<Rightarrow> ('s, 'a) action" where
  "throwM e = (\<lambda>s. Inl e)"

definition bindM :: "('s, 'a) action \<Rightarrow> ('a \<Rightarrow> ('s, 'b) action) \<Rightarrow> ('s, 'b) action" where
  "bindM m k = (\<lambda>s. case m s of Inl e \<Rightarrow> Inl e | Inr (x, s') \<Rightarrow> k x s')"

definition thenM :: "('s, 'a) action \<Rightarrow> ('s, 'b) action \<Rightarrow> ('s, 'b) action" where
  "thenM m n = bindM m (\<lambda>_. n)"

definition getsM :: "('s \<Rightarrow> 'a) \<Rightarrow> ('s, 'a) action" where
  "getsM f = (\<lambda>s. Inr (f s, s))"

definition modifyM :: "('s \<Rightarrow> 's) \<Rightarrow> ('s, unit) action" where
  "modifyM f = (\<lambda>s. Inr ((), f s))"

definition assertM :: "bool \<Rightarrow> failure \<Rightarrow> ('s, unit) action" where
  "assertM b e = (if b then returnM () else throwM e)"

text \<open>A pure computation that may throw, run inside a transaction.\<close>

definition liftM :: "failure + 'a \<Rightarrow> ('s, 'a) action" where
  "liftM r = (case r of Inl e \<Rightarrow> throwM e | Inr x \<Rightarrow> returnM x)"

fun forM :: "'a list \<Rightarrow> ('a \<Rightarrow> ('s, unit) action) \<Rightarrow> ('s, unit) action" where
  "forM [] f = returnM ()"
| "forM (x # xs) f = thenM (f x) (forM xs f)"

text \<open>The same sequencing for pure computations that may throw.\<close>

definition bindE :: "failure + 'a \<Rightarrow> ('a \<Rightarrow> failure + 'b) \<Rightarrow> failure + 'b" where
  "bindE r k = (case r of Inl e \<Rightarrow> Inl e | Inr x \<Rightarrow> k x)"

definition assertE :: "bool \<Rightarrow> failure \<Rightarrow> failure + unit" where
  "assertE b e = (if b then Inr () else Inl e)"

subsection \<open>Requests\<close>

text \<open>
  A request: zero or more committed transactions, then a value or an error. An error that is thrown
  after a commit keeps what was committed, so the store is part of both outcomes.
\<close>

type_synonym ('s, 'a) request = "'s \<Rightarrow> (failure + 'a) \<times> 's"

definition atomically :: "('s, 'a) action \<Rightarrow> ('s, 'a) request" where
  "atomically m = (\<lambda>s. case m s of Inl e \<Rightarrow> (Inl e, s) | Inr (x, s') \<Rightarrow> (Inr x, s'))"

definition bindR :: "('s, 'a) request \<Rightarrow> ('a \<Rightarrow> ('s, 'b) request) \<Rightarrow> ('s, 'b) request" where
  "bindR m k = (\<lambda>s. case m s of (Inl e, s') \<Rightarrow> (Inl e, s') | (Inr x, s') \<Rightarrow> k x s')"

definition liftR :: "failure + 'a \<Rightarrow> ('s, 'a) request" where
  "liftR r = (\<lambda>s. (r, s))"

text \<open>\<open>catch\<close>: the error as the handler re-throws it, reading the store it was thrown in.\<close>

definition rethrowR :: "('s, 'a) request \<Rightarrow> (failure \<Rightarrow> 's \<Rightarrow> failure) \<Rightarrow> ('s, 'a) request" where
  "rethrowR m h = (\<lambda>s. case m s of (Inl e, s') \<Rightarrow> (Inl (h e s'), s') | (Inr x, s') \<Rightarrow> (Inr x, s'))"

subsection \<open>Evaluation and inversion\<close>

named_theorems action_simps \<open>running the combinators on a store\<close>

lemma returnM_run [simp, action_simps]: "returnM x s = Inr (x, s)"
  by (simp add: returnM_def)

lemma throwM_run [simp, action_simps]: "throwM e s = Inl e"
  by (simp add: throwM_def)

lemma getsM_run [simp, action_simps]: "getsM f s = Inr (f s, s)"
  by (simp add: getsM_def)

lemma modifyM_run [simp, action_simps]: "modifyM f s = Inr ((), f s)"
  by (simp add: modifyM_def)

lemma assertM_run [action_simps]: "assertM b e s = (if b then Inr ((), s) else Inl e)"
  by (simp add: assertM_def)

lemma liftM_run [action_simps]:
  "liftM r s = (case r of Inl e \<Rightarrow> Inl e | Inr x \<Rightarrow> Inr (x, s))"
  by (simp add: liftM_def split: sum.splits)

lemma bindM_run [action_simps]:
  "bindM m k s = (case m s of Inl e \<Rightarrow> Inl e | Inr (x, s') \<Rightarrow> k x s')"
  by (simp add: bindM_def)

lemma thenM_run [action_simps]:
  "thenM m n s = (case m s of Inl e \<Rightarrow> Inl e | Inr (x, s') \<Rightarrow> n s')"
  by (simp add: thenM_def bindM_def)

lemma bindM_Inr:
  "bindM m k s = Inr (y, s') \<longleftrightarrow> (\<exists>x s1. m s = Inr (x, s1) \<and> k x s1 = Inr (y, s'))"
  by (auto simp: bindM_def split: sum.splits prod.splits)

lemma thenM_Inr:
  "thenM m n s = Inr (y, s') \<longleftrightarrow> (\<exists>x s1. m s = Inr (x, s1) \<and> n s1 = Inr (y, s'))"
  by (simp add: thenM_def bindM_Inr)

lemma bindE_Inr: "bindE r k = Inr y \<longleftrightarrow> (\<exists>x. r = Inr x \<and> k x = Inr y)"
  by (simp add: bindE_def split: sum.splits)

lemma bindE_Inl: "bindE r k = Inl e \<longleftrightarrow> r = Inl e \<or> (\<exists>x. r = Inr x \<and> k x = Inl e)"
  by (auto simp: bindE_def split: sum.splits)

lemma assertE_Inr [simp]: "assertE b e = Inr u \<longleftrightarrow> b"
  by (simp add: assertE_def)

lemma assertE_Inl [simp]: "assertE b e = Inl e' \<longleftrightarrow> \<not> b \<and> e' = e"
  by (auto simp: assertE_def)

lemma bindE_simps [simp]: "bindE (Inl e) k = Inl e" "bindE (Inr x) k = k x"
  by (simp_all add: bindE_def)

lemma assertM_Inr: "assertM b e s = Inr (u, s') \<longleftrightarrow> b \<and> s' = s"
  by (auto simp: assertM_run)

lemma liftM_Inr: "liftM r s = Inr (x, s') \<longleftrightarrow> r = Inr x \<and> s' = s"
  by (auto simp: liftM_run split: sum.splits)

text \<open>A missing row is an error.\<close>

lemma list_case_throw_Inr:
  "(case xs of [] \<Rightarrow> throwM e | y # ys \<Rightarrow> f y ys) s = Inr r \<longleftrightarrow> (\<exists>y ys. xs = y # ys \<and> f y ys s = Inr r)"
  by (cases xs) simp_all

lemma option_case_throw_Inr:
  "(case x of None \<Rightarrow> throwM e | Some y \<Rightarrow> f y) s = Inr r \<longleftrightarrow> (\<exists>y. x = Some y \<and> f y s = Inr r)"
  by (cases x) simp_all

lemmas action_Inr =
  bindM_Inr thenM_Inr assertM_Inr liftM_Inr list_case_throw_Inr option_case_throw_Inr

section \<open>Triples\<close>

definition triple :: "('s \<Rightarrow> bool) \<Rightarrow> ('s, 'a) action \<Rightarrow> ('a \<Rightarrow> 's \<Rightarrow> bool) \<Rightarrow> bool" where
  "triple P m Q \<longleftrightarrow> (\<forall>s x s'. P s \<longrightarrow> m s = Inr (x, s') \<longrightarrow> Q x s')"

named_theorems triple_rules \<open>one rule per combinator and per verified operation\<close>

lemma tripleI:
  "(\<And>s x s'. P s \<Longrightarrow> m s = Inr (x, s') \<Longrightarrow> Q x s') \<Longrightarrow> triple P m Q"
  by (simp add: triple_def)

lemma tripleD: "triple P m Q \<Longrightarrow> P s \<Longrightarrow> m s = Inr (x, s') \<Longrightarrow> Q x s'"
  by (simp add: triple_def)

lemma triple_return [triple_rules]: "(\<And>s. P s \<Longrightarrow> Q x s) \<Longrightarrow> triple P (returnM x) Q"
  by (simp add: triple_def)

lemma triple_throw [triple_rules]: "triple P (throwM e) Q"
  by (simp add: triple_def)

lemma triple_gets [triple_rules]: "(\<And>s. P s \<Longrightarrow> Q (f s) s) \<Longrightarrow> triple P (getsM f) Q"
  by (simp add: triple_def)

lemma triple_modify [triple_rules]: "(\<And>s. P s \<Longrightarrow> Q () (f s)) \<Longrightarrow> triple P (modifyM f) Q"
  by (simp add: triple_def)

lemma triple_assert [triple_rules]:
  "(\<And>s. P s \<Longrightarrow> b \<Longrightarrow> Q () s) \<Longrightarrow> triple P (assertM b e) Q"
  by (auto simp: triple_def assertM_Inr)

lemma triple_lift [triple_rules]:
  "(\<And>s x. P s \<Longrightarrow> r = Inr x \<Longrightarrow> Q x s) \<Longrightarrow> triple P (liftM r) Q"
  by (auto simp: triple_def liftM_Inr)

lemma triple_bind [triple_rules]:
  "triple P m R \<Longrightarrow> (\<And>x. triple (R x) (k x) Q) \<Longrightarrow> triple P (bindM m k) Q"
  by (fastforce simp: triple_def bindM_Inr)

lemma triple_then [triple_rules]:
  "triple P m R \<Longrightarrow> (\<And>x. triple (R x) n Q) \<Longrightarrow> triple P (thenM m n) Q"
  by (simp add: thenM_def triple_bind)

lemma triple_conseq:
  "triple P' m Q' \<Longrightarrow> (\<And>s. P s \<Longrightarrow> P' s) \<Longrightarrow> (\<And>x s. Q' x s \<Longrightarrow> Q x s) \<Longrightarrow> triple P m Q"
  by (fastforce simp: triple_def)

text \<open>The special case that carries invariants: the action keeps \<open>I\<close>.\<close>

definition keeps :: "('s \<Rightarrow> bool) \<Rightarrow> ('s, 'a) action \<Rightarrow> bool" where
  "keeps I m \<longleftrightarrow> triple I m (\<lambda>_. I)"

named_theorems keeps_rules \<open>operations that keep an invariant\<close>

lemma keepsI: "(\<And>s x s'. I s \<Longrightarrow> m s = Inr (x, s') \<Longrightarrow> I s') \<Longrightarrow> keeps I m"
  by (simp add: keeps_def triple_def)

lemma keepsD: "keeps I m \<Longrightarrow> I s \<Longrightarrow> m s = Inr (x, s') \<Longrightarrow> I s'"
  by (simp add: keeps_def triple_def)

lemma keeps_return [keeps_rules, simp]: "keeps I (returnM x)"
  by (simp add: keeps_def triple_def)

lemma keeps_throw [keeps_rules, simp]: "keeps I (throwM e)"
  by (simp add: keeps_def triple_def)

lemma keeps_gets [keeps_rules, simp]: "keeps I (getsM f)"
  by (simp add: keeps_def triple_def)

lemma keeps_assert [keeps_rules, simp]: "keeps I (assertM b e)"
  by (auto simp: keeps_def triple_def assertM_Inr)

lemma keeps_lift [keeps_rules, simp]: "keeps I (liftM r)"
  by (auto simp: keeps_def triple_def liftM_Inr)

lemma keeps_bind [keeps_rules]:
  "keeps I m \<Longrightarrow> (\<And>x. keeps I (k x)) \<Longrightarrow> keeps I (bindM m k)"
  unfolding keeps_def by (blast intro: triple_bind)

lemma keeps_then [keeps_rules]: "keeps I m \<Longrightarrow> keeps I n \<Longrightarrow> keeps I (thenM m n)"
  by (simp add: thenM_def keeps_bind)

lemma keeps_if [keeps_rules]:
  "(b \<Longrightarrow> keeps I m) \<Longrightarrow> (\<not> b \<Longrightarrow> keeps I n) \<Longrightarrow> keeps I (if b then m else n)"
  by simp

lemma keeps_option [keeps_rules]:
  "(x = None \<Longrightarrow> keeps I m) \<Longrightarrow> (\<And>y. x = Some y \<Longrightarrow> keeps I (f y)) \<Longrightarrow>
    keeps I (case x of None \<Rightarrow> m | Some y \<Rightarrow> f y)"
  by (cases x) simp_all

lemma keeps_forM [keeps_rules]: "(\<And>x. keeps I (f x)) \<Longrightarrow> keeps I (forM xs f)"
  by (induction xs) (simp_all add: keeps_then)

text \<open>A request keeps an invariant when every transaction of it does, committed or not.\<close>

definition request_keeps :: "('s \<Rightarrow> bool) \<Rightarrow> ('s, 'a) request \<Rightarrow> bool" where
  "request_keeps I m \<longleftrightarrow> (\<forall>s r s'. I s \<longrightarrow> m s = (r, s') \<longrightarrow> I s')"

lemma request_keepsD: "request_keeps I m \<Longrightarrow> I s \<Longrightarrow> m s = (r, s') \<Longrightarrow> I s'"
  by (simp add: request_keeps_def)

lemma request_keeps_atomically [keeps_rules]: "keeps I m \<Longrightarrow> request_keeps I (atomically m)"
  by (auto simp: request_keeps_def atomically_def dest: keepsD split: sum.splits)

lemma request_keeps_lift [keeps_rules]: "request_keeps I (liftR r)"
  by (simp add: request_keeps_def liftR_def)

lemma request_keeps_bind [keeps_rules]:
  "request_keeps I m \<Longrightarrow> (\<And>x. request_keeps I (k x)) \<Longrightarrow> request_keeps I (bindR m k)"
proof -
  assume m: "request_keeps I m" and k: "\<And>x. request_keeps I (k x)"
  have "I s'" if i: "I s" and r: "bindR m k s = (r, s')" for s r s'
  proof (cases "m s")
    case (Pair a s1)
    then have "I s1" using m i by (rule request_keepsD [rotated 2])
    with r Pair show ?thesis by (cases a) (auto simp: bindR_def dest: request_keepsD [OF k])
  qed
  then show ?thesis by (simp add: request_keeps_def)
qed

lemma request_keeps_rethrow [keeps_rules]: "request_keeps I m \<Longrightarrow> request_keeps I (rethrowR m h)"
  unfolding request_keeps_def rethrowR_def by (auto split: sum.splits prod.splits)

section \<open>Frames\<close>

text \<open>A part of the store that an action leaves as it was.\<close>

definition unchanged :: "('s \<Rightarrow> 'p) \<Rightarrow> ('s, 'a) action \<Rightarrow> bool" where
  "unchanged f m \<longleftrightarrow> (\<forall>s x s'. m s = Inr (x, s') \<longrightarrow> f s' = f s)"

named_theorems unchanged_rules \<open>what an operation leaves unchanged\<close>

lemma unchangedI: "(\<And>s x s'. m s = Inr (x, s') \<Longrightarrow> f s' = f s) \<Longrightarrow> unchanged f m"
  by (simp add: unchanged_def)

lemma unchangedD: "unchanged f m \<Longrightarrow> m s = Inr (x, s') \<Longrightarrow> f s' = f s"
  by (simp add: unchanged_def)

lemma unchanged_return [unchanged_rules]: "unchanged f (returnM x)"
  by (simp add: unchanged_def)

lemma unchanged_throw [unchanged_rules]: "unchanged f (throwM e)"
  by (simp add: unchanged_def)

lemma unchanged_gets [unchanged_rules]: "unchanged f (getsM g)"
  by (simp add: unchanged_def)

lemma unchanged_assert [unchanged_rules]: "unchanged f (assertM b e)"
  by (simp add: unchanged_def assertM_Inr)

lemma unchanged_lift [unchanged_rules]: "unchanged f (liftM r)"
  by (simp add: unchanged_def liftM_Inr)

lemma unchanged_modify [unchanged_rules]: "(\<And>s. f (g s) = f s) \<Longrightarrow> unchanged f (modifyM g)"
  by (simp add: unchanged_def)

lemma unchanged_bind [unchanged_rules]:
  "unchanged f m \<Longrightarrow> (\<And>x. unchanged f (k x)) \<Longrightarrow> unchanged f (bindM m k)"
  unfolding unchanged_def bindM_Inr by metis

lemma unchanged_then [unchanged_rules]:
  "unchanged f m \<Longrightarrow> unchanged f n \<Longrightarrow> unchanged f (thenM m n)"
  by (simp add: thenM_def unchanged_bind)

lemma unchanged_if [unchanged_rules]:
  "unchanged f m \<Longrightarrow> unchanged f n \<Longrightarrow> unchanged f (if b then m else n)"
  by simp

lemma unchanged_option [unchanged_rules]:
  "unchanged f m \<Longrightarrow> (\<And>y. unchanged f (g y)) \<Longrightarrow> unchanged f (case x of None \<Rightarrow> m | Some y \<Rightarrow> g y)"
  by (cases x) simp_all

lemma unchanged_prod [unchanged_rules]:
  "(\<And>a b. unchanged f (g a b)) \<Longrightarrow> unchanged f (case x of (a, b) \<Rightarrow> g a b)"
  by (cases x) simp

lemma unchanged_forM [unchanged_rules]: "(\<And>x. unchanged f (g x)) \<Longrightarrow> unchanged f (forM xs g)"
  by (induction xs) (simp_all add: unchanged_return unchanged_then)

text \<open>An invariant that reads only an unchanged part is kept.\<close>

lemma keeps_unchanged:
  "unchanged f m \<Longrightarrow> (\<And>s s'. f s' = f s \<Longrightarrow> I s \<Longrightarrow> I s') \<Longrightarrow> keeps I m"
  by (rule keepsI) (metis unchangedD)

lemma keeps_prod [keeps_rules]:
  "(\<And>a b. keeps I (g a b)) \<Longrightarrow> keeps I (case x of (a, b) \<Rightarrow> g a b)"
  by (cases x) simp

section \<open>Lists\<close>

lemma find_SomeD: "find P xs = Some x \<Longrightarrow> x \<in> set xs \<and> P x"
  by (induction xs) (auto split: if_splits)

lemma find_NoneD: "find P xs = None \<Longrightarrow> x \<in> set xs \<Longrightarrow> \<not> P x"
  by (simp add: find_None_iff)

lemma filter_implied: "(\<And>x. P x \<Longrightarrow> Q x) \<Longrightarrow> filter P (filter Q xs) = filter P xs"
  by (induction xs) auto

lemma find_unique:
  "\<lbrakk> distinct (map f xs); x \<in> set xs; f x = k \<rbrakk> \<Longrightarrow> find (\<lambda>y. f y = k) xs = Some x"
  by (induction xs) (auto simp: image_iff)

lemma distinct_map_eq:
  "\<lbrakk> distinct (map f xs); x \<in> set xs; y \<in> set xs; f x = f y \<rbrakk> \<Longrightarrow> x = y"
  by (induction xs) (auto simp: image_iff)

lemma sum_list_zero: "(\<And>x. x \<in> set xs \<Longrightarrow> f x = 0) \<Longrightarrow> (\<Sum>x\<leftarrow>xs. f x) = (0::int)"
  by (induction xs) auto

lemma sum_list_cong:
  "(\<And>x. x \<in> set xs \<Longrightarrow> f x = g x) \<Longrightarrow> (\<Sum>x\<leftarrow>xs. f x) = (\<Sum>x\<leftarrow>xs. g x :: int)"
  by (induction xs) auto

lemma sum_list_neg: "(\<Sum>x\<leftarrow>xs. - f x) = - (\<Sum>x\<leftarrow>xs. f x :: int)"
  by (induction xs) auto

text \<open>
  Replacing one element, picked by a key no other element has, moves a sum by the difference the
  replacement makes.
\<close>

lemma sum_list_update_one:
  fixes g :: "'a \<Rightarrow> int"
  assumes "distinct (map f xs)" and "x \<in> set xs"
  shows "(\<Sum>y\<leftarrow>map (\<lambda>y. if f y = f x then u y else y) xs. g y) = (\<Sum>y\<leftarrow>xs. g y) - g x + g (u x)"
  using assms
proof (induction xs)
  case Nil
  then show ?case by simp
next
  case (Cons z zs)
  show ?case
  proof (cases "x = z")
    case True
    with Cons.prems(1) have "\<forall>y\<in>set zs. f y \<noteq> f x" by (auto simp: image_iff)
    then have "map (\<lambda>y. if f y = f x then u y else y) zs = zs" by (simp add: map_idI)
    with True show ?thesis by (simp add: comp_def)
  next
    case False
    with Cons.prems have "x \<in> set zs" and "distinct (map f zs)" by auto
    moreover from Cons.prems False have "f z \<noteq> f x" by (auto simp: image_iff)
    ultimately show ?thesis using Cons.IH by simp
  qed
qed

text \<open>A sum taken group by group, over keys that are distinct and cover the list.\<close>

lemma sum_list_if_one:
  "distinct ks \<Longrightarrow> a \<in> set ks \<Longrightarrow> (\<Sum>k\<leftarrow>ks. if a = k then v else 0) = (v :: int)"
  by (induction ks) (auto intro!: sum_list_zero)

lemma sum_list_by_key:
  fixes g :: "'a \<Rightarrow> int"
  assumes "distinct ks"
  shows "(\<forall>x\<in>set xs. f x \<in> set ks) \<Longrightarrow>
    (\<Sum>k\<leftarrow>ks. \<Sum>x\<leftarrow>filter (\<lambda>x. f x = k) xs. g x) = (\<Sum>x\<leftarrow>xs. g x)"
proof (induction xs)
  case Nil
  then show ?case by (simp add: sum_list_zero)
next
  case (Cons x xs)
  have "(\<Sum>k\<leftarrow>ks. \<Sum>y\<leftarrow>filter (\<lambda>y. f y = k) (x # xs). g y) =
      (\<Sum>k\<leftarrow>ks. (if f x = k then g x else 0) + (\<Sum>y\<leftarrow>filter (\<lambda>y. f y = k) xs. g y))"
    by (rule sum_list_cong) simp
  also have "\<dots> = g x + (\<Sum>y\<leftarrow>xs. g y)"
    using Cons by (simp add: sum_list_addf sum_list_if_one [OF assms])
  finally show ?case by simp
qed

end
