(* ===== verification/Money.thy ===== *)
theory Money
  imports Prelude
begin

text \<open>
  Money: \<^verbatim>\<open>packages/contracts/src/common/money.ts\<close> and the ledger's value functions of
  \<^verbatim>\<open>services/economic-service/src/shared/money.ts\<close>.

  Amounts are JavaScript \<open>bigint\<close>s, so \<open>int\<close> here; on the wire they are decimal strings. The string
  layer (\<open>BigInt(text)\<close>, \<open>value.toString()\<close>, the digit patterns) is modelled on \<open>string\<close>, the patterns
  as predicates over the characters.
\<close>

section \<open>Decimal text\<close>

definition is_digit :: "char \<Rightarrow> bool" where
  "is_digit c \<longleftrightarrow> 48 \<le> (of_char c :: nat) \<and> (of_char c :: nat) \<le> 57"

definition digit_char :: "nat \<Rightarrow> char" where
  "digit_char d = char_of (48 + d)"

definition digit_value :: "char \<Rightarrow> nat" where
  "digit_value c = of_char c - 48"

fun show_nat :: "nat \<Rightarrow> string" where
  "show_nat n = (if n < 10 then [digit_char n] else show_nat (n div 10) @ [digit_char (n mod 10)])"

declare show_nat.simps [simp del]

text \<open>\<open>value.toString()\<close> of a \<open>bigint\<close>.\<close>

definition bigint_toString :: "int \<Rightarrow> string" where
  "bigint_toString v = (if v < 0 then CHR ''-'' # show_nat (nat (- v)) else show_nat (nat v))"

definition digits_value :: "string \<Rightarrow> nat" where
  "digits_value s = foldl (\<lambda>a c. 10 * a + digit_value c) 0 s"

text \<open>\<open>BigInt(text)\<close> on what the callers give it: decimal digits, with a sign or without.\<close>

definition BigInt :: "string \<Rightarrow> int" where
  "BigInt s = (case s of [] \<Rightarrow> 0
                | c # cs \<Rightarrow> if c = CHR ''-'' then - int (digits_value cs) else int (digits_value s))"

definition digits_only :: "string \<Rightarrow> bool" where
  "digits_only s \<longleftrightarrow> s \<noteq> [] \<and> (\<forall>c\<in>set s. is_digit c)"

section \<open>packages/contracts: the money representation\<close>

definition MAX_AMOUNT_MINOR :: int where
  "MAX_AMOUNT_MINOR = 9223372036854775807"

definition MIN_SIGNED_AMOUNT_MINOR :: int where
  "MIN_SIGNED_AMOUNT_MINOR = - 9223372036854775808"

definition signed_digits :: "string \<Rightarrow> bool" where
  "signed_digits s = (case s of [] \<Rightarrow> False
                        | c # cs \<Rightarrow> if c = CHR ''-'' then digits_only cs else digits_only s)"

definition storable :: "string \<Rightarrow> int \<Rightarrow> bool" where
  "storable s lo =
     (if \<not> signed_digits s then True
      else lo \<le> BigInt s \<and> BigInt s \<le> MAX_AMOUNT_MINOR)"

definition digitsToBigInt :: "string \<Rightarrow> int option" where
  "digitsToBigInt s = (if digits_only s then Some (BigInt s) else None)"

definition amountMinorSchema :: "string \<Rightarrow> bool" where
  "amountMinorSchema s \<longleftrightarrow> digits_only s \<and> length s \<le> 30 \<and> storable s 0"

definition signedAmountMinorSchema :: "string \<Rightarrow> bool" where
  "signedAmountMinorSchema s \<longleftrightarrow>
     signed_digits s \<and> length (dropWhile (\<lambda>c. c = CHR ''-'') s) \<le> 30 \<and>
     storable s MIN_SIGNED_AMOUNT_MINOR"

record money =
  amountMinor :: string
  currency :: string

definition money_of :: "int \<Rightarrow> string \<Rightarrow> failure + money" where
  "money_of v cur =
     (if v < 0 then Inl (RangeError ''Money amount cannot be negative'')
      else Inr \<lparr>amountMinor = bigint_toString v, currency = cur\<rparr>)"

definition toBigInt :: "money \<Rightarrow> int" where
  "toBigInt m = BigInt (amountMinor m)"

definition assertSameCurrency :: "money \<Rightarrow> money \<Rightarrow> failure + unit" where
  "assertSameCurrency a b = assertE (currency a = currency b) (PlainError ''Currency mismatch'')"

definition addMoney :: "money \<Rightarrow> money \<Rightarrow> failure + money" where
  "addMoney a b =
     bindE (assertSameCurrency a b) (\<lambda>_.
     Inr \<lparr>amountMinor = bigint_toString (toBigInt a + toBigInt b), currency = currency a\<rparr>)"

definition subtractMoney :: "money \<Rightarrow> money \<Rightarrow> failure + money" where
  "subtractMoney a b =
     bindE (assertSameCurrency a b) (\<lambda>_.
     let result = toBigInt a - toBigInt b in
     if result < 0 then Inl (RangeError ''Money subtraction produced a negative amount'')
     else Inr \<lparr>amountMinor = bigint_toString result, currency = currency a\<rparr>)"

text \<open>
  \<open>basisPoints\<close> is an integer column, so the \<open>Number.isInteger\<close> half of the guard is the type's. The
  quotient is of non-negative \<open>bigint\<close>s, where JavaScript's truncation and \<open>div\<close> agree.
\<close>

definition applyBasisPoints :: "money \<Rightarrow> int \<Rightarrow> failure + money" where
  "applyBasisPoints m basisPoints =
     (if basisPoints < 0 then Inl (RangeError ''Basis points must be a non-negative integer'')
      else let numerator = toBigInt m * basisPoints;
               denominator = 10000;
               rounded = (numerator + denominator div 2) div denominator
           in Inr \<lparr>amountMinor = bigint_toString rounded, currency = currency m\<rparr>)"

section \<open>economic-service: shared/money.ts\<close>

definition MINOR_UNIT_PATTERN :: "string \<Rightarrow> bool" where
  "MINOR_UNIT_PATTERN s \<longleftrightarrow> 1 \<le> length s \<and> length s \<le> 30 \<and> (\<forall>c\<in>set s. is_digit c)"

definition parseMinor :: "string \<Rightarrow> failure + int" where
  "parseMinor value =
     (if \<not> MINOR_UNIT_PATTERN value then Inl (RastaError VALIDATION_FAILED ''Malformed monetary amount'')
      else let amount = BigInt value in
           if amount > MAX_AMOUNT_MINOR
           then Inl (RastaError VALIDATION_FAILED ''Monetary amount out of range'')
           else Inr amount)"

definition isStorableMinor :: "int \<Rightarrow> bool" where
  "isStorableMinor v \<longleftrightarrow> 0 \<le> v \<and> v \<le> MAX_AMOUNT_MINOR"

definition formatMinor :: "int \<Rightarrow> string" where
  "formatMinor v = bigint_toString v"

definition toMoney :: "int \<Rightarrow> string \<Rightarrow> failure + money" where
  "toMoney v cur = money_of v cur"

definition commissionFor :: "int \<Rightarrow> string \<Rightarrow> int \<Rightarrow> failure + int" where
  "commissionFor grossMinor cur basisPoints =
     bindE (toMoney grossMinor cur) (\<lambda>m.
     bindE (applyBasisPoints m basisPoints) (\<lambda>r.
     Inr (toBigInt r)))"

definition clampCommission :: "int \<Rightarrow> int \<Rightarrow> int option \<Rightarrow> int option \<Rightarrow> int" where
  "clampCommission computedMinor grossMinor minMinor maxMinor =
     (let r0 = computedMinor;
          r1 = (case minMinor of Some lo \<Rightarrow> if r0 < lo then lo else r0 | None \<Rightarrow> r0);
          r2 = (case maxMinor of Some hi \<Rightarrow> if r1 > hi then hi else r1 | None \<Rightarrow> r1)
      in if r2 > grossMinor then grossMinor else r2)"

datatype direction = DEBIT | CREDIT

definition signedValue :: "direction \<Rightarrow> int \<Rightarrow> int" where
  "signedValue d v = (if d = DEBIT then v else - v)"

definition opposite :: "direction \<Rightarrow> direction" where
  "opposite d = (if d = DEBIT then CREDIT else DEBIT)"

text \<open>A bound of a rule as the table allows it.\<close>

definition nonneg_bound :: "int option \<Rightarrow> bool" where
  "nonneg_bound b = (case b of None \<Rightarrow> True | Some v \<Rightarrow> 0 \<le> v)"

section \<open>Facts on decimal text\<close>

lemma of_char_digit_char: "d < 10 \<Longrightarrow> (of_char (digit_char d) :: nat) = 48 + d"
  by (simp add: digit_char_def)

lemma is_digit_digit_char [simp]: "d < 10 \<Longrightarrow> is_digit (digit_char d)"
  by (simp add: is_digit_def of_char_digit_char)

lemma digit_value_digit_char [simp]: "d < 10 \<Longrightarrow> digit_value (digit_char d) = d"
  by (simp add: digit_value_def of_char_digit_char)

lemma digits_value_snoc [simp]: "digits_value (s @ [c]) = 10 * digits_value s + digit_value c"
  by (simp add: digits_value_def)

lemma digits_value_show_nat [simp]: "digits_value (show_nat n) = n"
proof (induction n rule: show_nat.induct)
  case (1 n)
  show ?case
  proof (cases "n < 10")
    case True
    then show ?thesis by (simp add: show_nat.simps [of n] digits_value_def)
  next
    case False
    with "1.IH" show ?thesis by (simp add: show_nat.simps [of n])
  qed
qed

lemma show_nat_digits: "\<forall>c\<in>set (show_nat n). is_digit c"
proof (induction n rule: show_nat.induct)
  case (1 n)
  then show ?case by (cases "n < 10") (auto simp: show_nat.simps [of n])
qed

lemma show_nat_nonempty [simp]: "show_nat n \<noteq> []"
  by (simp add: show_nat.simps [of n])

lemma show_nat_length: "n < 10 ^ k \<Longrightarrow> 0 < k \<Longrightarrow> length (show_nat n) \<le> k"
proof (induction n arbitrary: k rule: show_nat.induct)
  case (1 n)
  show ?case
  proof (cases "n < 10")
    case True
    with "1.prems" show ?thesis by (simp add: show_nat.simps [of n])
  next
    case False
    with "1.prems" obtain j where k: "k = Suc j" and j: "0 < j"
      by (cases k; cases "k - 1") auto
    from "1.prems"(1) k have "n div 10 < 10 ^ j" by (simp add: less_mult_imp_div_less mult.commute)
    with "1.IH" False j have "length (show_nat (n div 10)) \<le> j" by blast
    with False k show ?thesis by (simp add: show_nat.simps [of n])
  qed
qed

lemma minus_not_digit: "is_digit c \<Longrightarrow> c \<noteq> CHR ''-''"
  by (auto simp: is_digit_def)

lemma digits_only_show_nat [simp]: "digits_only (show_nat n)"
  by (simp add: digits_only_def show_nat_digits)

lemma BigInt_digits: "digits_only s \<Longrightarrow> BigInt s = int (digits_value s)"
  by (cases s) (auto simp: BigInt_def digits_only_def dest: minus_not_digit)

lemma BigInt_toString [simp]: "BigInt (bigint_toString v) = v"
  by (simp add: bigint_toString_def BigInt_digits) (simp add: BigInt_def)

lemma MINOR_UNIT_PATTERN_digits: "MINOR_UNIT_PATTERN s \<Longrightarrow> digits_only s"
  by (auto simp: MINOR_UNIT_PATTERN_def digits_only_def)

lemma toBigInt_money_of: "money_of v cur = Inr m \<Longrightarrow> toBigInt m = v \<and> currency m = cur"
  by (auto simp: money_of_def toBigInt_def split: if_splits)

lemma formatMinor_pattern:
  assumes "0 \<le> v" and "v \<le> MAX_AMOUNT_MINOR"
  shows "MINOR_UNIT_PATTERN (formatMinor v)"
proof -
  have "nat v < 10 ^ 19" using assms by (simp add: MAX_AMOUNT_MINOR_def)
  then have "length (show_nat (nat v)) \<le> 30" using show_nat_length [of "nat v" 19] by simp
  moreover have "1 \<le> length (show_nat (nat v))" by (simp add: Suc_le_eq)
  ultimately show ?thesis
    using assms by (simp add: formatMinor_def bigint_toString_def MINOR_UNIT_PATTERN_def show_nat_digits)
qed

section \<open>Facts on amounts\<close>

lemma commissionFor_eq:
  "0 \<le> gross \<Longrightarrow> 0 \<le> bp \<Longrightarrow> commissionFor gross cur bp = Inr ((gross * bp + 5000) div 10000)"
  by (simp add: commissionFor_def toMoney_def money_of_def applyBasisPoints_def toBigInt_def Let_def)

lemma commissionFor_InrD:
  "commissionFor gross cur bp = Inr c \<Longrightarrow> 0 \<le> gross \<and> 0 \<le> bp \<and> c = (gross * bp + 5000) div 10000"
  by (auto simp: commissionFor_def toMoney_def money_of_def applyBasisPoints_def toBigInt_def Let_def
        split: if_splits)

lemma clampCommission_le_gross: "clampCommission c gross lo hi \<le> gross"
  by (simp add: clampCommission_def Let_def)

lemma clampCommission_nonneg:
  "\<lbrakk> 0 \<le> c; 0 \<le> gross; \<And>h. hi = Some h \<Longrightarrow> 0 \<le> h \<rbrakk> \<Longrightarrow> 0 \<le> clampCommission c gross lo hi"
  by (auto simp: clampCommission_def Let_def split: option.splits)

lemma signedValue_opposite [simp]: "signedValue (opposite d) v = - signedValue d v"
  by (cases d) (simp_all add: signedValue_def opposite_def)

section \<open>Properties\<close>

lemma digits_only_storable: "digits_only s \<Longrightarrow> signed_digits s"
  by (cases s) (auto simp: signed_digits_def digits_only_def dest: minus_not_digit)

lemma BigInt_digits_nonneg: "digits_only s \<Longrightarrow> 0 \<le> BigInt s"
  by (simp add: BigInt_digits)

lemma MINOR_UNIT_PATTERN_iff: "MINOR_UNIT_PATTERN s \<longleftrightarrow> digits_only s \<and> length s \<le> 30"
  by (cases s) (auto simp: MINOR_UNIT_PATTERN_def digits_only_def)

text \<open>C40. The ledger's parser and the published wire contract agree: \<open>parseMinor\<close> accepts exactly the
  texts of \<open>amountMinorSchema\<close> and returns their value, and refuses every other text as
  VALIDATION_FAILED; and an amount survives printing and parsing exactly when it is storable, i.e.
  fits an unsigned amount in the BIGINT column.\<close>

theorem parseMinor_contract:
  "(case parseMinor text of
      Inr v \<Rightarrow> amountMinorSchema text \<and> v = BigInt text \<and> isStorableMinor v
    | Inl e \<Rightarrow> \<not> amountMinorSchema text \<and> (\<exists>tag. e = RastaError VALIDATION_FAILED tag)) \<and>
   (parseMinor (formatMinor v) = Inr v) = isStorableMinor v"
proof
  show "case parseMinor text of
      Inr v \<Rightarrow> amountMinorSchema text \<and> v = BigInt text \<and> isStorableMinor v
    | Inl e \<Rightarrow> \<not> amountMinorSchema text \<and> (\<exists>tag. e = RastaError VALIDATION_FAILED tag)"
    by (auto simp: parseMinor_def amountMinorSchema_def MINOR_UNIT_PATTERN_iff storable_def Let_def
        digits_only_storable BigInt_digits_nonneg isStorableMinor_def)
  have "isStorableMinor w" if "parseMinor (formatMinor v) = Inr w" for w
    using that by (auto simp: parseMinor_def MINOR_UNIT_PATTERN_iff Let_def BigInt_digits_nonneg isStorableMinor_def
        split: if_splits)
  moreover have "parseMinor (formatMinor v) = Inr v" if "isStorableMinor v"
  proof -
    have "MINOR_UNIT_PATTERN (formatMinor v)" using that by (simp add: isStorableMinor_def formatMinor_pattern)
    with that show ?thesis by (simp add: parseMinor_def isStorableMinor_def) (simp add: formatMinor_def Let_def)
  qed
  ultimately show "(parseMinor (formatMinor v) = Inr v) = isStorableMinor v" by blast
qed

text \<open>Commission is rounded half up and never drifts: \<open>commissionFor\<close> refuses a negative gross or
  rate with a RangeError, and otherwise the amount in ten-thousandths is within half a unit of
  gross times rate, the exact half going up.\<close>

theorem commissionFor_half_up:
  "case commissionFor gross cur basisPoints of
     Inl e \<Rightarrow> (gross < 0 \<or> basisPoints < 0) \<and> (\<exists>tag. e = RangeError tag)
   | Inr c \<Rightarrow> 0 \<le> gross \<and> 0 \<le> basisPoints \<and> 0 \<le> c \<and>
       gross * basisPoints - 5000 < 10000 * c \<and> 10000 * c \<le> gross * basisPoints + 5000"
proof (cases "0 \<le> gross \<and> 0 \<le> basisPoints")
  case True
  let ?n = "gross * basisPoints + 5000"
  have q: "?n - 10000 < 10000 * (?n div 10000)" "10000 * (?n div 10000) \<le> ?n" by linarith+
  have "0 \<le> ?n div 10000" using True by (simp add: pos_imp_zdiv_nonneg_iff)
  with q True show ?thesis by (simp add: commissionFor_eq)
next
  case False
  then show ?thesis
    by (auto simp: commissionFor_def toMoney_def money_of_def applyBasisPoints_def Let_def)
qed

text \<open>The bounds of a clamped commission: with non-negative inputs it is between zero and the gross,
  never above the rule's maximum, and at least the rule's minimum unless the maximum or the gross is
  lower; a computed amount already inside all the bounds is left as it is.\<close>

theorem clampCommission_bounds:
  assumes "0 \<le> computed" and "0 \<le> gross" and "nonneg_bound hi"
    and "clampCommission computed gross lo hi = c"
  shows "0 \<le> c \<and> c \<le> gross \<and> (\<forall>h. hi = Some h \<longrightarrow> c \<le> h) \<and>
    (\<forall>l. lo = Some l \<longrightarrow> l \<le> c \<or> c = gross \<or> hi = Some c) \<and>
    (computed \<le> gross \<and> (\<forall>l. lo = Some l \<longrightarrow> l \<le> computed) \<and> (\<forall>h. hi = Some h \<longrightarrow> computed \<le> h) \<longrightarrow> c = computed)"
  using assms
  by (cases lo; cases hi) (auto simp: clampCommission_def Let_def nonneg_bound_def)

theorem clampCommission_bounds_witness:
  "clampCommission 120 1000 (Some 200) (Some 150) = 150 \<and> (0 :: int) \<le> 150 \<and> (150 :: int) \<le> 1000"
  using clampCommission_bounds [of 120 1000 "Some 150" "Some 200" 150]
  by (simp add: nonneg_bound_def clampCommission_def)

end
