(* ===== verification/Store.thy ===== *)
theory Store
  imports Money
begin

text \<open>
  What every component of economic-service reads and writes.

  \<^item> The request: its verified context (\<^verbatim>\<open>packages/nest-common/src/context/request-context.ts\<close>),
    whether it runs inside \<open>runUnscoped\<close> (\<^verbatim>\<open>packages/nest-common/src/tenancy/tenant-guard.extension.ts\<close>),
    the service's configuration, and what comes from outside the repository: \<open>ulid()\<close>, the host and
    database clocks, \<open>gen_random_uuid()\<close> and organization-service's hierarchy answer. Each outside
    source is a function of the number of reads made so far (\<open>ticks\<close>), so no two reads are assumed
    equal and none is assumed ordered.
  \<^item> The tables of \<^verbatim>\<open>prisma/schema.prisma\<close> as lists of records in insertion order, one field per column
    the modelled code reads or writes.
  \<^item> The SQL predicates on holds that the service asks the database
    (\<^verbatim>\<open>prisma/migrations/20261105120000_settlement_creation_proof\<close>,
    \<^verbatim>\<open>20261106120000_transaction_hold_decision\<close>, \<^verbatim>\<open>20261106130000_transaction_funded_hold\<close>).
\<close>

section \<open>The request\<close>

datatype auth_type = USER | SERVICE | ANONYMOUS

record request_context =
  correlationId :: string
  organizationId :: "string option"
  userId :: "string option"
  roles :: "string list"
  authType :: auth_type
  callerService :: "string option"

text \<open>The context, the configuration the service was started with, and the outside sources.\<close>

record runtime = request_context +
  isUnscoped :: bool
  ECONOMIC_PLATFORM_ORGANIZATION_ID :: string
  ECONOMIC_SETTLEMENT_REQUIRE_COMMISSION_RULE :: bool
  ECONOMIC_REFUND_BY_PAYEE_ENABLED :: bool
  ulid :: "nat \<Rightarrow> string"
  new_Date :: "nat \<Rightarrow> int"
  clock_timestamp :: "nat \<Rightarrow> int"
  gen_random_uuid :: "nat \<Rightarrow> string"
  withinVersion :: "nat \<Rightarrow> string \<Rightarrow> string \<Rightarrow> failure + int option"

definition SERVICE_NAME :: string where
  "SERVICE_NAME = ''economic-service''"

definition getOrganizationId :: "'a request_context_scheme \<Rightarrow> failure + string" where
  "getOrganizationId c =
     (case organizationId c of
        Some org \<Rightarrow> if org \<noteq> [] then Inr org
                    else if authType c = SERVICE
                         then Inl (RastaError SERVICE_TENANT_CONTEXT_INVALID ''MISSING_CLAIM'')
                         else Inl (PlainError ''no organizationId'')
      | None \<Rightarrow> if authType c = SERVICE
                then Inl (RastaError SERVICE_TENANT_CONTEXT_INVALID ''MISSING_CLAIM'')
                else Inl (PlainError ''no organizationId''))"

text \<open>
  The tenant guard. Every scoped read and create asks for the acting organization, a context without
  one being refused, unless the call runs inside \<open>runUnscoped\<close>.
\<close>

definition runUnscoped :: "'a runtime_scheme \<Rightarrow> 'a runtime_scheme" where
  "runUnscoped rt = rt\<lparr>isUnscoped := True\<rparr>"

definition actingOrganization :: "'a request_context_scheme \<Rightarrow> failure + string" where
  "actingOrganization c =
     (if (case organizationId c of None \<Rightarrow> True | Some org \<Rightarrow> org = []) \<and> authType c \<noteq> SERVICE
      then Inl (RastaError INTERNAL_ERROR ''No RequestContext tenant'')
      else getOrganizationId c)"

text \<open>\<open>getContext().userId ?? SERVICE_NAME\<close>: whom a write names.\<close>

definition actor_name :: "'a request_context_scheme \<Rightarrow> string" where
  "actor_name c = (case userId c of Some u \<Rightarrow> u | None \<Rightarrow> SERVICE_NAME)"

section \<open>Enumerations\<close>

datatype account_type = ASSET | LIABILITY | EQUITY | REVENUE | EXPENSE

datatype purpose = WALLET | ESCROW | COMMISSION_REVENUE | REWARD_EXPENSE | PAYMENT_CLEARING

datatype journal_type =
    WALLET_TOP_UP | FUNDS_HELD | FUNDS_REFUNDED | SETTLEMENT | REWARD_GRANT
  | SETTLEMENT_REVERSAL | REVERSAL

datatype wallet_status = W_ACTIVE | W_FROZEN | W_CLOSED

datatype hold_status = H_ACTIVE | H_RELEASED | H_REFUNDED

datatype hold_purpose = TRANSACTION | PAYMENT_REFUND

datatype transaction_type =
    MARKETPLACE_ORDER | MAINTENANCE_SERVICE | LOGISTICS | CONSTRUCTION_STATEMENT
  | PROCUREMENT_ORDER | TYPE_WALLET_TOP_UP

datatype business_line =
    LINE_PARTS | LINE_INSURANCE | LINE_MAINTENANCE | LINE_LOGISTICS | LINE_PROCUREMENT
  | LINE_CONSTRUCTION | LINE_MARKETPLACE_SERVICE

datatype transaction_status =
    CREATED | HELD | PENDING_SETTLEMENT | DISPUTED | SETTLED | PARTIALLY_REVERSED | REVERSED
  | REFUNDED | CANCELLED | FAILED

datatype rule_status = R_ACTIVE | R_INACTIVE

datatype commission_outcome = RULE_APPLIED | OUTCOME_NO_ACTIVE_RULE

section \<open>Tables\<close>

record ledger_account =
  a_id :: string
  a_organizationId :: string
  a_accountType :: account_type
  a_accountCode :: string
  a_purpose :: purpose
  a_currency :: string
  a_title :: "string option"
  a_createdBy :: string

record journal =
  j_id :: string
  j_organizationId :: string
  j_transactionId :: "string option"
  j_journalType :: journal_type
  j_description :: string
  j_postedAt :: int
  j_postedBy :: string
  j_reversesId :: "string option"
  j_reversalReason :: "string option"
  j_correlationId :: string

record ledger_entry =
  e_id :: string
  e_journalId :: string
  e_accountId :: string
  e_organizationId :: string
  e_direction :: direction
  e_amountMinor :: int
  e_currency :: string
  e_postedAt :: int

record balances =
  ledgerBalanceMinor :: int
  pendingBalanceMinor :: int
  availableBalanceMinor :: int

record wallet =
  w_id :: string
  w_organizationId :: string
  w_currency :: string
  w_ledgerAccountId :: string
  w_status :: wallet_status
  w_ledgerBalanceMinor :: int
  w_pendingBalanceMinor :: int
  w_availableBalanceMinor :: int
  w_createdAt :: int

record wallet_hold =
  h_id :: string
  h_organizationId :: string
  h_walletId :: string
  h_amountMinor :: int
  h_currency :: string
  h_status :: hold_status
  h_reference :: string
  h_referenceType :: hold_purpose
  h_placedJournalId :: "string option"
  h_resolvedJournalId :: "string option"
  h_placedAt :: int
  h_placedBy :: string
  h_resolvedAt :: "int option"
  h_resolvedBy :: "string option"
  h_resolutionNote :: "string option"

record payment_intent =
  p_id :: string
  p_walletId :: string
  p_transactionId :: "string option"
  p_amountMinor :: int
  p_currency :: string

record obligation =
  t_id :: string
  t_organizationId :: string
  t_counterpartyOrganizationId :: "string option"
  t_transactionType :: transaction_type
  t_businessLine :: "business_line option"
  t_status :: transaction_status
  t_pricingOutcome :: "commission_outcome option"
  t_pricingRuleId :: "string option"
  t_grossAmountMinor :: int
  t_commissionAmountMinor :: int
  t_netAmountMinor :: int
  t_currency :: string
  t_occurredAt :: int
  t_sourceType :: "string option"
  t_sourceReference :: "string option"
  t_idempotencyKey :: "string option"
  t_correlationId :: string
  t_causationId :: "string option"
  t_disputeId :: "string option"
  t_disputedAt :: "int option"
  t_disputedBy :: "string option"
  t_disputeReason :: "string option"
  t_disputeResolvedAt :: "int option"
  t_disputeResolvedBy :: "string option"
  t_disputeResolution :: "string option"
  t_resolvedDisputeId :: "string option"
  t_settlementAuthorisedAt :: "int option"
  t_settlementAuthorisedBy :: "string option"
  t_settlementAuthorisedService :: "string option"
  t_settlementAuthorisationKey :: "string option"
  t_heldAt :: "int option"
  t_settledAt :: "int option"
  t_failureReason :: "string option"
  t_cancelledAt :: "int option"
  t_cancelledBy :: "string option"
  t_refundedAt :: "int option"
  t_refundedBy :: "string option"
  t_createdBy :: string

datatype leg_role = PAYER | PAYEE

record transaction_leg =
  l_id :: string
  l_transactionId :: string
  l_organizationId :: string
  l_role :: leg_role
  l_amountMinor :: int
  l_currency :: string

record commission_rule =
  r_id :: string
  r_organizationId :: "string option"
  r_businessLine :: "business_line option"
  r_transactionType :: "transaction_type option"
  r_rateBasisPoints :: int
  r_minAmountMinor :: "int option"
  r_maxAmountMinor :: "int option"
  r_validFrom :: int
  r_validTo :: "int option"
  r_status :: rule_status
  r_label :: "string option"
  r_createdBy :: string
  r_updatedBy :: string

record commission =
  c_id :: string
  c_organizationId :: string
  c_transactionId :: string
  c_ruleId :: "string option"
  c_businessLine :: "business_line option"
  c_outcome :: commission_outcome
  c_rateBasisPoints :: int
  c_grossAmountMinor :: int
  c_amountMinor :: int
  c_currency :: string
  c_journalId :: string
  c_appliedAt :: int

record settlement =
  s_id :: string
  s_organizationId :: string
  s_transactionId :: string
  s_journalId :: string
  s_payerOrganizationId :: string
  s_payeeOrganizationId :: string
  s_grossAmountMinor :: int
  s_commissionAmountMinor :: int
  s_netAmountMinor :: int
  s_currency :: string
  s_settledAt :: int
  s_settledBy :: string
  s_actingOrganizationId :: string

section \<open>Events and the outbox row\<close>

text \<open>
  The payloads this development's operations publish, one constructor per event with the fields of
  its schema in \<^verbatim>\<open>events/events.ts\<close>. Instants are kept as instants; their ISO text is not modelled.
\<close>

record entry_payload =
  ep_accountId :: string
  ep_organizationId :: string
  ep_direction :: direction
  ep_amountMinor :: string
  ep_currency :: string

record rule_terms =
  rt_organizationId :: "string option"
  rt_businessLine :: "business_line option"
  rt_transactionType :: "transaction_type option"
  rt_rateBasisPoints :: int
  rt_minAmountMinor :: "string option"
  rt_maxAmountMinor :: "string option"
  rt_validFrom :: int
  rt_validTo :: "int option"
  rt_status :: rule_status
  rt_label :: "string option"

datatype status_change_action =
    ACT_CREATE | ACT_RECORD_AUTHORISED_OBLIGATION | ACT_AUTHORISE_SETTLEMENT | ACT_DISPUTE
  | ACT_RESOLVE_DISPUTE | ACT_CANCEL | ACT_REFUND

datatype change_kind = CHANGE_CREATED | CHANGE_UPDATED

datatype reward_type = POINTS | CASHBACK

datatype period_type = DAY | WEEK | MONTH

record reward_rule_terms =
  rwt_organizationId :: "string option"
  rwt_triggerEvent :: string
  rwt_rewardType :: reward_type
  rwt_condition :: "json option"
  rwt_points :: int
  rwt_creditPerPointMinor :: "string option"
  rwt_periodCap :: "int option"
  rwt_periodType :: "period_type option"
  rwt_validFrom :: int
  rwt_validTo :: "int option"
  rwt_status :: rule_status
  rwt_label :: "string option"

datatype payload =
    WalletOpened (wo_walletId: string) (wo_organizationId: string) (wo_currency: string)
      (wo_openedAt: int)
  | FundsHeld (fh_holdId: string) (fh_walletId: string) (fh_organizationId: string)
      (fh_transactionId: string) (fh_reference: string) (fh_referenceType: hold_purpose)
      (fh_amountMinor: string) (fh_currency: string) (fh_heldAt: int)
  | FundsReleased (fr_holdId: string) (fr_walletId: string) (fr_organizationId: string)
      (fr_transactionId: string) (fr_reference: string)
      (fr_amountMinor: string) (fr_currency: string) (fr_resolution: hold_status) (fr_resolvedAt: int)
  | JournalPosted (jp_journalId: string) (jp_organizationId: string)
      (jp_transactionId: "string option") (jp_journalType: journal_type) (jp_currency: string)
      (jp_postedAt: int) (jp_reversesJournalId: "string option") (jp_entries: "entry_payload list")
  | CommissionApplied (ca_commissionId: string) (ca_transactionId: string)
      (ca_organizationId: string) (ca_ruleId: "string option")
      (ca_businessLine: "business_line option") (ca_outcome: commission_outcome)
      (ca_rateBasisPoints: int) (ca_grossAmountMinor: string) (ca_amountMinor: string)
      (ca_currency: string) (ca_appliedAt: int)
  | CommissionRuleChanged (rc_ruleId: string) (rc_change: change_kind) (rc_changedBy: string) (rc_changedAt: int)
      (rc_before: "rule_terms option") (rc_after: rule_terms)
  | SettlementCompleted (sc_settlementId: string) (sc_transactionId: string)
      (sc_organizationId: string) (sc_payerOrganizationId: string) (sc_payeeOrganizationId: string)
      (sc_journalId: string)
      (sc_grossAmountMinor: string) (sc_commissionAmountMinor: string) (sc_netAmountMinor: string)
      (sc_currency: string) (sc_settledAt: int)
  | SettlementRefused (sr_transactionId: string) (sr_organizationId: string)
      (sr_payerOrganizationId: string) (sr_payeeOrganizationId: string) (sr_transactionType: transaction_type)
      (sr_businessLine: business_line) (sr_reason: string) (sr_refusedBy: string) (sr_refusedAt: int)
  | TransactionStatusChanged (tc_transactionId: string) (tc_organizationId: string)
      (tc_counterpartyOrganizationId: "string option") (tc_transactionType: transaction_type)
      (tc_action: status_change_action) (tc_fromStatus: "transaction_status option")
      (tc_toStatus: transaction_status) (tc_grossAmountMinor: string) (tc_currency: string)
      (tc_changedBy: string) (tc_changedAt: int)
  | RewardGranted (rg_rewardId: string) (rg_organizationId: string) (rg_userId: string) (rg_ruleId: string)
      (rg_triggerEvent: string) (rg_sourceReference: string) (rg_points: int) (rg_creditAmountMinor: string)
      (rg_currency: string) (rg_monetised: bool) (rg_journalId: "string option") (rg_grantedAt: int)
  | RewardLevelChanged (rl_organizationId: string) (rl_userId: string) (rl_from: "string option")
      (rl_to: string) (rl_totalPoints: int) (rl_changedAt: int)
  | RewardRuleChanged (rr_ruleId: string) (rr_change: change_kind) (rr_changedBy: string) (rr_changedAt: int)
      (rr_before: "reward_rule_terms option") (rr_after: reward_rule_terms)

record outbox_row =
  o_id :: string
  o_aggregateType :: string
  o_aggregateId :: string
  o_eventVersion :: nat
  o_topic :: string
  o_partitionKey :: string
  o_payload :: payload
  o_organizationId :: string
  o_correlationId :: string
  o_causationId :: "string option"
  o_createdAt :: int
  o_streamSeq :: nat

section \<open>The store\<close>

record db =
  accounts :: "ledger_account list"
  journals :: "journal list"
  entries :: "ledger_entry list"
  wallets :: "wallet list"
  holds :: "wallet_hold list"
  paymentIntents :: "payment_intent list"
  txns :: "obligation list"
  legs :: "transaction_leg list"
  rules :: "commission_rule list"
  linePricingFrom :: "int option"
  commissions :: "commission list"
  settlements :: "settlement list"
  holdReconciliations :: "(string \<times> string) list"
  holdDecisions :: "(string \<times> string) list"
  authorityReconciliations :: "(string \<times> string) list"
  outbox :: "outbox_row list"
  streamSequences :: "(string \<times> string) \<Rightarrow> nat option"
  ticks :: nat

type_synonym 'a tx = "(db, 'a) action"

definition empty_db :: db where
  "empty_db = \<lparr>accounts = [], journals = [], entries = [], wallets = [], holds = [],
     paymentIntents = [], txns = [], legs = [], rules = [], linePricingFrom = None, commissions = [],
     settlements = [], holdReconciliations = [], holdDecisions = [], authorityReconciliations = [],
     outbox = [], streamSequences = (\<lambda>_. None), ticks = 0\<rparr>"

lemma empty_db_simps [simp]:
  "accounts empty_db = []" "journals empty_db = []" "entries empty_db = []" "wallets empty_db = []"
  "holds empty_db = []" "paymentIntents empty_db = []" "txns empty_db = []" "legs empty_db = []"
  "rules empty_db = []" "commissions empty_db = []" "settlements empty_db = []" "outbox empty_db = []"
  "holdReconciliations empty_db = []" "holdDecisions empty_db = []"
  "authorityReconciliations empty_db = []" "streamSequences empty_db = (\<lambda>_. None)"
  by (simp_all add: empty_db_def)

text \<open>Reads of the outside sources. Each read takes the next number.\<close>

definition next_tick :: "nat tx" where
  "next_tick = (\<lambda>s. Inr (ticks s, s\<lparr>ticks := Suc (ticks s)\<rparr>))"

definition prefixed_ulid :: "'a runtime_scheme \<Rightarrow> string \<Rightarrow> string tx" where
  "prefixed_ulid rt prefix = bindM next_tick (\<lambda>n. returnM (prefix @ ''_'' @ ulid rt n))"

definition hostDate :: "'a runtime_scheme \<Rightarrow> int tx" where
  "hostDate rt = bindM next_tick (\<lambda>n. returnM (new_Date rt n))"

definition databaseNow :: "'a runtime_scheme \<Rightarrow> int tx" where
  "databaseNow rt = bindM next_tick (\<lambda>n. returnM (clock_timestamp rt n))"

section \<open>The database's predicates on holds\<close>

definition wallet_of :: "db \<Rightarrow> string \<Rightarrow> wallet option" where
  "wallet_of s i = find (\<lambda>w. w_id w = i) (wallets s)"

definition hold_of :: "db \<Rightarrow> string \<Rightarrow> wallet_hold option" where
  "hold_of s i = find (\<lambda>h. h_id h = i) (holds s)"

definition journal_of :: "db \<Rightarrow> string \<Rightarrow> journal option" where
  "journal_of s i = find (\<lambda>j. j_id j = i) (journals s)"

definition txn_of :: "db \<Rightarrow> string \<Rightarrow> obligation option" where
  "txn_of s i = find (\<lambda>t. t_id t = i) (txns s)"

definition transaction_holds :: "db \<Rightarrow> string \<Rightarrow> string \<Rightarrow> wallet_hold list" where
  "transaction_holds s transaction_id payer =
     filter (\<lambda>h. (\<exists>w\<in>set (wallets s). w_id w = h_walletId h \<and> w_organizationId w = h_organizationId h) \<and>
                 h_reference h = transaction_id \<and> h_referenceType h = TRANSACTION \<and>
                 h_organizationId h = payer) (holds s)"

text \<open>The net movement of one journal into the ESCROW accounts of an organization in a currency.\<close>

definition escrow_movement :: "db \<Rightarrow> string \<Rightarrow> string \<Rightarrow> string \<Rightarrow> int" where
  "escrow_movement s journalId org cur =
     (\<Sum>e\<leftarrow>filter (\<lambda>e. e_journalId e = journalId \<and>
                       (\<exists>a\<in>set (accounts s). a_id a = e_accountId e \<and> a_purpose a = ESCROW \<and>
                          a_organizationId a = org \<and> a_currency a = cur)) (entries s).
        - signedValue (e_direction e) (e_amountMinor e))"

definition wallet_hold_funded :: "db \<Rightarrow> string \<Rightarrow> bool" where
  "wallet_hold_funded s subject \<longleftrightarrow>
     (\<exists>h\<in>set (holds s). h_id h = subject \<and>
       (\<exists>w\<in>set (wallets s). w_id w = h_walletId h \<and> w_organizationId w = h_organizationId h \<and>
          w_currency w = h_currency h) \<and>
       (\<exists>j\<in>set (journals s). Some (j_id j) = h_placedJournalId h \<and> j_journalType j = FUNDS_HELD \<and>
          j_organizationId j = h_organizationId h \<and>
          (case h_referenceType h of
             TRANSACTION \<Rightarrow> j_transactionId j = Some (h_reference h)
           | PAYMENT_REFUND \<Rightarrow>
               (\<exists>p\<in>set (paymentIntents s). p_id p = h_reference h \<and> p_walletId p = h_walletId h \<and>
                  p_transactionId p \<noteq> None \<and> p_transactionId p = j_transactionId j \<and>
                  p_amountMinor p = h_amountMinor h \<and> p_currency p = h_currency h)) \<and>
          \<not> (\<exists>r\<in>set (journals s). j_reversesId r = Some (j_id j)) \<and>
          (\<exists>e\<in>set (entries s). e_journalId e = j_id j \<and>
             (\<exists>a\<in>set (accounts s). a_id a = e_accountId e \<and> a_purpose a = ESCROW \<and>
                a_organizationId a = h_organizationId h \<and> a_currency a = h_currency h)) \<and>
          escrow_movement s (j_id j) (h_organizationId h) (h_currency h) = h_amountMinor h))"

definition transaction_hold_decision_unresolved :: "db \<Rightarrow> string \<Rightarrow> bool" where
  "transaction_hold_decision_unresolved s subject \<longleftrightarrow>
     (\<exists>c\<in>set (holdReconciliations s). fst c = subject \<and>
        snd c \<noteq> ''RESTORED_TO_PENDING_SETTLEMENT'' \<and>
        \<not> (\<exists>d\<in>set (holdDecisions s). fst d = fst c))"

definition transaction_own_hold_for_terms :: "db \<Rightarrow> string \<Rightarrow> bool" where
  "transaction_own_hold_for_terms s subject \<longleftrightarrow>
     (\<exists>t\<in>set (txns s). t_id t = subject \<and>
       (\<exists>h\<in>set (transaction_holds s (t_id t) (t_organizationId t)). h_status h = H_ACTIVE \<and>
          h_amountMinor h = t_grossAmountMinor t \<and> h_currency h = t_currency t \<and>
          wallet_hold_funded s (h_id h)))"

definition transaction_settlement_barred :: "db \<Rightarrow> string \<Rightarrow> bool" where
  "transaction_settlement_barred s subject \<longleftrightarrow>
     (\<exists>t\<in>set (txns s). t_id t = subject \<and>
       (transaction_hold_decision_unresolved s (t_id t) \<or>
        (\<not> transaction_own_hold_for_terms s (t_id t) \<and>
         (t_heldAt t \<noteq> None \<or>
          (\<exists>c\<in>set (holdReconciliations s). fst c = t_id t) \<or>
          transaction_holds s (t_id t) (t_organizationId t) \<noteq> []))))"

definition transaction_settlement_authorised :: "db \<Rightarrow> string \<Rightarrow> bool \<Rightarrow> bool" where
  "transaction_settlement_authorised s subject column_set \<longleftrightarrow>
     \<not> transaction_hold_decision_unresolved s subject \<and>
     (column_set \<or>
      ((\<exists>r\<in>set (authorityReconciliations s). fst r = subject \<and> snd r = ''AUTHORISED_UNRECORDED'') \<and>
       \<not> (\<exists>d\<in>set (holdDecisions s). fst d = subject \<and> snd d = ''VOIDED'')))"

definition transaction_held_proven :: "db \<Rightarrow> string \<Rightarrow> bool" where
  "transaction_held_proven s subject \<longleftrightarrow>
     (\<exists>t\<in>set (txns s). t_id t = subject \<and> t_status t = HELD \<and>
        \<not> transaction_hold_decision_unresolved s (t_id t) \<and>
        transaction_own_hold_for_terms s (t_id t))"

lemma actingOrganization_Inr [simp]: "actingOrganization c = Inr org \<longleftrightarrow> getOrganizationId c = Inr org"
  by (auto simp: actingOrganization_def getOrganizationId_def split: option.splits if_splits)

lemma runUnscoped_simps [simp]:
  "isUnscoped (runUnscoped rt)" "getOrganizationId (runUnscoped rt) = getOrganizationId rt"
  "ECONOMIC_PLATFORM_ORGANIZATION_ID (runUnscoped rt) = ECONOMIC_PLATFORM_ORGANIZATION_ID rt"
  by (simp_all add: runUnscoped_def getOrganizationId_def)

lemma next_tick_Inr: "next_tick s = Inr (n, s') \<longleftrightarrow> n = ticks s \<and> s' = s\<lparr>ticks := Suc (ticks s)\<rparr>"
  by (auto simp: next_tick_def)

lemma prefixed_ulid_Inr:
  "prefixed_ulid rt p s = Inr (i, s') \<longleftrightarrow>
     i = p @ ''_'' @ ulid rt (ticks s) \<and> s' = s\<lparr>ticks := Suc (ticks s)\<rparr>"
  by (auto simp: prefixed_ulid_def next_tick_def bindM_def)

lemma hostDate_Inr:
  "hostDate rt s = Inr (d, s') \<longleftrightarrow> d = new_Date rt (ticks s) \<and> s' = s\<lparr>ticks := Suc (ticks s)\<rparr>"
  by (auto simp: hostDate_def next_tick_def bindM_def)

lemma databaseNow_Inr:
  "databaseNow rt s = Inr (d, s') \<longleftrightarrow>
     d = clock_timestamp rt (ticks s) \<and> s' = s\<lparr>ticks := Suc (ticks s)\<rparr>"
  by (auto simp: databaseNow_def next_tick_def bindM_def)

lemmas source_Inr = prefixed_ulid_Inr hostDate_Inr databaseNow_Inr

lemma prefixed_ulid_run [action_simps]:
  "prefixed_ulid rt p s = Inr (p @ ''_'' @ ulid rt (ticks s), s\<lparr>ticks := Suc (ticks s)\<rparr>)"
  by (simp add: prefixed_ulid_Inr)

lemma hostDate_run [action_simps]:
  "hostDate rt s = Inr (new_Date rt (ticks s), s\<lparr>ticks := Suc (ticks s)\<rparr>)"
  by (simp add: hostDate_Inr)

lemma databaseNow_run [action_simps]:
  "databaseNow rt s = Inr (clock_timestamp rt (ticks s), s\<lparr>ticks := Suc (ticks s)\<rparr>)"
  by (simp add: databaseNow_Inr)

section \<open>Parts of the store\<close>

text \<open>The groups of tables, one per component that writes them.\<close>

definition ledger_part :: "db \<Rightarrow> ledger_account list \<times> journal list \<times> ledger_entry list" where
  "ledger_part s = (accounts s, journals s, entries s)"

definition wallet_part :: "db \<Rightarrow> wallet list \<times> wallet_hold list" where
  "wallet_part s = (wallets s, holds s)"

definition txn_part :: "db \<Rightarrow> obligation list \<times> transaction_leg list" where
  "txn_part s = (txns s, legs s)"

definition charge_part :: "db \<Rightarrow> commission list \<times> settlement list" where
  "charge_part s = (commissions s, settlements s)"

definition outbox_part :: "db \<Rightarrow> outbox_row list \<times> (string \<times> string \<Rightarrow> nat option)" where
  "outbox_part s = (outbox s, streamSequences s)"

text \<open>Written by no operation of this development.\<close>

definition fixed_part ::
  "db \<Rightarrow> payment_intent list \<times> int option \<times> (string \<times> string) list \<times> (string \<times> string) list \<times> (string \<times> string) list"
where
  "fixed_part s = (paymentIntents s, linePricingFrom s, holdReconciliations s, holdDecisions s,
     authorityReconciliations s)"

lemmas part_defs =
  ledger_part_def wallet_part_def txn_part_def charge_part_def outbox_part_def fixed_part_def

text \<open>A part that does not read \<open>ticks\<close> survives every read of an outside source.\<close>

definition tickless :: "(db \<Rightarrow> 'p) \<Rightarrow> bool" where
  "tickless f \<longleftrightarrow> (\<forall>s n. f (s\<lparr>ticks := n\<rparr>) = f s)"

lemma tickless_parts [simp]:
  "tickless ledger_part" "tickless wallet_part" "tickless txn_part" "tickless charge_part"
  "tickless outbox_part" "tickless fixed_part" "tickless rules"
  by (simp_all add: tickless_def part_defs)

lemma tickless_pair [simp]: "tickless f \<Longrightarrow> tickless g \<Longrightarrow> tickless (\<lambda>s. (f s, g s))"
  by (simp add: tickless_def)

lemma unchanged_sources [unchanged_rules]:
  assumes "tickless f"
  shows "unchanged f next_tick" "unchanged f (prefixed_ulid rt pre)" "unchanged f (hostDate rt)"
    "unchanged f (databaseNow rt)"
  using assms by (auto simp: unchanged_def tickless_def source_Inr next_tick_Inr)

end
