(* ===== verification/Outbox.thy ===== *)
theory Outbox
  imports Store
begin

text \<open>
  The transactional outbox: \<^verbatim>\<open>events/events.ts\<close> (the published schemas of the events modelled
  here), \<^verbatim>\<open>events/routing.ts\<close> (what an event is about and what it is ordered with),
  \<open>allocateStreamSeqSql\<close> and \<open>buildOutboxRow\<close> of \<^verbatim>\<open>packages/nest-common/src/outbox\<close>, and
  \<open>LedgerService.enqueue\<close>, the only writer of the outbox.

  The main fact is that every stream is gap-free: the sequence numbers stored under one
  \<open>(topic, partition key)\<close> are exactly 1, 2, 3, and so on, in insertion order, whatever the
  operations did; a transaction that throws gives its number back.
\<close>

section \<open>Published schemas\<close>

definition ECONOMIC_TOPIC :: string where
  "ECONOMIC_TOPIC = ''rasta.economic.v1''"

definition amount_schema :: "string \<Rightarrow> bool" where
  "amount_schema a \<longleftrightarrow> 1 \<le> length a \<and> length a \<le> 30 \<and> (\<forall>c\<in>set a. is_digit c)"

definition currency_schema :: "string \<Rightarrow> bool" where
  "currency_schema c \<longleftrightarrow> 3 \<le> length c \<and> length c \<le> 8"

definition rate_schema :: "int \<Rightarrow> bool" where
  "rate_schema r \<longleftrightarrow> 0 \<le> r \<and> r \<le> 10000"

definition nullable :: "('a \<Rightarrow> bool) \<Rightarrow> 'a option \<Rightarrow> bool" where
  "nullable P x = (case x of None \<Rightarrow> True | Some y \<Rightarrow> P y)"

definition entry_schema :: "entry_payload \<Rightarrow> bool" where
  "entry_schema e \<longleftrightarrow> amount_schema (ep_amountMinor e) \<and> currency_schema (ep_currency e)"

definition commissionRuleTermsV2 :: "rule_terms \<Rightarrow> bool" where
  "commissionRuleTermsV2 t \<longleftrightarrow>
     rate_schema (rt_rateBasisPoints t) \<and> nullable amount_schema (rt_minAmountMinor t) \<and>
     nullable amount_schema (rt_maxAmountMinor t)"

text \<open>A reward rule's terms; its condition is an object, or absent.\<close>

definition rewardRuleTerms :: "reward_rule_terms \<Rightarrow> bool" where
  "rewardRuleTerms t \<longleftrightarrow>
     (case rwt_condition t of Some (JObject _) \<Rightarrow> True | Some JNull \<Rightarrow> True | Some _ \<Rightarrow> False | None \<Rightarrow> True) \<and>
     rwt_points t > 0 \<and> nullable amount_schema (rwt_creditPerPointMinor t) \<and>
     nullable (\<lambda>c. c > 0) (rwt_periodCap t)"

text \<open>
  One clause per published schema: what it checks beyond the field types. \<open>HOLD_ACTIVE\<close> is not a
  resolution, an account top-up cannot be refused a settlement, a zero-rule commission says so.
\<close>

fun payload_schema :: "payload \<Rightarrow> bool" where
  "payload_schema (WalletOpened _ _ cur _) = currency_schema cur"
| "payload_schema (FundsHeld _ _ _ _ _ _ amount cur _) = (amount_schema amount \<and> currency_schema cur)"
| "payload_schema (FundsReleased _ _ _ _ _ amount cur resolution _) =
     (amount_schema amount \<and> currency_schema cur \<and> resolution \<in> {H_RELEASED, H_REFUNDED})"
| "payload_schema (JournalPosted _ _ _ _ cur _ _ es) =
     (currency_schema cur \<and> list_all entry_schema es \<and> 2 \<le> length es)"
| "payload_schema (CommissionApplied _ _ _ ruleId _ outcome rate gross amount cur _) =
     (rate_schema rate \<and> amount_schema gross \<and> amount_schema amount \<and> currency_schema cur \<and>
      (outcome = OUTCOME_NO_ACTIVE_RULE) = (ruleId = None))"
| "payload_schema (CommissionRuleChanged _ change _ _ prior after) =
     (nullable commissionRuleTermsV2 prior \<and> commissionRuleTermsV2 after \<and>
      (change = CHANGE_CREATED) = (prior = None))"
| "payload_schema (SettlementCompleted _ _ _ _ _ _ gross commission net cur _) =
     (amount_schema gross \<and> amount_schema commission \<and> amount_schema net \<and> currency_schema cur)"
| "payload_schema (SettlementRefused _ _ _ _ type _ reason _ _) =
     (type \<noteq> TYPE_WALLET_TOP_UP \<and> reason = ''NO_ACTIVE_RULE'')"
| "payload_schema (TransactionStatusChanged _ _ _ _ act from _ gross cur _ _) =
     (amount_schema gross \<and> currency_schema cur \<and>
      (from = None) = (act = ACT_CREATE \<or> act = ACT_RECORD_AUTHORISED_OBLIGATION))"
| "payload_schema (RewardGranted _ _ _ _ _ _ points credit cur _ _ _) =
     (points > 0 \<and> amount_schema credit \<and> currency_schema cur)"
| "payload_schema (RewardLevelChanged _ _ _ _ totalPoints _) = (totalPoints \<ge> 0)"
| "payload_schema (RewardRuleChanged _ change _ _ prior after) =
     (nullable rewardRuleTerms prior \<and> rewardRuleTerms after \<and>
      (change = CHANGE_CREATED) = (prior = None))"

definition validateEconomicPayload :: "payload \<Rightarrow> failure + payload" where
  "validateEconomicPayload p =
     (if payload_schema p then Inr p
      else Inl (PlainError ''payload does not match its published contract''))"

section \<open>Routing\<close>

fun AGGREGATE_OF :: "payload \<Rightarrow> string" where
  "AGGREGATE_OF (WalletOpened _ _ _ _) = ''Wallet''"
| "AGGREGATE_OF (FundsHeld _ _ _ _ _ _ _ _ _) = ''WalletHold''"
| "AGGREGATE_OF (FundsReleased _ _ _ _ _ _ _ _ _) = ''WalletHold''"
| "AGGREGATE_OF (JournalPosted _ _ _ _ _ _ _ _) = ''Journal''"
| "AGGREGATE_OF (CommissionApplied _ _ _ _ _ _ _ _ _ _ _) = ''Commission''"
| "AGGREGATE_OF (CommissionRuleChanged _ _ _ _ _ _) = ''CommissionRule''"
| "AGGREGATE_OF (SettlementCompleted _ _ _ _ _ _ _ _ _ _ _) = ''Settlement''"
| "AGGREGATE_OF (SettlementRefused _ _ _ _ _ _ _ _ _) = ''Transaction''"
| "AGGREGATE_OF (TransactionStatusChanged _ _ _ _ _ _ _ _ _ _ _) = ''Transaction''"
| "AGGREGATE_OF (RewardGranted _ _ _ _ _ _ _ _ _ _ _ _) = ''Reward''"
| "AGGREGATE_OF (RewardLevelChanged _ _ _ _ _ _) = ''RewardBalance''"
| "AGGREGATE_OF (RewardRuleChanged _ _ _ _ _ _) = ''RewardRule''"

fun ECONOMIC_EVENT_VERSIONS :: "payload \<Rightarrow> nat" where
  "ECONOMIC_EVENT_VERSIONS (CommissionApplied _ _ _ _ _ _ _ _ _ _ _) = 2"
| "ECONOMIC_EVENT_VERSIONS (CommissionRuleChanged _ _ _ _ _ _) = 2"
| "ECONOMIC_EVENT_VERSIONS _ = 1"

datatype partition_scope = SCOPE_TRANSACTION | SCOPE_WALLET | SCOPE_JOURNAL | SCOPE_REWARD | SCOPE_REWARD_SUBJECT | SCOPE_RULE

fun PARTITION_KEY_POLICY :: "payload \<Rightarrow> partition_scope \<times> string" where
  "PARTITION_KEY_POLICY (FundsHeld _ _ _ txn _ _ _ _ _) = (SCOPE_TRANSACTION, txn)"
| "PARTITION_KEY_POLICY (FundsReleased _ _ _ txn _ _ _ _ _) = (SCOPE_TRANSACTION, txn)"
| "PARTITION_KEY_POLICY (CommissionApplied _ txn _ _ _ _ _ _ _ _ _) = (SCOPE_TRANSACTION, txn)"
| "PARTITION_KEY_POLICY (SettlementCompleted _ txn _ _ _ _ _ _ _ _ _) = (SCOPE_TRANSACTION, txn)"
| "PARTITION_KEY_POLICY (SettlementRefused txn _ _ _ _ _ _ _ _) = (SCOPE_TRANSACTION, txn)"
| "PARTITION_KEY_POLICY (TransactionStatusChanged txn _ _ _ _ _ _ _ _ _ _) = (SCOPE_TRANSACTION, txn)"
| "PARTITION_KEY_POLICY (JournalPosted journalId _ txn _ _ _ _ _) =
     (case txn of
        Some t \<Rightarrow> if t \<noteq> [] then (SCOPE_TRANSACTION, t) else (SCOPE_JOURNAL, journalId)
      | None \<Rightarrow> (SCOPE_JOURNAL, journalId))"
| "PARTITION_KEY_POLICY (WalletOpened walletId _ _ _) = (SCOPE_WALLET, walletId)"
| "PARTITION_KEY_POLICY (CommissionRuleChanged ruleId _ _ _ _ _) = (SCOPE_RULE, ruleId)"
| "PARTITION_KEY_POLICY (RewardGranted rewardId _ _ _ _ _ _ _ _ _ _ _) = (SCOPE_REWARD, rewardId)"
| "PARTITION_KEY_POLICY (RewardLevelChanged org user _ _ _ _) = (SCOPE_REWARD_SUBJECT, org @ '':'' @ user)"
| "PARTITION_KEY_POLICY (RewardRuleChanged ruleId _ _ _ _ _) = (SCOPE_RULE, ruleId)"

definition resolvePartitionKey :: "payload \<Rightarrow> failure + (partition_scope \<times> string)" where
  "resolvePartitionKey p =
     (let decision = PARTITION_KEY_POLICY p in
      if snd decision = [] then Inl (PlainError ''resolved an empty partition key'')
      else Inr decision)"

section \<open>Stream sequences and rows\<close>

definition MAX_STREAM_SEQ :: nat where
  "MAX_STREAM_SEQ = 9007199254740991"

definition toStreamSeq :: "nat \<Rightarrow> failure + nat" where
  "toStreamSeq n =
     (if 1 \<le> n \<and> n \<le> MAX_STREAM_SEQ then Inr n
      else Inl (RangeError ''streamSeq must be a positive safe integer''))"

text \<open>
  The upsert: the first allocation stores 2 and returns 1, every later one adds one to the stored
  value and returns what was stored.
\<close>

definition allocateStreamSeqSql :: "string \<Rightarrow> string \<Rightarrow> nat tx" where
  "allocateStreamSeqSql topic partitionKey =
     thenM (assertM (topic \<noteq> []) (PlainError ''topic must not be empty''))
    (thenM (assertM (partitionKey \<noteq> []) (PlainError ''partitionKey must not be empty''))
    (bindM (getsM (\<lambda>s. case streamSequences s (topic, partitionKey) of
                         None \<Rightarrow> 2 | Some next_seq \<Rightarrow> next_seq + 1)) (\<lambda>next_seq.
     thenM (modifyM (\<lambda>s. s\<lparr>streamSequences := (streamSequences s)((topic, partitionKey) \<mapsto> next_seq)\<rparr>))
           (liftM (toStreamSeq (next_seq - 1))))))"

text \<open>
  The row of one event. The event id and \<open>occurredAt\<close> are read here; the correlation id is the
  request's; an empty causation id is dropped.
\<close>

definition buildOutboxRow ::
  "'a runtime_scheme \<Rightarrow> string \<Rightarrow> string \<Rightarrow> payload \<Rightarrow> string option \<Rightarrow> string \<Rightarrow> nat \<Rightarrow> outbox_row tx"
where
  "buildOutboxRow rt aggregateId org payload causationId partitionKey streamSeq =
     bindM next_tick (\<lambda>n.
     bindM (hostDate rt) (\<lambda>occurredAt.
     returnM \<lparr>o_id = ulid rt n, o_aggregateType = AGGREGATE_OF payload, o_aggregateId = aggregateId,
       o_eventVersion = ECONOMIC_EVENT_VERSIONS payload, o_topic = ECONOMIC_TOPIC,
       o_partitionKey = partitionKey, o_payload = payload, o_organizationId = org,
       o_correlationId = correlationId rt,
       o_causationId = (case causationId of Some c \<Rightarrow> if c = [] then None else Some c | None \<Rightarrow> None),
       o_createdAt = occurredAt, o_streamSeq = streamSeq\<rparr>))"

definition insert_outbox :: "outbox_row \<Rightarrow> unit tx" where
  "insert_outbox row =
     bindM (getsM (\<lambda>s. o_id row \<notin> o_id ` set (outbox s))) (\<lambda>fresh.
     thenM (assertM fresh (UniqueViolation ''outbox_message_pkey''))
           (modifyM (\<lambda>s. s\<lparr>outbox := outbox s @ [row]\<rparr>)))"

text \<open>\<open>LedgerService.enqueue\<close>.\<close>

definition enqueue ::
  "'a runtime_scheme \<Rightarrow> string \<Rightarrow> string \<Rightarrow> payload \<Rightarrow> string option \<Rightarrow> unit tx"
where
  "enqueue rt aggregateId org input causationId =
     bindM (liftM (validateEconomicPayload input)) (\<lambda>payload.
     bindM (liftM (resolvePartitionKey payload)) (\<lambda>partition.
     bindM (allocateStreamSeqSql ECONOMIC_TOPIC (snd partition)) (\<lambda>streamSeq.
     bindM (buildOutboxRow rt aggregateId org payload causationId (snd partition) streamSeq)
       insert_outbox)))"

section \<open>What an enqueue does\<close>

text \<open>The parts of the store that the outbox and the outside sources own.\<close>

definition same_data :: "db \<Rightarrow> db \<Rightarrow> bool" where
  "same_data s s' \<longleftrightarrow>
     accounts s' = accounts s \<and> journals s' = journals s \<and> entries s' = entries s \<and>
     wallets s' = wallets s \<and> holds s' = holds s \<and> paymentIntents s' = paymentIntents s \<and>
     txns s' = txns s \<and> legs s' = legs s \<and> rules s' = rules s \<and>
     linePricingFrom s' = linePricingFrom s \<and> commissions s' = commissions s \<and> settlements s' = settlements s \<and>
     holdReconciliations s' = holdReconciliations s \<and> holdDecisions s' = holdDecisions s \<and> authorityReconciliations s' = authorityReconciliations s"

lemma same_data_refl [simp, intro]: "same_data s s"
  by (simp add: same_data_def)

lemma same_data_trans [trans]: "same_data s s1 \<Longrightarrow> same_data s1 s2 \<Longrightarrow> same_data s s2"
  by (simp add: same_data_def)

lemma same_dataD:
  assumes "same_data s s'"
  shows "accounts s' = accounts s" "journals s' = journals s" "entries s' = entries s"
    "wallets s' = wallets s" "holds s' = holds s" "paymentIntents s' = paymentIntents s"
    "txns s' = txns s" "legs s' = legs s" "rules s' = rules s"
    "linePricingFrom s' = linePricingFrom s" "commissions s' = commissions s" "settlements s' = settlements s"
    "holdReconciliations s' = holdReconciliations s" "holdDecisions s' = holdDecisions s" "authorityReconciliations s' = authorityReconciliations s"
  using assms by (simp_all add: same_data_def)

lemma same_data_ticks [simp]: "same_data s (s\<lparr>ticks := n\<rparr>)"
  by (simp add: same_data_def)

lemma allocateStreamSeqSql_Inr:
  assumes "allocateStreamSeqSql topic k s = Inr (n, s')"
  shows "topic \<noteq> [] \<and> k \<noteq> [] \<and> 1 \<le> n \<and>
    n = (case streamSequences s (topic, k) of None \<Rightarrow> 1 | Some m \<Rightarrow> m) \<and>
    s' = s\<lparr>streamSequences := (streamSequences s)((topic, k) \<mapsto> Suc n)\<rparr>"
  using assms
  by (cases "streamSequences s (topic, k)")
    (auto simp: allocateStreamSeqSql_def action_Inr toStreamSeq_def numeral_2_eq_2 split: if_splits)

lemma buildOutboxRow_Inr:
  assumes "buildOutboxRow rt aid org p cid k n s = Inr (row, s')"
  shows "o_topic row = ECONOMIC_TOPIC \<and> o_partitionKey row = k \<and> o_payload row = p \<and>
    o_streamSeq row = n \<and> o_organizationId row = org \<and> o_aggregateId row = aid \<and>
    s' = s\<lparr>ticks := ticks s + 2\<rparr>"
  using assms
  by (auto simp: buildOutboxRow_def action_Inr next_tick_Inr source_Inr returnM_def)

text \<open>The row an enqueue appends, and the store it leaves.\<close>

definition appended :: "db \<Rightarrow> payload \<Rightarrow> outbox_row \<Rightarrow> db \<Rightarrow> bool" where
  "appended s p row s' \<longleftrightarrow>
     payload_schema p \<and> o_payload row = p \<and> o_topic row = ECONOMIC_TOPIC \<and>
     o_partitionKey row = snd (PARTITION_KEY_POLICY p) \<and> o_partitionKey row \<noteq> [] \<and>
     1 \<le> o_streamSeq row \<and>
     o_streamSeq row =
       (case streamSequences s (ECONOMIC_TOPIC, o_partitionKey row) of None \<Rightarrow> 1 | Some m \<Rightarrow> m) \<and>
     o_id row \<notin> o_id ` set (outbox s) \<and>
     outbox s' = outbox s @ [row] \<and> same_data s s' \<and>
     streamSequences s' =
       (streamSequences s)((ECONOMIC_TOPIC, o_partitionKey row) \<mapsto> Suc (o_streamSeq row))"

lemma enqueue_Inr:
  assumes "enqueue rt aid org p cid s = Inr (u, s')"
  shows "\<exists>row. appended s p row s' \<and> o_organizationId row = org \<and> o_aggregateId row = aid"
proof -
  from assms obtain n s1 row s2 where
    p: "payload_schema p" and k: "snd (PARTITION_KEY_POLICY p) \<noteq> []"
    and al: "allocateStreamSeqSql ECONOMIC_TOPIC (snd (PARTITION_KEY_POLICY p)) s = Inr (n, s1)"
    and bo: "buildOutboxRow rt aid org p cid (snd (PARTITION_KEY_POLICY p)) n s1 = Inr (row, s2)"
    and ins: "insert_outbox row s2 = Inr (u, s')"
    by (auto simp: enqueue_def action_Inr validateEconomicPayload_def resolvePartitionKey_def Let_def
        split: if_splits)
  from ins have i: "o_id row \<notin> o_id ` set (outbox s2)" "s' = s2\<lparr>outbox := outbox s2 @ [row]\<rparr>"
    by (auto simp: insert_outbox_def action_Inr)
  have "appended s p row s'"
    using allocateStreamSeqSql_Inr [OF al] buildOutboxRow_Inr [OF bo] i p k
    by (simp add: appended_def same_data_def)
  then show ?thesis using buildOutboxRow_Inr [OF bo] by blast
qed

lemma enqueue_same_data: "enqueue rt aid org p cid s = Inr (u, s') \<Longrightarrow> same_data s s'"
  by (drule enqueue_Inr) (auto simp: appended_def)

lemma source_same_data:
  "prefixed_ulid rt pre s = Inr (i, s') \<Longrightarrow> same_data s s'"
  "hostDate rt s = Inr (d, s') \<Longrightarrow> same_data s s'"
  "databaseNow rt s = Inr (d, s') \<Longrightarrow> same_data s s'"
  by (auto simp: source_Inr)

text \<open>Nothing but the outbox moves.\<close>

definition outboxless :: "(db \<Rightarrow> 'p) \<Rightarrow> bool" where
  "outboxless f \<longleftrightarrow> (\<forall>s s'. same_data s s' \<longrightarrow> f s' = f s)"

lemma outboxless_parts [simp]:
  "outboxless ledger_part" "outboxless wallet_part" "outboxless txn_part" "outboxless charge_part"
  "outboxless fixed_part" "outboxless rules"
  by (simp_all add: outboxless_def part_defs same_data_def)

lemma outboxless_pair [simp]: "outboxless f \<Longrightarrow> outboxless g \<Longrightarrow> outboxless (\<lambda>s. (f s, g s))"
  by (simp add: outboxless_def)

lemma unchanged_enqueue [unchanged_rules]:
  "outboxless f \<Longrightarrow> unchanged f (enqueue rt aid org p cid)"
  by (rule unchangedI) (auto simp: outboxless_def dest: enqueue_same_data)

section \<open>Gap-free streams\<close>

definition stream_of :: "db \<Rightarrow> string \<Rightarrow> string \<Rightarrow> outbox_row list" where
  "stream_of s topic k = filter (\<lambda>r. o_topic r = topic \<and> o_partitionKey r = k) (outbox s)"

definition next_seq_of :: "db \<Rightarrow> string \<Rightarrow> string \<Rightarrow> nat" where
  "next_seq_of s topic k = (case streamSequences s (topic, k) of None \<Rightarrow> 1 | Some n \<Rightarrow> n)"

definition streams_ok :: "db \<Rightarrow> bool" where
  "streams_ok s \<longleftrightarrow>
     (\<forall>topic k. map o_streamSeq (stream_of s topic k) = [1 ..< next_seq_of s topic k]) \<and>
     (\<forall>r\<in>set (outbox s). payload_schema (o_payload r) \<and>
        o_partitionKey r = snd (PARTITION_KEY_POLICY (o_payload r)) \<and> o_partitionKey r \<noteq> [])"

text \<open>The invariant reads the outbox and the counters only.\<close>

lemma streams_ok_cong:
  "outbox s' = outbox s \<Longrightarrow> streamSequences s' = streamSequences s \<Longrightarrow> streams_ok s' = streams_ok s"
  by (simp add: streams_ok_def stream_of_def next_seq_of_def)

lemma streams_ok_empty: "streams_ok empty_db"
  by (simp add: streams_ok_def stream_of_def next_seq_of_def empty_db_def)

lemma appended_streams_ok:
  assumes "streams_ok s" and ap: "appended s p row s'"
  shows "streams_ok s'"
proof -
  have "map o_streamSeq (stream_of s' t k) = [1 ..< next_seq_of s' t k]" for t k
  proof (cases "t = ECONOMIC_TOPIC \<and> k = o_partitionKey row")
    case True
    then have "stream_of s' t k = stream_of s t k @ [row]"
      and "next_seq_of s' t k = Suc (o_streamSeq row)" and "next_seq_of s t k = o_streamSeq row"
      using ap by (simp_all add: appended_def stream_of_def next_seq_of_def)
    moreover have "1 \<le> o_streamSeq row" using ap unfolding appended_def by blast
    moreover have "map o_streamSeq (stream_of s t k) = [1 ..< next_seq_of s t k]"
      using assms(1) by (simp add: streams_ok_def)
    ultimately show ?thesis by simp
  next
    case False
    then have "stream_of s' t k = stream_of s t k" and "next_seq_of s' t k = next_seq_of s t k"
      using ap by (auto simp: appended_def stream_of_def next_seq_of_def)
    with assms(1) show ?thesis by (simp add: streams_ok_def)
  qed
  with assms show ?thesis by (auto simp: streams_ok_def appended_def)
qed

lemma enqueue_streams_ok:
  "streams_ok s \<Longrightarrow> enqueue rt aid org p cid s = Inr (u, s') \<Longrightarrow> streams_ok s'"
  by (drule enqueue_Inr) (auto intro: appended_streams_ok)

lemma keeps_streams_unchanged: "unchanged outbox_part m \<Longrightarrow> keeps streams_ok m"
  by (erule keeps_unchanged) (metis Pair_inject outbox_part_def streams_ok_cong)

lemma keeps_streams_enqueue [keeps_rules]: "keeps streams_ok (enqueue rt aid org p cid)"
  by (rule keepsI) (rule enqueue_streams_ok)

end
