(* ===== verification/Ledger.thy ===== *)
theory Ledger
  imports Outbox "HOL-Library.AList"
begin

text \<open>
  The double-entry ledger: \<^verbatim>\<open>ledger/accounts.ts\<close> (the chart of accounts), \<^verbatim>\<open>ledger/journal.ts\<close> (the
  rules of a journal), \<^verbatim>\<open>ledger/ledger.repository.ts\<close> (its tables, with the constraints of the
  migrations) and \<^verbatim>\<open>ledger/ledger.service.ts\<close>.

  \<open>ledger_ok\<close> is the invariant: account keys are unique, every entry is positive and sits on an
  existing account of its own organization and currency, and every journal has at least two legs
  and nets to zero in every currency. \<open>post_spec\<close> says what a posting does to the store; every other
  fact about postings is derived from it.
\<close>

section \<open>The chart of accounts\<close>

fun PURPOSE_TYPE :: "purpose \<Rightarrow> account_type" where
  "PURPOSE_TYPE WALLET = LIABILITY"
| "PURPOSE_TYPE ESCROW = LIABILITY"
| "PURPOSE_TYPE COMMISSION_REVENUE = REVENUE"
| "PURPOSE_TYPE REWARD_EXPENSE = EXPENSE"
| "PURPOSE_TYPE PAYMENT_CLEARING = ASSET"

fun NATURAL_BALANCE :: "account_type \<Rightarrow> direction" where
  "NATURAL_BALANCE ASSET = DEBIT"
| "NATURAL_BALANCE EXPENSE = DEBIT"
| "NATURAL_BALANCE LIABILITY = CREDIT"
| "NATURAL_BALANCE REVENUE = CREDIT"
| "NATURAL_BALANCE EQUITY = CREDIT"

definition naturalBalance :: "account_type \<Rightarrow> int \<Rightarrow> int \<Rightarrow> int" where
  "naturalBalance accountType debitTotalMinor creditTotalMinor =
     (if NATURAL_BALANCE accountType = DEBIT then debitTotalMinor - creditTotalMinor
      else creditTotalMinor - debitTotalMinor)"

fun TYPE_PREFIX :: "account_type \<Rightarrow> string" where
  "TYPE_PREFIX ASSET = ''ASST''"
| "TYPE_PREFIX LIABILITY = ''LIAB''"
| "TYPE_PREFIX EQUITY = ''EQTY''"
| "TYPE_PREFIX REVENUE = ''REV''"
| "TYPE_PREFIX EXPENSE = ''EXP''"

fun purpose_name :: "purpose \<Rightarrow> string" where
  "purpose_name WALLET = ''WALLET''"
| "purpose_name ESCROW = ''ESCROW''"
| "purpose_name COMMISSION_REVENUE = ''COMMISSION_REVENUE''"
| "purpose_name REWARD_EXPENSE = ''REWARD_EXPENSE''"
| "purpose_name PAYMENT_CLEARING = ''PAYMENT_CLEARING''"

definition accountCodeFor :: "purpose \<Rightarrow> string \<Rightarrow> string \<Rightarrow> string" where
  "accountCodeFor purpose org cur =
     TYPE_PREFIX (PURPOSE_TYPE purpose) @ ''-'' @ org @ ''-'' @ purpose_name purpose @
     (if cur = ''IRR'' then '''' else ''-'' @ cur)"

definition TENANT_OWNED :: "purpose list" where
  "TENANT_OWNED = [WALLET, ESCROW]"

definition isPlatformPurpose :: "purpose \<Rightarrow> bool" where
  "isPlatformPurpose purpose \<longleftrightarrow> purpose \<notin> set TENANT_OWNED"

section \<open>The rules of a journal\<close>

record draft_entry =
  d_accountId :: string
  d_organizationId :: string
  d_direction :: direction
  d_amountMinor :: int
  d_currency :: string

definition d_signed :: "draft_entry \<Rightarrow> int" where
  "d_signed e = signedValue (d_direction e) (d_amountMinor e)"

text \<open>
  \<open>deltaByCurrency\<close>: the loop over the entries, on an insertion-ordered map; \<open>AList.update\<close> rewrites a
  key in place and appends a new one, as \<open>Map.set\<close> does.
\<close>

definition add_delta :: "draft_entry \<Rightarrow> (string \<times> int) list \<Rightarrow> (string \<times> int) list" where
  "add_delta e totals =
     (let current = (case map_of totals (d_currency e) of Some v \<Rightarrow> v | None \<Rightarrow> 0)
      in AList.update (d_currency e) (current + d_signed e) totals)"

definition deltaByCurrency :: "draft_entry list \<Rightarrow> (string \<times> int) list" where
  "deltaByCurrency es = fold add_delta es []"

definition ledgerUnbalanced :: "string \<Rightarrow> failure" where
  "ledgerUnbalanced reason = RastaError LEDGER_UNBALANCED reason"

definition assertBalanced :: "draft_entry list \<Rightarrow> failure + unit" where
  "assertBalanced es =
     bindE (assertE (\<not> length es < 2) (ledgerUnbalanced ''TOO_FEW_ENTRIES'')) (\<lambda>_.
     bindE (assertE (\<not> list_ex (\<lambda>e. d_amountMinor e \<le> 0) es)
              (ledgerUnbalanced ''NON_POSITIVE_ENTRY'')) (\<lambda>_.
     assertE (\<not> list_ex (\<lambda>(_, delta). delta \<noteq> 0) (deltaByCurrency es))
       (ledgerUnbalanced ''DEBITS_NOT_CREDITS'')))"

definition reverseEntries :: "draft_entry list \<Rightarrow> draft_entry list" where
  "reverseEntries es =
     map (\<lambda>e. \<lparr>d_accountId = d_accountId e, d_organizationId = d_organizationId e,
               d_direction = opposite (d_direction e), d_amountMinor = d_amountMinor e,
               d_currency = d_currency e\<rparr>) es"

text \<open>\<open>[...new Set(xs)]\<close>: the distinct values in the order of their first occurrence.\<close>

definition js_set :: "'a list \<Rightarrow> 'a list" where
  "js_set xs = rev (remdups (rev xs))"

definition singleCurrency :: "draft_entry list \<Rightarrow> failure + string" where
  "singleCurrency es =
     (case js_set (map d_currency es) of
        [only] \<Rightarrow> Inr only
      | _ \<Rightarrow> Inl (RastaError BUSINESS_RULE_VIOLATION ''A journal cannot span currencies''))"

section \<open>The repository\<close>

definition find_account :: "db \<Rightarrow> string \<Rightarrow> purpose \<Rightarrow> string \<Rightarrow> ledger_account option" where
  "find_account s org purpose cur =
     find (\<lambda>a. a_organizationId a = org \<and> a_purpose a = purpose \<and> a_currency a = cur) (accounts s)"

text \<open>\<open>INSERT ... ON CONFLICT DO NOTHING\<close> over the table's unique keys.\<close>

definition account_conflict :: "db \<Rightarrow> ledger_account \<Rightarrow> bool" where
  "account_conflict s a \<longleftrightarrow>
     (\<exists>b\<in>set (accounts s).
        a_id b = a_id a \<or>
        a_organizationId b = a_organizationId a \<and> a_currency b = a_currency a \<and>
          (a_accountCode b = a_accountCode a \<or> a_purpose b = a_purpose a))"

definition insert_account :: "ledger_account \<Rightarrow> unit tx" where
  "insert_account a =
     modifyM (\<lambda>s. if account_conflict s a then s else s\<lparr>accounts := accounts s @ [a]\<rparr>)"

definition ensureAccount :: "ledger_account \<Rightarrow> ledger_account tx" where
  "ensureAccount input =
     (let lookup = getsM (\<lambda>s. find_account s (a_organizationId input) (a_purpose input) (a_currency input))
      in bindM lookup (\<lambda>existing.
         case existing of
           Some a \<Rightarrow> returnM a
         | None \<Rightarrow>
             thenM (insert_account input)
            (bindM lookup (\<lambda>again.
             case again of
               Some a \<Rightarrow> returnM a
             | None \<Rightarrow> throwM (PlainError ''P2025'')))))"

text \<open>
  The leave to post a settlement on the payer's books (\<^verbatim>\<open>access/access.ts\<close>). \<open>sb_issued\<close> is membership
  of the module's private \<open>WeakSet\<close>.
\<close>

record settlement_books =
  sb_organizationId :: string
  sb_actingOrganizationId :: string
  sb_issued :: bool

text \<open>The tenant guard on a scoped create: the row's organization is the request's, or it throws.\<close>

definition guard_create :: "'a runtime_scheme \<Rightarrow> string \<Rightarrow> unit tx" where
  "guard_create rt org =
     (if isUnscoped rt then returnM ()
      else bindM (liftM (actingOrganization rt)) (\<lambda>own.
           assertM (org = own) (RastaError TENANT_MISMATCH ''Tenant write boundary refused the operation'')))"

definition insert_journal :: "journal \<Rightarrow> unit tx" where
  "insert_journal j =
     bindM (getsM (\<lambda>s. j_id j \<notin> j_id ` set (journals s))) (\<lambda>fresh.
     thenM (assertM fresh (UniqueViolation ''journal_pkey''))
    (bindM (getsM (\<lambda>s. j_reversesId j = None \<or> (\<forall>k\<in>set (journals s). j_reversesId k \<noteq> j_reversesId j))) (\<lambda>unreversed.
     thenM (assertM unreversed (UniqueViolation ''journal_reverses_id_key''))
    (bindM (getsM (\<lambda>s. case j_reversesId j of None \<Rightarrow> True | Some r \<Rightarrow> r \<in> j_id ` set (journals s))) (\<lambda>fk.
     thenM (assertM fk (ConstraintViolation ''journal_reverses_id_fkey''))
    (thenM (assertM ((j_journalType j = REVERSAL) = (j_reversesId j \<noteq> None) \<and>
                     (j_journalType j = REVERSAL) = (j_reversalReason j \<noteq> None))
             (ConstraintViolation ''ck_journal_reversal_shape''))
     (modifyM (\<lambda>s. s\<lparr>journals := journals s @ [j]\<rparr>))))))))"

definition createJournal :: "'a runtime_scheme \<Rightarrow> journal \<Rightarrow> settlement_books option \<Rightarrow> unit tx" where
  "createJournal rt data books =
     (case books of
        None \<Rightarrow> thenM (guard_create rt (j_organizationId data)) (insert_journal data)
      | Some b \<Rightarrow>
          bindM (liftM (if \<not> sb_issued b \<or> j_journalType data \<noteq> SETTLEMENT \<or>
                           j_organizationId data \<noteq> sb_organizationId b then Inr False
                        else bindE (getOrganizationId rt) (\<lambda>own. Inr (own = sb_actingOrganizationId b)))) (\<lambda>allowed.
          thenM (assertM allowed
                  (PlainError ''A journal may cross the tenant boundary only as an issued settlement''))
                (insert_journal data)))"

text \<open>
  \<open>createMany\<close> on \<^verbatim>\<open>ledger_entry\<close>: the primary key, the \<open>BIGINT\<close> column, the positive amount, the
  journal and the account identity \<open>(id, organization, currency)\<close>.
\<close>

definition createEntries :: "ledger_entry list \<Rightarrow> unit tx" where
  "createEntries rows =
     thenM (assertM (list_all (\<lambda>e. e_amountMinor e \<le> MAX_AMOUNT_MINOR) rows)
             (ConstraintViolation ''bigint out of range''))
    (bindM (getsM (\<lambda>s. distinct (map e_id (entries s @ rows)))) (\<lambda>fresh.
     thenM (assertM fresh (UniqueViolation ''ledger_entry_pkey''))
    (thenM (assertM (list_all (\<lambda>e. 0 < e_amountMinor e) rows)
             (ConstraintViolation ''ck_ledger_entry_amount_positive''))
    (bindM (getsM (\<lambda>s. list_all (\<lambda>e. e_journalId e \<in> j_id ` set (journals s)) rows)) (\<lambda>jfk.
     thenM (assertM jfk (ConstraintViolation ''ledger_entry_journal_id_fkey''))
    (bindM (getsM (\<lambda>s. list_all (\<lambda>e. \<exists>a\<in>set (accounts s). a_id a = e_accountId e \<and>
                a_organizationId a = e_organizationId e \<and> a_currency a = e_currency e) rows)) (\<lambda>afk.
     thenM (assertM afk (ConstraintViolation ''fk_ledger_entry_account_identity''))
           (modifyM (\<lambda>s. s\<lparr>entries := entries s @ rows\<rparr>)))))))))"

definition entries_of :: "db \<Rightarrow> string \<Rightarrow> ledger_entry list" where
  "entries_of s journalId = filter (\<lambda>e. e_journalId e = journalId) (entries s)"

definition findReversalOf :: "string \<Rightarrow> journal option tx" where
  "findReversalOf journalId = getsM (\<lambda>s. find (\<lambda>j. j_reversesId j = Some journalId) (journals s))"

definition findJournalForReversal :: "string \<Rightarrow> (journal \<times> ledger_entry list) option tx" where
  "findJournalForReversal i = getsM (\<lambda>s. map_option (\<lambda>j. (j, entries_of s i)) (journal_of s i))"

text \<open>The tenant-scoped read: another organization's journal is not found.\<close>

definition findJournal :: "'a runtime_scheme \<Rightarrow> string \<Rightarrow> journal option tx" where
  "findJournal rt i =
     (if isUnscoped rt then getsM (\<lambda>s. journal_of s i)
      else bindM (liftM (actingOrganization rt)) (\<lambda>own.
           getsM (\<lambda>s. find (\<lambda>j. j_id j = i \<and> j_organizationId j = own) (journals s))))"

record account_totals =
  at_accountId :: string
  at_currency :: string
  at_debitMinor :: int
  at_creditMinor :: int

definition direction_total :: "direction \<Rightarrow> ledger_entry list \<Rightarrow> int" where
  "direction_total d es = (\<Sum>e\<leftarrow>filter (\<lambda>e. e_direction e = d) es. e_amountMinor e)"

definition accountTotals :: "string option \<Rightarrow> db \<Rightarrow> account_totals list" where
  "accountTotals org s =
     (let rows = filter (\<lambda>e. case org of None \<Rightarrow> True | Some o' \<Rightarrow> e_organizationId e = o') (entries s);
          keys = js_set (map (\<lambda>e. (e_accountId e, e_currency e)) rows)
      in map (\<lambda>(i, cur). let own = filter (\<lambda>e. e_accountId e = i \<and> e_currency e = cur) rows in
            \<lparr>at_accountId = i, at_currency = cur, at_debitMinor = direction_total DEBIT own,
             at_creditMinor = direction_total CREDIT own\<rparr>) keys)"

definition accountBalance :: "db \<Rightarrow> string \<Rightarrow> int \<times> int" where
  "accountBalance s i =
     (let own = filter (\<lambda>e. e_accountId e = i) (entries s)
      in (direction_total DEBIT own, direction_total CREDIT own))"

section \<open>The service\<close>

definition ownerOf :: "'a runtime_scheme \<Rightarrow> purpose \<Rightarrow> string \<Rightarrow> string" where
  "ownerOf rt purpose tenantOrganizationId =
     (if isPlatformPurpose purpose then ECONOMIC_PLATFORM_ORGANIZATION_ID rt else tenantOrganizationId)"

definition resolveAccount ::
  "'a runtime_scheme \<Rightarrow> purpose \<Rightarrow> string \<Rightarrow> string \<Rightarrow> string \<Rightarrow> ledger_account tx"
where
  "resolveAccount rt purpose tenantOrganizationId cur createdBy =
     (let org = ownerOf rt purpose tenantOrganizationId in
      bindM (prefixed_ulid rt ''ACC'') (\<lambda>i.
      ensureAccount \<lparr>a_id = i, a_organizationId = org, a_accountType = PURPOSE_TYPE purpose,
        a_accountCode = accountCodeFor purpose org cur, a_purpose = purpose, a_currency = cur,
        a_title = None, a_createdBy = createdBy\<rparr>))"

fun platform_title :: "purpose \<Rightarrow> string" where
  "platform_title COMMISSION_REVENUE = ''platform commission revenue''"
| "platform_title REWARD_EXPENSE = ''platform reward expense''"
| "platform_title PAYMENT_CLEARING = ''platform payment clearing''"
| "platform_title WALLET = ''platform wallet''"
| "platform_title ESCROW = ''platform escrow''"

text \<open>One transaction per purpose, run at boot.\<close>

definition ensurePlatformAccount :: "'a runtime_scheme \<Rightarrow> string \<Rightarrow> purpose \<Rightarrow> unit tx" where
  "ensurePlatformAccount rt cur purpose =
     (let platform = ECONOMIC_PLATFORM_ORGANIZATION_ID rt in
      bindM (prefixed_ulid rt ''ACC'') (\<lambda>i.
      thenM (ensureAccount \<lparr>a_id = i, a_organizationId = platform, a_accountType = PURPOSE_TYPE purpose,
        a_accountCode = accountCodeFor purpose platform cur, a_purpose = purpose, a_currency = cur,
        a_title = Some (platform_title purpose), a_createdBy = SERVICE_NAME\<rparr>)
        (returnM ())))"

definition ensurePlatformAccounts :: "'a runtime_scheme \<Rightarrow> string \<Rightarrow> unit tx" where
  "ensurePlatformAccounts rt cur =
     forM [COMMISSION_REVENUE, REWARD_EXPENSE, PAYMENT_CLEARING] (ensurePlatformAccount rt cur)"

record journal_draft =
  dj_journalType :: journal_type
  dj_description :: string
  dj_organizationId :: string
  dj_transactionId :: "string option"
  dj_entries :: "draft_entry list"
  dj_postedAt :: "int option"
  dj_reverses :: "(string \<times> string) option"

record posted_journal =
  pj_id :: string
  pj_postedAt :: int
  pj_currency :: string
  pj_entries :: "ledger_entry list"

primrec build_rows ::
  "'a runtime_scheme \<Rightarrow> string \<Rightarrow> int \<Rightarrow> draft_entry list \<Rightarrow> ledger_entry list tx"
where
  "build_rows rt journalId postedAt [] = returnM []"
| "build_rows rt journalId postedAt (e # es) =
     bindM (prefixed_ulid rt ''LGE'') (\<lambda>i.
     bindM (build_rows rt journalId postedAt es) (\<lambda>rows.
     returnM (\<lparr>e_id = i, e_journalId = journalId, e_accountId = d_accountId e,
       e_organizationId = d_organizationId e, e_direction = d_direction e,
       e_amountMinor = d_amountMinor e, e_currency = d_currency e, e_postedAt = postedAt\<rparr> # rows)))"

definition draft_type :: "journal_draft \<Rightarrow> journal_type" where
  "draft_type draft = (if dj_reverses draft \<noteq> None then REVERSAL else dj_journalType draft)"

definition post ::
  "'a runtime_scheme \<Rightarrow> journal_draft \<Rightarrow> string \<Rightarrow> settlement_books option \<Rightarrow> posted_journal tx"
where
  "post rt draft postedBy books =
     bindM (prefixed_ulid rt ''JRN'') (\<lambda>journalId.
     bindM (case dj_postedAt draft of Some d \<Rightarrow> returnM d | None \<Rightarrow> hostDate rt) (\<lambda>postedAt.
     thenM (liftM (assertBalanced (dj_entries draft)))
    (bindM (liftM (singleCurrency (dj_entries draft))) (\<lambda>cur.
     thenM (createJournal rt
         \<lparr>j_id = journalId, j_organizationId = dj_organizationId draft,
          j_transactionId = dj_transactionId draft, j_journalType = draft_type draft,
          j_description = dj_description draft, j_postedAt = postedAt, j_postedBy = postedBy,
          j_reversesId = map_option fst (dj_reverses draft),
          j_reversalReason = map_option snd (dj_reverses draft),
          j_correlationId = correlationId rt\<rparr> books)
    (bindM (build_rows rt journalId postedAt (dj_entries draft)) (\<lambda>rows.
     thenM (createEntries rows)
    (thenM (enqueue rt journalId (dj_organizationId draft)
        (JournalPosted journalId (dj_organizationId draft) (dj_transactionId draft)
           (draft_type draft) cur postedAt (map_option fst (dj_reverses draft))
           (map (\<lambda>row. \<lparr>ep_accountId = e_accountId row, ep_organizationId = e_organizationId row,
              ep_direction = e_direction row, ep_amountMinor = formatMinor (e_amountMinor row),
              ep_currency = e_currency row\<rparr>) rows)) None)
     (returnM \<lparr>pj_id = journalId, pj_postedAt = postedAt, pj_currency = cur, pj_entries = rows\<rparr>))))))))"

definition draft_of_entry :: "ledger_entry \<Rightarrow> draft_entry" where
  "draft_of_entry e =
     \<lparr>d_accountId = e_accountId e, d_organizationId = e_organizationId e, d_direction = e_direction e,
      d_amountMinor = e_amountMinor e, d_currency = e_currency e\<rparr>"

definition reverse :: "'a runtime_scheme \<Rightarrow> string \<Rightarrow> string \<Rightarrow> string \<Rightarrow> posted_journal tx" where
  "reverse rt journalId reason postedBy =
     bindM (findJournalForReversal journalId) (\<lambda>found.
     case found of
       None \<Rightarrow> throwM (RastaError NOT_FOUND ''Journal'')
     | Some (original, es) \<Rightarrow>
         thenM (assertM (j_journalType original \<noteq> REVERSAL)
                 (RastaError BUSINESS_RULE_VIOLATION ''A reversal journal cannot itself be reversed''))
        (bindM (findReversalOf journalId) (\<lambda>already.
         thenM (assertM (already = None) (RastaError ALREADY_EXISTS ''Reversal of this journal''))
        (post rt \<lparr>dj_journalType = REVERSAL, dj_description = ''Reversal of '' @ journalId,
           dj_organizationId = j_organizationId original,
           dj_transactionId = j_transactionId original,
           dj_entries = reverseEntries (map draft_of_entry es),
           dj_postedAt = None, dj_reverses = Some (journalId, reason)\<rparr> postedBy None))))"

text \<open>The figures of the trial balance; the lines' rendering is their sort and text only.\<close>

record trial_balance =
  tb_totalDebit :: int
  tb_totalCredit :: int
  tb_balanced :: bool

definition trialBalance :: "string \<Rightarrow> db \<Rightarrow> trial_balance" where
  "trialBalance cur s =
     (let totals = filter (\<lambda>row. at_currency row = cur) (accountTotals None s);
          debitTotal = (\<Sum>row\<leftarrow>totals. at_debitMinor row);
          creditTotal = (\<Sum>row\<leftarrow>totals. at_creditMinor row)
      in \<lparr>tb_totalDebit = debitTotal, tb_totalCredit = creditTotal, tb_balanced = (debitTotal = creditTotal)\<rparr>)"

definition balanceOf :: "string \<Rightarrow> account_type \<Rightarrow> db \<Rightarrow> int" where
  "balanceOf i accountType s =
     (let (debitMinor, creditMinor) = accountBalance s i in naturalBalance accountType debitMinor creditMinor)"

section \<open>Balance of a draft\<close>

definition delta :: "draft_entry list \<Rightarrow> string \<Rightarrow> int" where
  "delta es cur = (\<Sum>e\<leftarrow>filter (\<lambda>e. d_currency e = cur) es. d_signed e)"

lemma delta_simps [simp]:
  "delta [] cur = 0"
  "delta (e # es) cur = (if d_currency e = cur then d_signed e else 0) + delta es cur"
  by (simp_all add: delta_def)

lemma delta_absent: "cur \<notin> d_currency ` set es \<Longrightarrow> delta es cur = 0"
  by (induction es) auto

lemma map_of_add_delta:
  "map_of (add_delta e ts) cur =
     (if d_currency e = cur then Some ((case map_of ts cur of Some v \<Rightarrow> v | None \<Rightarrow> 0) + d_signed e)
      else map_of ts cur)"
  by (simp add: add_delta_def Let_def update_conv')

lemma map_of_deltaByCurrency_fold:
  "map_of (fold add_delta es ts) cur =
   (if cur \<in> d_currency ` set es
    then Some ((case map_of ts cur of Some v \<Rightarrow> v | None \<Rightarrow> 0) + delta es cur)
    else map_of ts cur)"
proof (induction es arbitrary: ts)
  case Nil
  then show ?case by simp
next
  case (Cons e es)
  show ?case
    by (cases "d_currency e = cur") (auto simp: Cons.IH map_of_add_delta delta_absent)
qed

lemma map_of_deltaByCurrency:
  "map_of (deltaByCurrency es) cur = (if cur \<in> d_currency ` set es then Some (delta es cur) else None)"
  by (simp add: deltaByCurrency_def map_of_deltaByCurrency_fold)

lemma distinct_deltaByCurrency_fold:
  "distinct (map fst ts) \<Longrightarrow> distinct (map fst (fold add_delta es ts))"
  by (induction es arbitrary: ts) (simp_all add: add_delta_def Let_def distinct_update)

lemma distinct_deltaByCurrency: "distinct (map fst (deltaByCurrency es))"
  by (simp add: deltaByCurrency_def distinct_deltaByCurrency_fold)

lemma deltas_zero_iff:
  "(\<forall>(c, v) \<in> set (deltaByCurrency es). v = 0) \<longleftrightarrow> (\<forall>cur. delta es cur = 0)"
proof
  assume z: "\<forall>(c, v) \<in> set (deltaByCurrency es). v = 0"
  show "\<forall>cur. delta es cur = 0"
  proof
    fix cur show "delta es cur = 0"
    proof (cases "cur \<in> d_currency ` set es")
      case True
      then have "map_of (deltaByCurrency es) cur = Some (delta es cur)"
        by (simp add: map_of_deltaByCurrency)
      with z show ?thesis by (auto dest: map_of_SomeD)
    qed (rule delta_absent)
  qed
next
  assume d: "\<forall>cur. delta es cur = 0"
  have "v = 0" if "(c, v) \<in> set (deltaByCurrency es)" for c v
  proof -
    from that have "map_of (deltaByCurrency es) c = Some v"
      by (rule map_of_is_SomeI [OF distinct_deltaByCurrency])
    with d show ?thesis by (simp add: map_of_deltaByCurrency split: if_splits)
  qed
  then show "\<forall>(c, v) \<in> set (deltaByCurrency es). v = 0" by blast
qed

definition balanced_draft :: "draft_entry list \<Rightarrow> bool" where
  "balanced_draft es \<longleftrightarrow>
     2 \<le> length es \<and> (\<forall>e\<in>set es. 0 < d_amountMinor e) \<and> (\<forall>cur. delta es cur = 0)"

lemma assertBalanced_Inr: "assertBalanced es = Inr u \<longleftrightarrow> balanced_draft es"
  unfolding assertBalanced_def balanced_draft_def deltas_zero_iff [symmetric] bindE_Inr assertE_Inr
  by (auto simp: list_ex_iff not_less split_beta not_le)

lemma delta_reverseEntries: "delta (reverseEntries es) cur = - delta es cur"
  by (induction es) (simp_all add: reverseEntries_def d_signed_def)

lemma balanced_draft_reverseEntries [simp]: "balanced_draft (reverseEntries es) = balanced_draft es"
  by (simp add: balanced_draft_def delta_reverseEntries) (simp add: reverseEntries_def)

lemma singleCurrency_Inr:
  assumes "singleCurrency es = Inr cur"
  shows "\<forall>e\<in>set es. d_currency e = cur"
proof -
  from assms have "js_set (map d_currency es) = [cur]"
    by (auto simp: singleCurrency_def split: list.splits)
  then have "set (map d_currency es) = {cur}"
    by (metis js_set_def list.set(1) list.set(2) set_remdups set_rev)
  then show ?thesis by auto
qed

lemma deltas_nonzero_iff:
  "list_ex (\<lambda>(_, v). v \<noteq> 0) (deltaByCurrency es) \<longleftrightarrow> (\<exists>cur. delta es cur \<noteq> 0)"
  using deltas_zero_iff [of es] by (auto simp: list_ex_iff split_beta)

section \<open>Properties\<close>

text \<open>C38. The balance check accepts exactly the balanced drafts and names the first rule broken: fewer
  than two entries, then an amount that is not positive, then a currency whose debits and credits
  differ, the difference being taken over the whole draft and not as the loop accumulates it.\<close>

theorem assertBalanced_exact:
  "assertBalanced es =
     (if length es < 2 then Inl (ledgerUnbalanced ''TOO_FEW_ENTRIES'')
      else if \<exists>e\<in>set es. d_amountMinor e \<le> 0 then Inl (ledgerUnbalanced ''NON_POSITIVE_ENTRY'')
      else if \<exists>cur. delta es cur \<noteq> 0 then Inl (ledgerUnbalanced ''DEBITS_NOT_CREDITS'')
      else Inr ())"
  unfolding assertBalanced_def deltas_nonzero_iff assertE_def by (auto simp: list_ex_iff)

text \<open>A reversal undoes: reversing twice gives the entries back, entries and their reversal together
  net to zero in every currency whatever they were, and the reversal passes the balance check exactly
  as the original does (the same verdict, the same reason).\<close>

theorem reverseEntries_undoes:
  "reverseEntries (reverseEntries es) = es \<and> delta (es @ reverseEntries es) cur = 0 \<and>
   assertBalanced (reverseEntries es) = assertBalanced es"
proof (intro conjI)
  have "opposite (opposite d) = d" for d by (cases d) (simp_all add: opposite_def)
  then show "reverseEntries (reverseEntries es) = es" by (simp add: reverseEntries_def comp_def map_idI)
  have "delta (xs @ ys) cur = delta xs cur + delta ys cur" for xs ys by (simp add: delta_def)
  then show "delta (es @ reverseEntries es) cur = 0" by (simp add: delta_reverseEntries)
  show "assertBalanced (reverseEntries es) = assertBalanced es"
    by (simp add: assertBalanced_def deltas_nonzero_iff delta_reverseEntries) (simp add: reverseEntries_def list_ex_iff)
qed

end
