(* ===== verification/Ledger_Laws.thy ===== *)
theory Ledger_Laws
  imports Ledger
begin

text \<open>
  What the ledger promises its callers: the accounts it resolves, the rows and the one event a
  posting writes, the balances it moves, and the invariant \<open>ledger_ok\<close> that every operation keeps.
\<close>

section \<open>The invariant\<close>

definition account_key :: "ledger_account \<Rightarrow> string \<times> purpose \<times> string" where
  "account_key a = (a_organizationId a, a_purpose a, a_currency a)"

definition accounts_ok :: "db \<Rightarrow> bool" where
  "accounts_ok s \<longleftrightarrow>
     distinct (map a_id (accounts s)) \<and> distinct (map account_key (accounts s)) \<and>
     (\<forall>a\<in>set (accounts s). a_accountType a = PURPOSE_TYPE (a_purpose a))"

definition e_signed :: "ledger_entry \<Rightarrow> int" where
  "e_signed e = signedValue (e_direction e) (e_amountMinor e)"

definition journal_delta :: "db \<Rightarrow> string \<Rightarrow> string \<Rightarrow> int" where
  "journal_delta s i cur = (\<Sum>e\<leftarrow>filter (\<lambda>e. e_currency e = cur) (entries_of s i). e_signed e)"

text \<open>
  What \<open>trg_journal_has_entries\<close> and \<open>trg_journal_balanced\<close> check at commit: two legs, and no
  currency of the journal with a difference.
\<close>

definition assert_journal_balanced :: "db \<Rightarrow> string \<Rightarrow> bool" where
  "assert_journal_balanced s i \<longleftrightarrow>
     2 \<le> length (entries_of s i) \<and>
     list_all (\<lambda>e. journal_delta s i (e_currency e) = 0) (entries_of s i)"

definition commit_ok :: "db \<Rightarrow> bool" where
  "commit_ok s \<longleftrightarrow> list_all (\<lambda>j. assert_journal_balanced s (j_id j)) (journals s)"

text \<open>\<open>PrismaService.transaction\<close>: the body, then the deferred triggers at commit.\<close>

definition transaction :: "'a tx \<Rightarrow> 'a tx" where
  "transaction body =
     bindM body (\<lambda>x.
     bindM (getsM commit_ok) (\<lambda>ok.
     thenM (assertM ok (ConstraintViolation ''trg_journal_balanced'')) (returnM x)))"

definition on_account :: "db \<Rightarrow> ledger_entry \<Rightarrow> bool" where
  "on_account s e \<longleftrightarrow>
     (\<exists>a\<in>set (accounts s). a_id a = e_accountId e \<and> a_organizationId a = e_organizationId e \<and>
        a_currency a = e_currency e)"

definition entries_ok :: "db \<Rightarrow> bool" where
  "entries_ok s \<longleftrightarrow>
     distinct (map j_id (journals s)) \<and> distinct (map e_id (entries s)) \<and>
     (\<forall>e\<in>set (entries s). 0 < e_amountMinor e \<and> e_amountMinor e \<le> MAX_AMOUNT_MINOR \<and>
        e_journalId e \<in> j_id ` set (journals s) \<and> on_account s e)"

definition ledger_ok :: "db \<Rightarrow> bool" where
  "ledger_ok s \<longleftrightarrow> accounts_ok s \<and> entries_ok s \<and> commit_ok s"

lemma ledger_ok_cong: "ledger_part s' = ledger_part s \<Longrightarrow> ledger_ok s' = ledger_ok s"
  by (simp add: ledger_part_def ledger_ok_def accounts_ok_def entries_ok_def commit_ok_def
      assert_journal_balanced_def journal_delta_def entries_of_def on_account_def)

lemma keeps_ledger_unchanged: "unchanged ledger_part m \<Longrightarrow> keeps ledger_ok m"
  by (erule keeps_unchanged) (metis ledger_ok_cong)

lemma ledger_ok_empty: "ledger_ok empty_db"
  by (simp add: ledger_ok_def accounts_ok_def entries_ok_def commit_ok_def empty_db_def)

text \<open>In a closed journal every currency nets to zero, those without an entry included.\<close>

lemma journal_closed_delta:
  assumes "assert_journal_balanced s i"
  shows "journal_delta s i cur = 0"
proof (cases "\<exists>e\<in>set (entries_of s i). e_currency e = cur")
  case True
  with assms show ?thesis by (auto simp: assert_journal_balanced_def list_all_iff)
next
  case False
  then have "filter (\<lambda>e. e_currency e = cur) (entries_of s i) = []" by (simp add: filter_empty_conv)
  then show ?thesis by (simp add: journal_delta_def)
qed

section \<open>Accounts\<close>

text \<open>A store that differs only in accounts appended at the end and in reads of outside sources.\<close>

definition account_step :: "db \<Rightarrow> db \<Rightarrow> bool" where
  "account_step s s' \<longleftrightarrow>
     (\<exists>new. accounts s' = accounts s @ new) \<and> journals s' = journals s \<and> entries s' = entries s"

lemma account_step_refl [simp]: "account_step s s"
  by (simp add: account_step_def)

lemma account_step_trans [trans]: "account_step s s1 \<Longrightarrow> account_step s1 s2 \<Longrightarrow> account_step s s2"
  by (auto simp: account_step_def)

lemma account_step_mem: "account_step s s' \<Longrightarrow> a \<in> set (accounts s) \<Longrightarrow> a \<in> set (accounts s')"
  by (auto simp: account_step_def)

lemma insert_account_Inr:
  assumes "insert_account a s = Inr (u, s')" and "accounts_ok s"
    and "a_accountType a = PURPOSE_TYPE (a_purpose a)"
  shows "accounts_ok s' \<and> account_step s s'"
proof (cases "account_conflict s a")
  case True
  with assms show ?thesis by (auto simp: insert_account_def)
next
  case False
  then have "a_id a \<notin> a_id ` set (accounts s)" and "account_key a \<notin> account_key ` set (accounts s)"
    by (auto simp: account_conflict_def account_key_def)
  with False assms show ?thesis
    by (auto simp: insert_account_def accounts_ok_def account_step_def)
qed

lemma find_account_SomeD:
  "find_account s org p cur = Some a \<Longrightarrow> a \<in> set (accounts s) \<and> account_key a = (org, p, cur)"
  by (auto simp: find_account_def account_key_def dest: find_SomeD)

lemma ensureAccount_Inr:
  assumes "ensureAccount a s = Inr (r, s')" and "accounts_ok s"
    and "a_accountType a = PURPOSE_TYPE (a_purpose a)"
  shows "accounts_ok s' \<and> account_step s s' \<and> r \<in> set (accounts s') \<and> account_key r = account_key a"
proof (cases "find_account s (a_organizationId a) (a_purpose a) (a_currency a)")
  case (Some b)
  with assms show ?thesis
    by (auto simp: ensureAccount_def Let_def action_Inr account_key_def dest: find_account_SomeD)
next
  case None
  with assms(1) obtain u s1 where ins: "insert_account a s = Inr (u, s1)" and s1: "s' = s1"
    and found: "find_account s1 (a_organizationId a) (a_purpose a) (a_currency a) = Some r"
    by (auto simp: ensureAccount_def Let_def action_Inr split: option.splits)
  from insert_account_Inr [OF ins assms(2,3)] find_account_SomeD [OF found] s1
  show ?thesis by (auto simp: account_key_def)
qed

lemma accounts_ok_ticks [simp]: "accounts_ok (s\<lparr>ticks := n\<rparr>) = accounts_ok s"
  by (simp add: accounts_ok_def)

lemma account_step_ticks [simp]: "account_step (s\<lparr>ticks := n\<rparr>) s' = account_step s s'"
  by (simp add: account_step_def)

lemma resolveAccount_Inr:
  assumes "resolveAccount rt p org cur by' s = Inr (r, s')" and "accounts_ok s"
  shows "accounts_ok s' \<and> account_step s s' \<and> r \<in> set (accounts s') \<and>
    account_key r = (ownerOf rt p org, p, cur)"
  using assms
  by (auto simp: resolveAccount_def Let_def action_Inr source_Inr account_key_def
      dest!: ensureAccount_Inr)

lemma ledger_ok_account_step:
  assumes "ledger_ok s" and "account_step s s'" and "accounts_ok s'"
  shows "ledger_ok s'"
proof -
  from assms(2) have eq: "journals s' = journals s" "entries s' = entries s"
    by (simp_all add: account_step_def)
  moreover have "on_account s e \<Longrightarrow> on_account s' e" for e
    using account_step_mem [OF assms(2)] by (auto simp: on_account_def)
  ultimately show ?thesis using assms(1,3)
    by (simp add: ledger_ok_def entries_ok_def commit_ok_def assert_journal_balanced_def
        journal_delta_def entries_of_def)
qed

lemma keeps_ledger_resolveAccount [keeps_rules]: "keeps ledger_ok (resolveAccount rt p org cur by')"
  by (rule keepsI) (metis ledger_ok_account_step ledger_ok_def resolveAccount_Inr)

text \<open>What resolving an account leaves alone.\<close>

lemma unchanged_ensureAccount [unchanged_rules]:
  "(\<And>s xs. f (s\<lparr>accounts := xs\<rparr>) = f s) \<Longrightarrow> unchanged f (ensureAccount a)"
  unfolding ensureAccount_def Let_def insert_account_def
  by (intro unchanged_rules) simp

definition accountless :: "(db \<Rightarrow> 'p) \<Rightarrow> bool" where
  "accountless f \<longleftrightarrow> tickless f \<and> (\<forall>s xs. f (s\<lparr>accounts := xs\<rparr>) = f s)"

lemma accountless_parts [simp]:
  "accountless wallet_part" "accountless txn_part" "accountless charge_part"
  "accountless outbox_part" "accountless fixed_part" "accountless rules"
  by (simp_all add: accountless_def) (simp_all add: part_defs)

lemma accountless_pair [simp]: "accountless f \<Longrightarrow> accountless g \<Longrightarrow> accountless (\<lambda>s. (f s, g s))"
  by (simp add: accountless_def)

lemma unchanged_resolveAccount [unchanged_rules]:
  "accountless f \<Longrightarrow> unchanged f (resolveAccount rt p org cur by')"
  unfolding resolveAccount_def Let_def accountless_def by (intro unchanged_rules) simp_all

section \<open>Postings\<close>

text \<open>The journal row of a posting.\<close>

definition journal_of_draft :: "journal_draft \<Rightarrow> string \<Rightarrow> int \<Rightarrow> string \<Rightarrow> string \<Rightarrow> journal" where
  "journal_of_draft draft i at by' corr =
     \<lparr>j_id = i, j_organizationId = dj_organizationId draft, j_transactionId = dj_transactionId draft,
      j_journalType = draft_type draft, j_description = dj_description draft, j_postedAt = at,
      j_postedBy = by', j_reversesId = map_option fst (dj_reverses draft),
      j_reversalReason = map_option snd (dj_reverses draft), j_correlationId = corr\<rparr>"

text \<open>Everything a posting does to the ledger's tables.\<close>

definition post_spec :: "journal_draft \<Rightarrow> db \<Rightarrow> posted_journal \<Rightarrow> db \<Rightarrow> bool" where
  "post_spec draft s pj s' \<longleftrightarrow>
     balanced_draft (dj_entries draft) \<and>
     map draft_of_entry (pj_entries pj) = dj_entries draft \<and>
     (\<forall>r\<in>set (pj_entries pj). e_journalId r = pj_id pj \<and> e_currency r = pj_currency pj \<and>
        0 < e_amountMinor r \<and> e_amountMinor r \<le> MAX_AMOUNT_MINOR \<and> on_account s r) \<and>
     pj_id pj \<notin> j_id ` set (journals s) \<and>
     (\<exists>by' corr. journals s' = journals s @ [journal_of_draft draft (pj_id pj) (pj_postedAt pj) by' corr]) \<and>
     entries s' = entries s @ pj_entries pj \<and> distinct (map e_id (entries s')) \<and>
     accounts s' = accounts s"

lemma build_rows_Inr:
  "build_rows rt jid at es s = Inr (rows, s') \<Longrightarrow>
     map draft_of_entry rows = es \<and> (\<forall>r\<in>set rows. e_journalId r = jid) \<and> (\<exists>n. s' = s\<lparr>ticks := n\<rparr>)"
proof (induction es arbitrary: s rows s')
  case Nil
  then show ?case by (auto intro: exI [of _ "ticks s"])
next
  case (Cons e es)
  then show ?case by (fastforce simp: action_Inr source_Inr draft_of_entry_def)
qed

lemma insert_journal_Inr:
  "insert_journal j s = Inr (u, s') \<Longrightarrow>
     j_id j \<notin> j_id ` set (journals s) \<and> s' = s\<lparr>journals := journals s @ [j]\<rparr> \<and>
     (j_reversesId j \<noteq> None \<longrightarrow> (\<forall>k\<in>set (journals s). j_reversesId k \<noteq> j_reversesId j))"
  by (auto simp: insert_journal_def action_Inr)

lemma createJournal_Inr:
  assumes "createJournal rt j books s = Inr (u, s')"
  shows "j_id j \<notin> j_id ` set (journals s) \<and> s' = s\<lparr>journals := journals s @ [j]\<rparr> \<and>
     (books = None \<longrightarrow> isUnscoped rt \<or> getOrganizationId rt = Inr (j_organizationId j)) \<and>
     (\<forall>b. books = Some b \<longrightarrow> sb_issued b \<and> j_journalType j = SETTLEMENT \<and>
        j_organizationId j = sb_organizationId b \<and> getOrganizationId rt = Inr (sb_actingOrganizationId b))"
proof (cases books)
  case None
  with assms show ?thesis
    by (auto simp: createJournal_def guard_create_def action_Inr dest!: insert_journal_Inr split: if_splits)
next
  case (Some b)
  with assms show ?thesis
    by (auto simp: createJournal_def action_Inr bindE_Inr dest!: insert_journal_Inr split: if_splits)
qed

lemma createEntries_Inr:
  assumes "createEntries rows s = Inr (u, s')"
  shows "s' = s\<lparr>entries := entries s @ rows\<rparr> \<and> distinct (map e_id (entries s @ rows)) \<and>
    (\<forall>r\<in>set rows. 0 < e_amountMinor r \<and> e_amountMinor r \<le> MAX_AMOUNT_MINOR \<and> on_account s r)"
  using assms unfolding createEntries_def action_Inr getsM_run on_account_def
  by (auto simp: list_all_iff)

lemma post_Inr:
  assumes "post rt draft by' books s = Inr (pj, s')"
  shows "post_spec draft s pj s'"
proof -
  from assms obtain n1 n2 cur rows s1 s2 s3 u1 u2 u3 where
    bal: "balanced_draft (dj_entries draft)"
    and cur: "singleCurrency (dj_entries draft) = Inr cur"
    and cj: "createJournal rt (journal_of_draft draft (pj_id pj) (pj_postedAt pj) by' (correlationId rt))
               books (s\<lparr>ticks := n1\<rparr>) = Inr (u1, s1)"
    and br: "build_rows rt (pj_id pj) (pj_postedAt pj) (dj_entries draft) s1 = Inr (rows, s2)"
    and ce: "createEntries rows s2 = Inr (u2, s3)"
    and en: "enqueue rt (pj_id pj) (dj_organizationId draft)
        (JournalPosted (pj_id pj) (dj_organizationId draft) (dj_transactionId draft)
           (draft_type draft) cur (pj_postedAt pj) (map_option fst (dj_reverses draft))
           (map (\<lambda>row. \<lparr>ep_accountId = e_accountId row, ep_organizationId = e_organizationId row,
              ep_direction = e_direction row, ep_amountMinor = formatMinor (e_amountMinor row),
              ep_currency = e_currency row\<rparr>) rows)) None s3 = Inr (u3, s')"
    and pj: "pj_entries pj = rows" "pj_currency pj = cur"
    by (auto simp: post_def action_Inr source_Inr assertBalanced_Inr journal_of_draft_def
        split: option.splits)
  let ?j = "journal_of_draft draft (pj_id pj) (pj_postedAt pj) by' (correlationId rt)"
  have j: "pj_id pj \<notin> j_id ` set (journals s)" "s1 = s\<lparr>ticks := n1, journals := journals s @ [?j]\<rparr>"
    using createJournal_Inr [OF cj] by (simp_all add: journal_of_draft_def)
  obtain n where b: "map draft_of_entry rows = dj_entries draft"
      "\<forall>r\<in>set rows. e_journalId r = pj_id pj" "s2 = s1\<lparr>ticks := n\<rparr>"
    using build_rows_Inr [OF br] by blast
  have e: "s3 = s2\<lparr>entries := entries s2 @ rows\<rparr>" "distinct (map e_id (entries s2 @ rows))"
      "\<forall>r\<in>set rows. 0 < e_amountMinor r \<and> e_amountMinor r \<le> MAX_AMOUNT_MINOR \<and> on_account s r"
    using createEntries_Inr [OF ce] b(3) j(2) by (simp_all add: on_account_def)
  have s': "journals s' = journals s @ [?j]" "entries s' = entries s @ rows" "accounts s' = accounts s"
    using same_dataD [OF enqueue_same_data [OF en]] e(1) b(3) j(2) by simp_all
  have c: "\<forall>r\<in>set rows. e_currency r = cur"
  proof
    fix r assume "r \<in> set rows"
    then have "draft_of_entry r \<in> set (dj_entries draft)" using b(1) by (metis image_eqI set_map)
    then show "e_currency r = cur" using singleCurrency_Inr [OF cur] by (auto simp: draft_of_entry_def)
  qed
  from e(2) b(3) j(2) s'(2) have d: "distinct (map e_id (entries s'))" by simp
  show ?thesis
    unfolding post_spec_def pj using bal b(1,2) c e(3) j(1) s' d by blast
qed

lemma post_specD:
  assumes "post_spec draft s pj s'"
  shows "balanced_draft (dj_entries draft)" "map draft_of_entry (pj_entries pj) = dj_entries draft"
    "\<forall>r\<in>set (pj_entries pj). e_journalId r = pj_id pj" "pj_id pj \<notin> j_id ` set (journals s)"
    "entries s' = entries s @ pj_entries pj" "accounts s' = accounts s"
    "\<exists>j. journals s' = journals s @ [j] \<and> j_id j = pj_id pj"
  using assms by (auto simp: post_spec_def journal_of_draft_def)

lemma post_spec_entries_of:
  assumes "ledger_ok s" and "post_spec draft s pj s'"
  shows "entries_of s' i = (if i = pj_id pj then pj_entries pj else entries_of s i)"
proof -
  have "\<forall>e\<in>set (entries s). e_journalId e \<in> j_id ` set (journals s)"
    using assms(1) by (simp add: ledger_ok_def entries_ok_def)
  with post_specD(4) [OF assms(2)] have "\<forall>e\<in>set (entries s). e_journalId e \<noteq> pj_id pj" by force
  then have "entries_of s (pj_id pj) = []" by (simp add: entries_of_def filter_empty_conv)
  moreover have "filter (\<lambda>e. e_journalId e = i) (pj_entries pj) = (if i = pj_id pj then pj_entries pj else [])"
    using assms(2) by (auto simp: post_spec_def filter_empty_conv filter_id_conv)
  ultimately show ?thesis using assms(2) by (auto simp: entries_of_def post_spec_def)
qed

lemma delta_draft_of_entry:
  "delta (map draft_of_entry rows) cur = (\<Sum>e\<leftarrow>filter (\<lambda>e. e_currency e = cur) rows. e_signed e)"
  by (induction rows) (simp_all add: draft_of_entry_def d_signed_def e_signed_def)

lemma post_spec_closed:
  assumes "ledger_ok s" and "post_spec draft s pj s'"
  shows "assert_journal_balanced s' (pj_id pj)"
proof -
  have "journal_delta s' (pj_id pj) cur = delta (dj_entries draft) cur" for cur
    by (simp add: journal_delta_def post_spec_entries_of [OF assms] delta_draft_of_entry [symmetric]
        post_specD(2) [OF assms(2)])
  moreover have "length (pj_entries pj) = length (dj_entries draft)"
    using post_specD(2) [OF assms(2)] by (metis length_map)
  ultimately show ?thesis
    using post_specD(1) [OF assms(2)]
    by (simp add: assert_journal_balanced_def post_spec_entries_of [OF assms] list_all_iff balanced_draft_def)
qed

lemma post_spec_ledger_ok:
  assumes ok: "ledger_ok s" and ps: "post_spec draft s pj s'"
  shows "ledger_ok s'"
proof -
  note new = post_specD(7) [OF ps]
  have old: "assert_journal_balanced s' i = assert_journal_balanced s i" if "i \<noteq> pj_id pj" for i
    using that post_spec_entries_of [OF ok ps]
    by (simp add: assert_journal_balanced_def journal_delta_def)
  have "\<forall>j\<in>set (journals s). assert_journal_balanced s' (j_id j)"
  proof
    fix j assume j: "j \<in> set (journals s)"
    with post_specD(4) [OF ps] have "j_id j \<noteq> pj_id pj" by force
    with j ok old show "assert_journal_balanced s' (j_id j)"
      by (simp add: ledger_ok_def commit_ok_def list_all_iff)
  qed
  with new post_spec_closed [OF ok ps] have "commit_ok s'" by (auto simp: commit_ok_def list_all_iff)
  moreover have "accounts_ok s'" using ok ps by (simp add: ledger_ok_def accounts_ok_def post_spec_def)
  moreover have "entries_ok s'"
  proof -
    have "distinct (map j_id (journals s'))"
      using new ok post_specD(4) [OF ps] by (auto simp: ledger_ok_def entries_ok_def)
    moreover have "distinct (map e_id (entries s'))" using ps unfolding post_spec_def by blast
    moreover have "\<forall>e\<in>set (entries s). 0 < e_amountMinor e \<and> e_amountMinor e \<le> MAX_AMOUNT_MINOR \<and>
        e_journalId e \<in> j_id ` set (journals s) \<and> on_account s e"
      using ok by (simp add: ledger_ok_def entries_ok_def)
    moreover have "\<forall>e\<in>set (pj_entries pj). 0 < e_amountMinor e \<and> e_amountMinor e \<le> MAX_AMOUNT_MINOR \<and>
        e_journalId e = pj_id pj \<and> on_account s e"
      using ps by (simp add: post_spec_def)
    moreover have "on_account s' = on_account s" "entries s' = entries s @ pj_entries pj"
      using ps by (simp_all add: on_account_def post_spec_def fun_eq_iff)
    ultimately show ?thesis using new by (auto simp: entries_ok_def)
  qed
  ultimately show ?thesis by (simp add: ledger_ok_def)
qed

lemma keeps_ledger_post [keeps_rules]: "keeps ledger_ok (post rt draft by' books)"
  by (rule keepsI) (metis post_Inr post_spec_ledger_ok)

text \<open>What a posting leaves alone: everything but the ledger and the outbox.\<close>

definition postless :: "(db \<Rightarrow> 'p) \<Rightarrow> bool" where
  "postless f \<longleftrightarrow> outboxless f \<and> tickless f \<and>
     (\<forall>s xs. f (s\<lparr>journals := xs\<rparr>) = f s) \<and> (\<forall>s xs. f (s\<lparr>entries := xs\<rparr>) = f s)"

lemma postless_parts [simp]:
  "postless wallet_part" "postless txn_part" "postless charge_part" "postless fixed_part"
  "postless rules" "postless accounts"
  by (simp_all add: postless_def) (simp_all add: part_defs tickless_def outboxless_def same_data_def)

lemma postless_pair [simp]: "postless f \<Longrightarrow> postless g \<Longrightarrow> postless (\<lambda>s. (f s, g s))"
  by (simp add: postless_def)

lemma unchanged_build_rows [unchanged_rules]: "tickless f \<Longrightarrow> unchanged f (build_rows rt jid at es)"
  by (rule unchangedI) (auto simp: tickless_def dest!: build_rows_Inr)

lemma unchanged_createJournal [unchanged_rules]:
  "(\<And>s xs. f (s\<lparr>journals := xs\<rparr>) = f s) \<Longrightarrow> unchanged f (createJournal rt j books)"
  by (rule unchangedI) (auto dest!: createJournal_Inr)

lemma unchanged_createEntries [unchanged_rules]:
  "(\<And>s xs. f (s\<lparr>entries := xs\<rparr>) = f s) \<Longrightarrow> unchanged f (createEntries rows)"
  by (rule unchangedI) (auto dest!: createEntries_Inr)

lemma unchanged_post [unchanged_rules]: "postless f \<Longrightarrow> unchanged f (post rt draft by' books)"
  unfolding post_def postless_def by (intro unchanged_rules) simp_all

lemma keeps_streams_post [keeps_rules]: "keeps streams_ok (post rt draft by' books)"
  unfolding post_def
  by (intro keeps_rules keeps_streams_unchanged unchanged_rules)
     (simp_all add: outbox_part_def tickless_def)

section \<open>Balances\<close>

text \<open>Credits less debits on one account, and on the accounts of one organization, purpose, currency.\<close>

definition account_credit :: "db \<Rightarrow> string \<Rightarrow> int" where
  "account_credit s i = (\<Sum>e\<leftarrow>filter (\<lambda>e. e_accountId e = i) (entries s). - e_signed e)"

definition purpose_balance :: "db \<Rightarrow> string \<Rightarrow> purpose \<Rightarrow> string \<Rightarrow> int" where
  "purpose_balance s org p cur =
     (\<Sum>a\<leftarrow>filter (\<lambda>a. account_key a = (org, p, cur)) (accounts s). account_credit s (a_id a))"

text \<open>Whether an account id names the account of that key.\<close>

definition keyed :: "db \<Rightarrow> string \<Rightarrow> string \<times> purpose \<times> string \<Rightarrow> bool" where
  "keyed s i k \<longleftrightarrow> (\<exists>a\<in>set (accounts s). a_id a = i \<and> account_key a = k)"

lemma keyed_fun: "accounts_ok s \<Longrightarrow> keyed s i k \<Longrightarrow> keyed s i k' \<Longrightarrow> k = k'"
  by (auto simp: keyed_def accounts_ok_def dest: distinct_map_eq)

lemma keyed_account_step: "account_step s s' \<Longrightarrow> keyed s i k \<Longrightarrow> keyed s' i k"
  by (auto simp: keyed_def dest: account_step_mem)

lemma filter_key:
  "accounts_ok s \<Longrightarrow> a \<in> set (accounts s) \<Longrightarrow> filter (\<lambda>b. account_key b = account_key a) (accounts s) = [a]"
proof -
  have "distinct (map account_key xs) \<Longrightarrow> a \<in> set xs \<Longrightarrow> filter (\<lambda>b. account_key b = account_key a) xs = [a]"
    for xs by (induction xs) (auto simp: image_iff filter_empty_conv)
  then show "accounts_ok s \<Longrightarrow> a \<in> set (accounts s) \<Longrightarrow>
      filter (\<lambda>b. account_key b = account_key a) (accounts s) = [a]"
    by (simp add: accounts_ok_def)
qed

lemma purpose_balance_keyed:
  "accounts_ok s \<Longrightarrow> keyed s i (org, p, cur) \<Longrightarrow> purpose_balance s org p cur = account_credit s i"
  using filter_key by (fastforce simp: purpose_balance_def keyed_def)

lemma purpose_balance_none:
  "\<nexists>i. keyed s i (org, p, cur) \<Longrightarrow> purpose_balance s org p cur = 0"
proof -
  assume "\<nexists>i. keyed s i (org, p, cur)"
  then have "filter (\<lambda>a. account_key a = (org, p, cur)) (accounts s) = []"
    by (auto simp: keyed_def filter_empty_conv)
  then show ?thesis by (simp add: purpose_balance_def)
qed

lemma purpose_balance_cong:
  "accounts s' = accounts s \<Longrightarrow> entries s' = entries s \<Longrightarrow> purpose_balance s' org p cur = purpose_balance s org p cur"
  by (simp add: purpose_balance_def account_credit_def)

text \<open>A fresh account carries no entries, so resolving an account moves no balance.\<close>

lemma account_step_balance:
  assumes ok: "ledger_ok s" and st: "account_step s s'" and ok': "accounts_ok s'"
  shows "purpose_balance s' org p cur = purpose_balance s org p cur"
proof (cases "\<exists>i. keyed s i (org, p, cur)")
  case True
  then obtain i where i: "keyed s i (org, p, cur)" by blast
  have "account_credit s' i = account_credit s i"
    using st by (simp add: account_credit_def account_step_def)
  with i ok ok' keyed_account_step [OF st i] show ?thesis
    by (simp add: purpose_balance_keyed ledger_ok_def)
next
  case False
  have "account_credit s' (a_id a) = 0"
    if a: "a \<in> set (accounts s')" "account_key a = (org, p, cur)" for a
  proof -
    have "e_accountId e \<noteq> a_id a" if e: "e \<in> set (entries s)" for e
    proof
      assume eq: "e_accountId e = a_id a"
      from e ok obtain b where b: "b \<in> set (accounts s)" "a_id b = e_accountId e"
        by (auto simp: ledger_ok_def entries_ok_def on_account_def)
      then have "b \<in> set (accounts s')" using st by (auto dest: account_step_mem)
      with a b eq ok' have "b = a" by (auto simp: accounts_ok_def dest: distinct_map_eq)
      with a b False show False by (auto simp: keyed_def)
    qed
    then have "filter (\<lambda>e. e_accountId e = a_id a) (entries s) = []" by (auto simp: filter_empty_conv)
    then show ?thesis using st by (simp add: account_credit_def account_step_def)
  qed
  then have "purpose_balance s' org p cur = 0"
    unfolding purpose_balance_def by (intro sum_list_zero) auto
  with False show ?thesis by (simp add: purpose_balance_none)
qed

text \<open>The movement a draft makes on the account of one key, credit positive.\<close>

definition draft_credit :: "db \<Rightarrow> draft_entry list \<Rightarrow> string \<times> purpose \<times> string \<Rightarrow> int" where
  "draft_credit s es k = (\<Sum>e\<leftarrow>es. if keyed s (d_accountId e) k then - d_signed e else 0)"

lemma draft_credit_simps [simp]:
  "draft_credit s [] k = 0"
  "draft_credit s (e # es) k = (if keyed s (d_accountId e) k then - d_signed e else 0) + draft_credit s es k"
  by (simp_all add: draft_credit_def)

lemma rows_credit:
  "(\<Sum>e\<leftarrow>filter (\<lambda>e. e_accountId e = i) rows. - e_signed e) =
     (\<Sum>e\<leftarrow>map draft_of_entry rows. if d_accountId e = i then - d_signed e else 0)"
  by (induction rows) (simp_all add: draft_of_entry_def d_signed_def e_signed_def)

lemma post_spec_balance:
  assumes ok: "ledger_ok s" and ps: "post_spec draft s pj s'"
  shows "purpose_balance s' org p cur =
    purpose_balance s org p cur + draft_credit s (dj_entries draft) (org, p, cur)"
proof (cases "\<exists>i. keyed s i (org, p, cur)")
  case True
  then obtain i where i: "keyed s i (org, p, cur)" by blast
  then have i': "keyed s' i (org, p, cur)" by (simp add: keyed_def post_specD(6) [OF ps])
  have acc: "accounts_ok s" "accounts_ok s'"
    using ok post_spec_ledger_ok [OF ok ps] by (simp_all add: ledger_ok_def)
  have "account_credit s' i = account_credit s i +
      (\<Sum>e\<leftarrow>dj_entries draft. if d_accountId e = i then - d_signed e else 0)"
    by (simp add: account_credit_def post_specD(5) [OF ps] rows_credit post_specD(2) [OF ps])
  moreover have "keyed s j (org, p, cur) \<longleftrightarrow> j = i" for j
    using i acc(1) by (auto simp: keyed_def accounts_ok_def dest: distinct_map_eq)
  ultimately show ?thesis
    using purpose_balance_keyed [OF acc(1) i] purpose_balance_keyed [OF acc(2) i']
    by (simp add: draft_credit_def)
next
  case False
  then have "purpose_balance s' org p cur = 0" "purpose_balance s org p cur = 0"
    using post_specD(6) [OF ps] by (simp_all add: purpose_balance_none keyed_def)
  moreover have "draft_credit s (dj_entries draft) (org, p, cur) = 0"
    using False by (simp add: draft_credit_def)
  ultimately show ?thesis by simp
qed

text \<open>The balance a caller reads of one account is the credit balance in the account's natural direction.\<close>

lemma direction_total_diff:
  "direction_total CREDIT es - direction_total DEBIT es = (\<Sum>e\<leftarrow>es. - e_signed e)"
proof (induction es)
  case (Cons e es)
  then show ?case
    by (cases "e_direction e") (simp_all add: direction_total_def e_signed_def signedValue_def)
qed (simp add: direction_total_def)

lemma balanceOf_liability: "balanceOf i LIABILITY s = account_credit s i"
  by (simp add: balanceOf_def accountBalance_def naturalBalance_def Let_def account_credit_def
      direction_total_diff)

section \<open>The trial balance\<close>

lemma js_set_props [simp]: "set (js_set xs) = set xs" "distinct (js_set xs)"
  by (simp_all add: js_set_def)

lemma ledger_total_zero:
  assumes "ledger_ok s"
  shows "(\<Sum>e\<leftarrow>filter (\<lambda>e. e_currency e = cur) (entries s). e_signed e) = 0"
proof -
  let ?es = "filter (\<lambda>e. e_currency e = cur) (entries s)"
  let ?ks = "map j_id (journals s)"
  have "(\<Sum>e\<leftarrow>?es. e_signed e) = (\<Sum>k\<leftarrow>?ks. \<Sum>e\<leftarrow>filter (\<lambda>e. e_journalId e = k) ?es. e_signed e)"
    using assms by (intro sum_list_by_key [symmetric]) (auto simp: ledger_ok_def entries_ok_def)
  also have "\<dots> = (\<Sum>k\<leftarrow>?ks. journal_delta s k cur)"
    by (simp add: journal_delta_def entries_of_def conj_commute)
  also have "\<dots> = 0"
    using assms
    by (intro sum_list_zero) (auto simp: ledger_ok_def commit_ok_def list_all_iff journal_closed_delta)
  finally show ?thesis .
qed

lemma totals_by_direction:
  "(\<Sum>row\<leftarrow>filter (\<lambda>row. at_currency row = cur) (accountTotals None s). at_creditMinor row - at_debitMinor row)
     = (\<Sum>e\<leftarrow>filter (\<lambda>e. e_currency e = cur) (entries s). - e_signed e)"
proof -
  let ?ks = "filter (\<lambda>k. snd k = cur) (js_set (map (\<lambda>e. (e_accountId e, e_currency e)) (entries s)))"
  let ?es = "filter (\<lambda>e. e_currency e = cur) (entries s)"
  have "(\<Sum>row\<leftarrow>filter (\<lambda>row. at_currency row = cur) (accountTotals None s). at_creditMinor row - at_debitMinor row)
      = (\<Sum>k\<leftarrow>?ks. \<Sum>e\<leftarrow>filter (\<lambda>e. (e_accountId e, e_currency e) = k) (entries s). - e_signed e)"
    by (simp add: accountTotals_def Let_def filter_map comp_def split_beta direction_total_diff
        prod_eq_iff)
  also have "\<dots> = (\<Sum>k\<leftarrow>?ks. \<Sum>e\<leftarrow>filter (\<lambda>e. (e_accountId e, e_currency e) = k) ?es. - e_signed e)"
    by (rule sum_list_cong) (auto intro!: arg_cong [of _ _ sum_list] arg_cong [of _ _ "map _"] filter_cong)
  also have "\<dots> = (\<Sum>e\<leftarrow>?es. - e_signed e)"
    by (rule sum_list_by_key) auto
  finally show ?thesis .
qed

lemma trialBalance_balanced:
  assumes "ledger_ok s"
  shows "tb_balanced (trialBalance cur s)"
proof -
  have "(\<Sum>e\<leftarrow>filter (\<lambda>e. e_currency e = cur) (entries s). - e_signed e) = 0"
    using ledger_total_zero [OF assms, of cur] by (simp add: sum_list_neg)
  with totals_by_direction [of cur s] show ?thesis
    by (simp add: trialBalance_def Let_def sum_list_subtractf)
qed

section \<open>The interface the components post through\<close>

text \<open>
  What wallets and settlements rely on: an account is resolved by a request, keeps its key and moves
  no balance; a posting adds exactly its legs to the balances of the accounts they name; and the
  legs of a posting that succeeds cancel out.
\<close>

locale double_entry =
  fixes inv :: "'s \<Rightarrow> bool"
    and resolve :: "'q \<Rightarrow> ('s, 'a) action"
    and key_of :: "'q \<Rightarrow> 'k"
    and ref :: "'a \<Rightarrow> 'i"
    and names :: "'s \<Rightarrow> 'i \<Rightarrow> 'k \<Rightarrow> bool"
    and posting :: "'d \<Rightarrow> ('s, 'r) action"
    and legs_of :: "'d \<Rightarrow> ('i \<times> int) list"
    and bal :: "'s \<Rightarrow> 'k \<Rightarrow> int"
  assumes resolve_law: "\<lbrakk> inv s; resolve q s = Inr (a, s') \<rbrakk> \<Longrightarrow>
      inv s' \<and> names s' (ref a) (key_of q) \<and> (\<forall>i k. names s i k \<longrightarrow> names s' i k) \<and> (\<forall>k. bal s' k = bal s k)"
    and posting_law: "\<lbrakk> inv s; posting d s = Inr (r, s') \<rbrakk> \<Longrightarrow>
      inv s' \<and> (\<forall>k. bal s' k = bal s k + (\<Sum>(i, v)\<leftarrow>legs_of d. if names s i k then v else 0)) \<and>
      (\<Sum>(i, v)\<leftarrow>legs_of d. v) = 0"
    and names_one: "\<lbrakk> inv s; names s i k; names s i k' \<rbrakk> \<Longrightarrow> k = k'"
begin

lemma names_iff: "inv s \<Longrightarrow> names s i k \<Longrightarrow> names s i k' \<longleftrightarrow> k' = k"
  using names_one by blast

text \<open>Resolve two accounts, then post one leg on each.\<close>

lemma transfer:
  assumes "inv s" and r1: "resolve q1 s = Inr (a1, s1)" and r2: "resolve q2 s1 = Inr (a2, s2)"
    and po: "posting d s2 = Inr (r, s3)" and le: "legs_of d \<in> {[(ref a1, v1), (ref a2, v2)], [(ref a2, v2), (ref a1, v1)]}"
  shows "inv s3 \<and> v1 + v2 = 0 \<and>
    (\<forall>k. bal s3 k = bal s k + (if k = key_of q1 then v1 else 0) + (if k = key_of q2 then v2 else 0))"
proof -
  note 1 = resolve_law [OF assms(1) r1]
  note 2 = resolve_law [OF conjunct1 [OF 1] r2]
  note 3 = posting_law [OF conjunct1 [OF 2] po]
  have n1: "names s2 (ref a1) k \<longleftrightarrow> k = key_of q1" for k using 1 2 names_iff by blast
  have n2: "names s2 (ref a2) k \<longleftrightarrow> k = key_of q2" for k using 2 names_iff by blast
  from le 1 2 3 n1 n2 show ?thesis by auto
qed

text \<open>The total over any set of keys that the legs stay inside does not move.\<close>

lemma conserved:
  assumes "inv s" and "posting d s = Inr (r, s')" and "finite K"
    and cover: "\<forall>(i, v)\<in>set (legs_of d). \<exists>k\<in>K. names s i k"
  shows "(\<Sum>k\<in>K. bal s' k) = (\<Sum>k\<in>K. bal s k)"
proof -
  have "(\<Sum>k\<in>K. \<Sum>(i, v)\<leftarrow>ls. if names s i k then v else 0) = (\<Sum>(i, v)\<leftarrow>ls. v)"
    if "\<forall>(i, v)\<in>set ls. \<exists>k\<in>K. names s i k" for ls :: "('i \<times> int) list"
    using that
  proof (induction ls)
    case (Cons l ls)
    obtain i v where l: "l = (i, v)" by fastforce
    with Cons.prems obtain k0 where k0: "k0 \<in> K" "names s i k0" by auto
    have "(\<Sum>k\<in>K. if names s i k then v else 0) = (\<Sum>k\<in>K. if k = k0 then v else 0)"
      using names_iff [OF assms(1) k0(2)] by simp
    with assms(3) k0(1) have "(\<Sum>k\<in>K. if names s i k then v else 0) = v" by simp
    with Cons l show ?case by (simp add: sum.distrib)
  qed simp
  with posting_law [OF assms(1,2)] cover show ?thesis by (simp add: sum.distrib)
qed

end

text \<open>Balances by key; the request for an account; the legs of a draft, credit positive.\<close>

definition bal_at :: "db \<Rightarrow> string \<times> purpose \<times> string \<Rightarrow> int" where
  "bal_at s k = (case k of (org, p, cur) \<Rightarrow> purpose_balance s org p cur)"

definition draft_legs :: "journal_draft \<Rightarrow> (string \<times> int) list" where
  "draft_legs d = map (\<lambda>e. (d_accountId e, - d_signed e)) (dj_entries d)"

lemma draft_legs_credit:
  "(\<Sum>(i, v)\<leftarrow>draft_legs d. if keyed s i k then v else 0) = draft_credit s (dj_entries d) k"
  by (simp add: draft_legs_def draft_credit_def comp_def)

lemma single_currency_total:
  assumes "\<forall>e\<in>set es. d_currency e = cur"
  shows "(\<Sum>e\<leftarrow>es. d_signed e) = delta es cur"
proof -
  have "filter (\<lambda>e. d_currency e = cur) es = es" using assms by simp
  then show ?thesis by (simp add: delta_def)
qed

lemma post_spec_total:
  assumes "post_spec draft s pj s'"
  shows "(\<Sum>(i, v)\<leftarrow>draft_legs draft. v) = 0"
proof -
  have "\<forall>e\<in>set (dj_entries draft). d_currency e = pj_currency pj"
    using assms unfolding post_spec_def
    by (metis (no_types, lifting) draft_entry.select_convs(5) draft_of_entry_def in_set_conv_nth length_map nth_map)
  from single_currency_total [OF this] have "(\<Sum>e\<leftarrow>dj_entries draft. d_signed e) = 0"
    using post_specD(1) [OF assms] by (simp add: balanced_draft_def)
  then show ?thesis by (simp add: draft_legs_def comp_def sum_list_neg)
qed

interpretation led: double_entry ledger_ok
    "\<lambda>(p, org, cur). resolveAccount rt p org cur by'" "\<lambda>(p, org, cur). (ownerOf rt p org, p, cur)"
    a_id keyed "\<lambda>d. post rt d pb books" draft_legs bal_at
  for rt :: "'x runtime_scheme" and by' pb books
proof (unfold_locales, goal_cases)
  case (1 s q a s')
  obtain p org cur where q: "q = (p, org, cur)" by (cases q)
  with 1 have r: "resolveAccount rt p org cur by' s = Inr (a, s')" by simp
  from 1 have "accounts_ok s" by (simp add: ledger_ok_def)
  note f = resolveAccount_Inr [OF r this]
  have "ledger_ok s'" using f 1 ledger_ok_account_step by blast
  moreover have "bal_at s' k = bal_at s k" for k
    using account_step_balance [OF 1(1)] f by (simp add: bal_at_def split: prod.splits)
  ultimately show ?case using f q keyed_account_step by (auto simp: keyed_def dest: account_step_mem)
next
  case (2 s d r s')
  note ps = post_Inr [OF 2(2)]
  have "bal_at s' k = bal_at s k + (\<Sum>(i, v)\<leftarrow>draft_legs d. if keyed s i k then v else 0)" for k
    using post_spec_balance [OF 2(1) ps] by (cases k) (simp add: bal_at_def draft_legs_credit)
  with post_spec_ledger_ok [OF 2(1) ps] post_spec_total [OF ps] show ?case by blast
next
  case (3 s i k k')
  then show ?case by (meson keyed_fun ledger_ok_def)
qed

text \<open>The facts of the interface on the service's own operations.\<close>

lemma resolveAccount_law:
  "\<lbrakk> ledger_ok s; resolveAccount rt p org cur by' s = Inr (a, s') \<rbrakk> \<Longrightarrow>
     ledger_ok s' \<and> keyed s' (a_id a) (ownerOf rt p org, p, cur) \<and>
     (\<forall>i k. keyed s i k \<longrightarrow> keyed s' i k) \<and> (\<forall>k. bal_at s' k = bal_at s k)"
  by (rule led.resolve_law [where q = "(p, org, cur)" and rt = rt and by' = by', unfolded prod.case])

lemmas transfer_law =
  led.transfer [where ?q1.0 = "(p1, o1, c1)" and ?q2.0 = "(p2, o2, c2)", unfolded prod.case]
  for p1 o1 c1 p2 o2 c2

end
