(* ===== verification/Wallet.thy ===== *)
theory Wallet
  imports Ledger_Laws "HOL-Library.List_Lexorder" "HOL-Library.Char_ord"
begin

text \<open>
  Wallets and holds: \<^verbatim>\<open>wallet/balances.ts\<close>, \<^verbatim>\<open>wallet/wallet.repository.ts\<close> (with the constraints and
  the insert triggers of the migrations) and \<^verbatim>\<open>wallet/wallet.service.ts\<close>.

  A \<open>LockedWallet\<close> is the wallet's row as read under its lock, so the row itself here.
\<close>

section \<open>balances.ts\<close>

definition balancesFrom :: "int \<Rightarrow> int \<Rightarrow> balances" where
  "balancesFrom walletAccountBalanceMinor escrowAccountBalanceMinor =
     \<lparr>ledgerBalanceMinor = walletAccountBalanceMinor + escrowAccountBalanceMinor,
      pendingBalanceMinor = escrowAccountBalanceMinor,
      availableBalanceMinor = walletAccountBalanceMinor\<rparr>"

definition isConsistent :: "balances \<Rightarrow> bool" where
  "isConsistent b \<longleftrightarrow>
     0 \<le> ledgerBalanceMinor b \<and> 0 \<le> pendingBalanceMinor b \<and> 0 \<le> availableBalanceMinor b \<and>
     availableBalanceMinor b = ledgerBalanceMinor b - pendingBalanceMinor b"

definition assertSufficient :: "balances \<Rightarrow> int \<Rightarrow> failure + unit" where
  "assertSufficient b amount =
     bindE (assertE (\<not> amount \<le> 0) (RastaError BUSINESS_RULE_VIOLATION ''Amount must be positive'')) (\<lambda>_.
     assertE (\<not> availableBalanceMinor b < amount) (RastaError INSUFFICIENT_BALANCE ''''))"

section \<open>The repository\<close>

text \<open>\<open>SELECT ... WHERE id = ANY(ordered) ORDER BY id FOR UPDATE\<close>.\<close>

definition lock :: "string list \<Rightarrow> wallet list tx" where
  "lock walletIds =
     (if walletIds = [] then returnM []
      else let ordered = sort (js_set walletIds) in
           getsM (\<lambda>s. sort_key w_id (filter (\<lambda>w. w_id w \<in> set ordered) (wallets s))))"

definition walletBalanceLimit :: failure where
  "walletBalanceLimit = RastaError BUSINESS_RULE_VIOLATION ''WALLET_BALANCE_LIMIT''"

definition set_balances :: "balances \<Rightarrow> wallet \<Rightarrow> wallet" where
  "set_balances b w =
     w\<lparr>w_ledgerBalanceMinor := ledgerBalanceMinor b, w_pendingBalanceMinor := pendingBalanceMinor b,
       w_availableBalanceMinor := availableBalanceMinor b\<rparr>"

text \<open>The figures the recompute statement derives from the entries of the owner's two accounts.\<close>

definition ledger_balances :: "db \<Rightarrow> string \<Rightarrow> string \<Rightarrow> balances" where
  "ledger_balances s org cur = balancesFrom (purpose_balance s org WALLET cur) (purpose_balance s org ESCROW cur)"

definition within_limit :: "balances \<Rightarrow> bool" where
  "within_limit b \<longleftrightarrow>
     ledgerBalanceMinor b \<le> MAX_AMOUNT_MINOR \<and> availableBalanceMinor b \<le> MAX_AMOUNT_MINOR \<and>
     pendingBalanceMinor b \<le> MAX_AMOUNT_MINOR"

definition recomputeFromLedger :: "wallet \<Rightarrow> balances tx" where
  "recomputeFromLedger wallet =
     bindM (getsM (\<lambda>s. ledger_balances s (w_organizationId wallet) (w_currency wallet))) (\<lambda>b.
     bindM (getsM (\<lambda>s. w_id wallet \<in> w_id ` set (wallets s))) (\<lambda>exists.
     thenM (assertM exists (PlainError ''Wallet disappeared while recomputing its balances''))
    (thenM (assertM (within_limit b) walletBalanceLimit)
    (thenM (assertM (isConsistent b) (ConstraintViolation ''ck_wallet_balances''))
    (thenM (modifyM (\<lambda>s. s\<lparr>wallets := map (\<lambda>w. if w_id w = w_id wallet then set_balances b w else w) (wallets s)\<rparr>))
    (returnM (balancesFrom (availableBalanceMinor b) (pendingBalanceMinor b))))))))"

definition find_wallet :: "db \<Rightarrow> string \<Rightarrow> string \<Rightarrow> wallet option" where
  "find_wallet s org cur = find (\<lambda>w. w_organizationId w = org \<and> w_currency w = cur) (wallets s)"

text \<open>Tenant-scoped: only the caller's own wallet is ever found.\<close>

definition findByOrganization :: "'a runtime_scheme \<Rightarrow> string \<Rightarrow> string \<Rightarrow> wallet option tx" where
  "findByOrganization rt org cur =
     (if isUnscoped rt then getsM (\<lambda>s. find_wallet s org cur)
      else bindM (liftM (actingOrganization rt)) (\<lambda>own.
           getsM (\<lambda>s. if org = own then find_wallet s org cur else None)))"

definition findByOrganizationUnscoped :: "string \<Rightarrow> string \<Rightarrow> wallet option tx" where
  "findByOrganizationUnscoped org cur = getsM (\<lambda>s. find_wallet s org cur)"

definition create_wallet :: "'a runtime_scheme \<Rightarrow> string \<Rightarrow> string \<Rightarrow> string \<Rightarrow> string \<Rightarrow> wallet tx" where
  "create_wallet rt i org cur ledgerAccountId =
     bindM (databaseNow rt) (\<lambda>now.
     let w = \<lparr>w_id = i, w_organizationId = org, w_currency = cur, w_ledgerAccountId = ledgerAccountId,
              w_status = W_ACTIVE, w_ledgerBalanceMinor = 0, w_pendingBalanceMinor = 0,
              w_availableBalanceMinor = 0, w_createdAt = now\<rparr> in
     bindM (getsM (\<lambda>s. \<exists>v\<in>set (wallets s). w_id v = i \<or> w_ledgerAccountId v = ledgerAccountId \<or>
                (w_organizationId v = org \<and> w_currency v = cur))) (\<lambda>taken.
     thenM (assertM (\<not> taken) (UniqueViolation ''wallet''))
    (bindM (getsM (\<lambda>s. \<exists>a\<in>set (accounts s). a_id a = ledgerAccountId \<and> a_organizationId a = org \<and> a_currency a = cur)) (\<lambda>fk.
     thenM (assertM fk (ConstraintViolation ''fk_wallet_account_identity''))
    (thenM (modifyM (\<lambda>s. s\<lparr>wallets := wallets s @ [w]\<rparr>)) (returnM w))))))"

text \<open>
  The insert of a hold: its unique keys, its positive amount and \<open>trg_wallet_hold_reference_bound\<close>
  (on a wallet of its own organization; for a transaction, naming one of its organization's; for
  anything else, naming none).
\<close>

definition hold_reference_bound :: "db \<Rightarrow> wallet_hold \<Rightarrow> bool" where
  "hold_reference_bound s h \<longleftrightarrow>
     (\<exists>w\<in>set (wallets s). w_id w = h_walletId h \<and> w_organizationId w = h_organizationId h) \<and>
     (if h_referenceType h = TRANSACTION
      then \<exists>t\<in>set (txns s). t_id t = h_reference h \<and> t_organizationId t = h_organizationId h
      else \<forall>t\<in>set (txns s). t_id t \<noteq> h_reference h)"

definition hold_taken :: "db \<Rightarrow> wallet_hold \<Rightarrow> bool" where
  "hold_taken s h \<longleftrightarrow>
     (\<exists>g\<in>set (holds s). h_id g = h_id h \<or>
        (h_placedJournalId g \<noteq> None \<and> h_placedJournalId g = h_placedJournalId h) \<or>
        (h_status g = H_ACTIVE \<and> h_walletId g = h_walletId h \<and> h_organizationId g = h_organizationId h \<and>
         h_reference g = h_reference h \<and> h_referenceType g = h_referenceType h))"

definition createHold :: "wallet_hold \<Rightarrow> unit tx" where
  "createHold h =
     bindM (getsM (\<lambda>s. hold_reference_bound s h)) (\<lambda>bound.
     thenM (assertM bound (ConstraintViolation ''trg_wallet_hold_reference_bound''))
    (bindM (getsM (\<lambda>s. hold_taken s h)) (\<lambda>taken.
     thenM (assertM (\<not> taken) (UniqueViolation ''wallet_hold''))
    (thenM (assertM (0 < h_amountMinor h) (ConstraintViolation ''ck_wallet_hold_amount_positive''))
           (modifyM (\<lambda>s. s\<lparr>holds := holds s @ [h]\<rparr>))))))"

text \<open>
  \<open>updateMany ... WHERE id = holdId AND status = 'ACTIVE'\<close>, with
  \<open>trg_wallet_hold_resolved_only_funded\<close>; the count of rows it changed.
\<close>

definition resolveHold ::
  "string \<Rightarrow> hold_status \<Rightarrow> string \<Rightarrow> int \<Rightarrow> string \<Rightarrow> string option \<Rightarrow> nat tx"
where
  "resolveHold holdId status resolvedJournalId resolvedAt resolvedBy note =
     bindM (getsM (\<lambda>s. length (filter (\<lambda>h. h_id h = holdId \<and> h_status h = H_ACTIVE) (holds s)))) (\<lambda>count.
     bindM (getsM (\<lambda>s. wallet_hold_funded s holdId)) (\<lambda>funded.
     thenM (assertM (count = 0 \<or> funded) (ConstraintViolation ''trg_wallet_hold_resolved_only_funded''))
    (thenM (modifyM (\<lambda>s. s\<lparr>holds := map (\<lambda>h. if h_id h = holdId \<and> h_status h = H_ACTIVE
         then h\<lparr>h_status := status, h_resolvedJournalId := Some resolvedJournalId,
                h_resolvedAt := Some resolvedAt, h_resolvedBy := Some resolvedBy,
                h_resolutionNote := note\<rparr>
         else h) (holds s)\<rparr>))
     (returnM count))))"

definition findActiveHold :: "string \<Rightarrow> string \<Rightarrow> string \<Rightarrow> hold_purpose \<Rightarrow> wallet_hold option tx" where
  "findActiveHold walletId org reference referenceType =
     getsM (\<lambda>s. find (\<lambda>h. h_walletId h = walletId \<and> h_organizationId h = org \<and>
        h_reference h = reference \<and> h_referenceType h = referenceType \<and> h_status h = H_ACTIVE \<and>
        (\<exists>w\<in>set (wallets s). w_id w = h_walletId h \<and> w_organizationId w = org)) (holds s))"

definition findHoldById :: "string \<Rightarrow> wallet_hold option tx" where
  "findHoldById i = getsM (\<lambda>s. hold_of s i)"

definition isHoldFunded :: "string \<Rightarrow> bool tx" where
  "isHoldFunded holdId = getsM (\<lambda>s. wallet_hold_funded s holdId)"

definition activeHoldTotal :: "db \<Rightarrow> string \<Rightarrow> int" where
  "activeHoldTotal s walletId =
     (\<Sum>h\<leftarrow>filter (\<lambda>h. h_walletId h = walletId \<and> h_status h = H_ACTIVE) (holds s). h_amountMinor h)"

section \<open>The service\<close>

definition HOLD_NOT_FUNDED :: failure where
  "HOLD_NOT_FUNDED = RastaError BUSINESS_RULE_VIOLATION ''HOLD_NOT_FUNDED''"

text \<open>What \<open>open\<close> and \<open>resolveCounterpartyWallet\<close> both do inside the transaction.\<close>

definition open_within :: "'a runtime_scheme \<Rightarrow> string \<Rightarrow> string \<Rightarrow> wallet tx" where
  "open_within rt org cur =
     (let actor = actor_name rt in
      bindM (resolveAccount rt WALLET org cur actor) (\<lambda>walletAccount.
      thenM (resolveAccount rt ESCROW org cur actor)
     (bindM (prefixed_ulid rt ''WLT'') (\<lambda>walletId.
      bindM (create_wallet rt walletId org cur (a_id walletAccount)) (\<lambda>wallet.
      thenM (enqueue rt walletId org (WalletOpened walletId org cur (w_createdAt wallet)) None)
            (returnM wallet))))))"

definition resolveCounterpartyWallet :: "'a runtime_scheme \<Rightarrow> string \<Rightarrow> string \<Rightarrow> wallet tx" where
  "resolveCounterpartyWallet rt org cur =
     bindM (findByOrganizationUnscoped org cur) (\<lambda>existing.
     case existing of Some w \<Rightarrow> returnM w | None \<Rightarrow> open_within rt org cur)"

text \<open>A lost race is a unique violation: the transaction is rolled back and the winner's wallet read.\<close>

definition open_wallet :: "'a runtime_scheme \<Rightarrow> string \<Rightarrow> string \<Rightarrow> wallet tx" where
  "open_wallet rt org cur = (\<lambda>s.
     case transaction (open_within rt org cur) s of
       Inr r \<Rightarrow> Inr r
     | Inl (UniqueViolation c) \<Rightarrow>
         bindM (findByOrganization rt org cur) (\<lambda>raced.
           case raced of Some w \<Rightarrow> returnM w | None \<Rightarrow> throwM (UniqueViolation c)) s
     | Inl e \<Rightarrow> Inl e)"

definition getOrOpen :: "'a runtime_scheme \<Rightarrow> string \<Rightarrow> wallet tx" where
  "getOrOpen rt cur =
     bindM (liftM (getOrganizationId rt)) (\<lambda>org.
     bindM (findByOrganization rt org cur) (\<lambda>existing.
     case existing of Some w \<Rightarrow> returnM w | None \<Rightarrow> open_wallet rt org cur))"

definition leg :: "ledger_account \<Rightarrow> direction \<Rightarrow> int \<Rightarrow> string \<Rightarrow> draft_entry" where
  "leg account dir amount cur =
     \<lparr>d_accountId = a_id account, d_organizationId = a_organizationId account, d_direction = dir,
      d_amountMinor = amount, d_currency = cur\<rparr>"

definition credit ::
  "'a runtime_scheme \<Rightarrow> wallet \<Rightarrow> int \<Rightarrow> purpose \<Rightarrow> journal_type \<Rightarrow> string \<Rightarrow> string option \<Rightarrow> string \<Rightarrow>
     (string \<times> balances) tx"
where
  "credit rt wallet amount counterpartPurpose journalType description transactionId postedBy =
     thenM (assertM (\<not> amount \<le> 0) (RastaError BUSINESS_RULE_VIOLATION ''A credit must be positive''))
    (bindM (lock [w_id wallet]) (\<lambda>rows.
     case rows of
       [] \<Rightarrow> throwM (RastaError NOT_FOUND ''Wallet'')
     | locked # _ \<Rightarrow>
         bindM (resolveAccount rt WALLET (w_organizationId wallet) (w_currency wallet) postedBy) (\<lambda>walletAccount.
         bindM (resolveAccount rt counterpartPurpose (w_organizationId wallet) (w_currency wallet) postedBy) (\<lambda>counterpart.
         bindM (post rt \<lparr>dj_journalType = journalType, dj_description = description,
             dj_organizationId = w_organizationId wallet, dj_transactionId = transactionId,
             dj_entries = [leg counterpart DEBIT amount (w_currency wallet),
                           leg walletAccount CREDIT amount (w_currency wallet)],
             dj_postedAt = None, dj_reverses = None\<rparr> postedBy None) (\<lambda>journal.
         bindM (recomputeFromLedger locked) (\<lambda>balances.
         returnM (pj_id journal, balances)))))))"

record hold_result =
  hr_holdId :: string
  hr_journalId :: "string option"
  hr_balances :: balances
  hr_replayed :: bool

fun hold_purpose_name :: "hold_purpose \<Rightarrow> string" where
  "hold_purpose_name TRANSACTION = ''TRANSACTION''"
| "hold_purpose_name PAYMENT_REFUND = ''PAYMENT_REFUND''"

definition placeHold ::
  "'a runtime_scheme \<Rightarrow> wallet \<Rightarrow> int \<Rightarrow> string \<Rightarrow> hold_purpose \<Rightarrow> string \<Rightarrow> string \<Rightarrow> hold_result tx"
where
  "placeHold rt wallet amount reference referenceType transactionId placedBy =
     bindM (findActiveHold (w_id wallet) (w_organizationId wallet) reference referenceType) (\<lambda>existing.
     case existing of
       Some h \<Rightarrow>
         thenM (assertM (h_amountMinor h = amount)
                 (RastaError BUSINESS_RULE_VIOLATION ''A hold already exists for this reference with a different amount''))
        (thenM (assertM (h_currency h = w_currency wallet)
                 (RastaError BUSINESS_RULE_VIOLATION ''A hold already exists for this reference in another currency''))
        (bindM (isHoldFunded (h_id h)) (\<lambda>funded.
         thenM (assertM funded HOLD_NOT_FUNDED)
        (returnM \<lparr>hr_holdId = h_id h, hr_journalId = h_placedJournalId h,
           hr_balances = balancesFrom (w_availableBalanceMinor wallet) (w_pendingBalanceMinor wallet),
           hr_replayed = True\<rparr>))))
     | None \<Rightarrow>
         thenM (assertM (w_status wallet = W_ACTIVE)
                 (RastaError BUSINESS_RULE_VIOLATION ''This wallet cannot place new holds''))
        (thenM (liftM (assertSufficient
             (balancesFrom (w_availableBalanceMinor wallet) (w_pendingBalanceMinor wallet)) amount))
        (bindM (resolveAccount rt WALLET (w_organizationId wallet) (w_currency wallet) placedBy) (\<lambda>walletAccount.
         bindM (resolveAccount rt ESCROW (w_organizationId wallet) (w_currency wallet) placedBy) (\<lambda>escrowAccount.
         bindM (post rt \<lparr>dj_journalType = FUNDS_HELD,
             dj_description = ''Hold for '' @ hold_purpose_name referenceType @ '' '' @ reference,
             dj_organizationId = w_organizationId wallet, dj_transactionId = Some transactionId,
             dj_entries = [leg walletAccount DEBIT amount (w_currency wallet),
                           leg escrowAccount CREDIT amount (w_currency wallet)],
             dj_postedAt = None, dj_reverses = None\<rparr> placedBy None) (\<lambda>journal.
         bindM (prefixed_ulid rt ''HLD'') (\<lambda>holdId.
         bindM (hostDate rt) (\<lambda>placedAt.
         thenM (createHold \<lparr>h_id = holdId, h_organizationId = w_organizationId wallet,
             h_walletId = w_id wallet, h_amountMinor = amount, h_currency = w_currency wallet,
             h_status = H_ACTIVE, h_reference = reference, h_referenceType = referenceType,
             h_placedJournalId = Some (pj_id journal), h_resolvedJournalId = None,
             h_placedAt = placedAt, h_placedBy = placedBy, h_resolvedAt = None,
             h_resolvedBy = None, h_resolutionNote = None\<rparr>)
        (bindM (recomputeFromLedger wallet) (\<lambda>balances.
         thenM (enqueue rt holdId (w_organizationId wallet)
             (FundsHeld holdId (w_id wallet) (w_organizationId wallet) transactionId reference
                referenceType (formatMinor amount) (w_currency wallet) placedAt) None)
        (returnM \<lparr>hr_holdId = holdId, hr_journalId = Some (pj_id journal), hr_balances = balances,
           hr_replayed = False\<rparr>)))))))))))"

definition refundHold ::
  "'a runtime_scheme \<Rightarrow> wallet \<Rightarrow> string \<Rightarrow> hold_purpose \<Rightarrow> string \<Rightarrow> string \<Rightarrow> string \<Rightarrow>
     (string \<times> int \<times> balances) option tx"
where
  "refundHold rt wallet holdId referenceType transactionId note resolvedBy =
     bindM (findHoldById holdId) (\<lambda>found.
     case found of
       None \<Rightarrow> throwM (RastaError NOT_FOUND ''WalletHold'')
     | Some hold \<Rightarrow>
         thenM (assertM (\<not> (h_walletId hold \<noteq> w_id wallet \<or> h_organizationId hold \<noteq> w_organizationId wallet \<or>
                            h_referenceType hold \<noteq> referenceType))
                 (RastaError INTERNAL_ERROR ''A refund names a hold of another wallet or purpose''))
        (if h_status hold \<noteq> H_ACTIVE then returnM None
         else
         bindM (isHoldFunded (h_id hold)) (\<lambda>funded.
         thenM (assertM funded HOLD_NOT_FUNDED)
        (bindM (resolveAccount rt WALLET (w_organizationId wallet) (w_currency wallet) resolvedBy) (\<lambda>walletAccount.
         bindM (resolveAccount rt ESCROW (w_organizationId wallet) (w_currency wallet) resolvedBy) (\<lambda>escrowAccount.
         bindM (post rt \<lparr>dj_journalType = FUNDS_REFUNDED, dj_description = ''Refund of hold '' @ holdId,
             dj_organizationId = w_organizationId wallet, dj_transactionId = Some transactionId,
             dj_entries = [leg escrowAccount DEBIT (h_amountMinor hold) (h_currency hold),
                           leg walletAccount CREDIT (h_amountMinor hold) (h_currency hold)],
             dj_postedAt = None, dj_reverses = None\<rparr> resolvedBy None) (\<lambda>journal.
         bindM (hostDate rt) (\<lambda>resolvedAt.
         bindM (resolveHold holdId H_REFUNDED (pj_id journal) resolvedAt resolvedBy (Some note)) (\<lambda>changed.
         thenM (assertM (changed \<noteq> 0) (RastaError OPTIMISTIC_LOCK_FAILED ''WalletHold''))
        (bindM (recomputeFromLedger wallet) (\<lambda>balances.
         thenM (enqueue rt holdId (w_organizationId wallet)
             (FundsReleased holdId (w_id wallet) (w_organizationId wallet) transactionId
                (h_reference hold) (formatMinor (h_amountMinor hold)) (h_currency hold) H_REFUNDED
                resolvedAt) None)
        (returnM (Some (pj_id journal, h_amountMinor hold, balances))))))))))))))"

definition markHoldReleased ::
  "'a runtime_scheme \<Rightarrow> wallet_hold \<Rightarrow> string \<Rightarrow> string \<Rightarrow> string \<Rightarrow> unit tx"
where
  "markHoldReleased rt hold settlementJournalId transactionId resolvedBy =
     bindM (hostDate rt) (\<lambda>resolvedAt.
     bindM (resolveHold (h_id hold) H_RELEASED settlementJournalId resolvedAt resolvedBy
              (Some ''Released by settlement'')) (\<lambda>changed.
     thenM (assertM (changed \<noteq> 0) (RastaError OPTIMISTIC_LOCK_FAILED ''WalletHold''))
    (enqueue rt (h_id hold) (h_organizationId hold)
       (FundsReleased (h_id hold) (h_walletId hold) (h_organizationId hold) transactionId
          (h_reference hold) (formatMinor (h_amountMinor hold)) (h_currency hold) H_RELEASED resolvedAt) None)))"

end
