(* ===== verification/Commission.thy ===== *)
theory Commission
  imports Ledger_Laws "HOL-Library.List_Lexorder" "HOL-Library.Char_ord" "HOL-Library.Product_Lexorder"
begin

text \<open>
  Commission: the pure engine of \<^verbatim>\<open>commission/rule-engine.ts\<close>, the window rules of
  \<^verbatim>\<open>shared/rule-validity.ts\<close>, and \<^verbatim>\<open>commission/commission.service.ts\<close>.

  Instants are milliseconds, as \<open>getTime()\<close> gives them. The scope locks order concurrent requests
  and read nothing, so they leave no trace in a sequential run.
\<close>

section \<open>The engine\<close>

record commission_subject =
  su_organizationId :: string
  su_businessLine :: "business_line option"
  su_transactionType :: transaction_type

record commission_decision =
  cd_ruleId :: "string option"
  cd_rateBasisPoints :: int
  cd_amountMinor :: int
  cd_matched :: bool
  cd_outcome :: commission_outcome

definition coversSubject :: "commission_rule \<Rightarrow> commission_subject \<Rightarrow> bool" where
  "coversSubject rule subject \<longleftrightarrow>
     (if su_businessLine subject = None
      then r_businessLine rule = None \<and> r_transactionType rule = Some (su_transactionType subject)
      else r_businessLine rule = su_businessLine subject \<and>
           (r_transactionType rule = None \<or> r_transactionType rule = Some (su_transactionType subject)))"

definition applicable :: "commission_subject \<Rightarrow> int \<Rightarrow> commission_rule \<Rightarrow> bool" where
  "applicable subject occurredAt rule \<longleftrightarrow>
     r_status rule = R_ACTIVE \<and>
     (r_organizationId rule = None \<or> r_organizationId rule = Some (su_organizationId subject)) \<and>
     coversSubject rule subject \<and> r_validFrom rule \<le> occurredAt \<and>
     (case r_validTo rule of None \<Rightarrow> True | Some validTo \<Rightarrow> occurredAt < validTo)"

definition specificityOf :: "commission_rule \<Rightarrow> int" where
  "specificityOf rule = (if r_organizationId rule = None then 0 else 1)"

definition narrownessOf :: "commission_rule \<Rightarrow> int" where
  "narrownessOf rule = (if r_businessLine rule \<noteq> None \<and> r_transactionType rule \<noteq> None then 1 else 0)"

text \<open>The comparator passed to \<open>sort\<close>.\<close>

definition compareRules :: "commission_rule \<Rightarrow> commission_rule \<Rightarrow> int" where
  "compareRules a b =
     (let specificity = specificityOf b - specificityOf a in
      if specificity \<noteq> 0 then specificity
      else let narrowing = narrownessOf b - narrownessOf a in
      if narrowing \<noteq> 0 then narrowing
      else let start = r_validFrom b - r_validFrom a in
      if start \<noteq> 0 then start
      else if r_id a < r_id b then - 1 else if r_id a > r_id b then 1 else 0)"

text \<open>\<open>Array.prototype.sort\<close> with a comparator: the stable sort.\<close>

fun insert_by :: "('a \<Rightarrow> 'a \<Rightarrow> int) \<Rightarrow> 'a \<Rightarrow> 'a list \<Rightarrow> 'a list" where
  "insert_by cmp x [] = [x]"
| "insert_by cmp x (y # ys) = (if cmp x y \<le> 0 then x # y # ys else y # insert_by cmp x ys)"

definition sort_by :: "('a \<Rightarrow> 'a \<Rightarrow> int) \<Rightarrow> 'a list \<Rightarrow> 'a list" where
  "sort_by cmp xs = foldr (insert_by cmp) xs []"

definition selectRule :: "commission_rule list \<Rightarrow> commission_subject \<Rightarrow> int \<Rightarrow> commission_rule option" where
  "selectRule rs subject occurredAt =
     (case sort_by compareRules (filter (applicable subject occurredAt) rs) of
        [] \<Rightarrow> None | winner # _ \<Rightarrow> Some winner)"

definition NO_ACTIVE_RULE_DECISION :: commission_decision where
  "NO_ACTIVE_RULE_DECISION = \<lparr>cd_ruleId = None, cd_rateBasisPoints = 0, cd_amountMinor = 0,
     cd_matched = False, cd_outcome = OUTCOME_NO_ACTIVE_RULE\<rparr>"

definition priceWithRule :: "commission_rule \<Rightarrow> int \<Rightarrow> string \<Rightarrow> failure + commission_decision" where
  "priceWithRule rule grossAmountMinor cur =
     bindE (commissionFor grossAmountMinor cur (r_rateBasisPoints rule)) (\<lambda>raw.
     Inr \<lparr>cd_ruleId = Some (r_id rule), cd_rateBasisPoints = r_rateBasisPoints rule,
       cd_amountMinor = clampCommission raw grossAmountMinor (r_minAmountMinor rule) (r_maxAmountMinor rule),
       cd_matched = True, cd_outcome = RULE_APPLIED\<rparr>)"

definition computeCommission ::
  "commission_rule list \<Rightarrow> commission_subject \<Rightarrow> int \<Rightarrow> int \<Rightarrow> string \<Rightarrow> failure + commission_decision"
where
  "computeCommission rs subject occurredAt grossAmountMinor cur =
     (case selectRule rs subject occurredAt of
        Some rule \<Rightarrow> priceWithRule rule grossAmountMinor cur
      | None \<Rightarrow> Inr NO_ACTIVE_RULE_DECISION)"

definition pricingSubjectAt :: "commission_subject \<Rightarrow> int \<Rightarrow> int \<Rightarrow> commission_subject" where
  "pricingSubjectAt subject occurredAt cutover =
     (if occurredAt < cutover then subject\<lparr>su_businessLine := None\<rparr> else subject)"

section \<open>Windows\<close>

definition nextValidTo :: "int \<Rightarrow> int option \<Rightarrow> int option \<Rightarrow> int \<Rightarrow> failure + int option" where
  "nextValidTo validFrom validTo requested now =
     (if (case validTo of Some v \<Rightarrow> v \<le> now | None \<Rightarrow> False)
      then Inl (RastaError BUSINESS_RULE_VIOLATION ''This rule has already ended'')
      else case requested of
        None \<Rightarrow> Inr None
      | Some v \<Rightarrow>
          if v < now then Inl (RastaError BUSINESS_RULE_VIOLATION ''A rule can be closed from now on, never in the past'')
          else if v \<le> validFrom then Inl (RastaError BUSINESS_RULE_VIOLATION ''validTo must be after validFrom'')
          else Inr (Some v))"

text \<open>
  The update's fields: absent, or present; \<open>validTo\<close> present may be null. The result names the columns
  it writes.
\<close>

record rule_change =
  ch_status :: "rule_status option"
  ch_validTo :: "int option option"

definition effectiveDatedChange ::
  "commission_rule \<Rightarrow> rule_status option \<Rightarrow> int option option \<Rightarrow> int \<Rightarrow> failure + rule_change"
where
  "effectiveDatedChange existing status validTo now =
     (let started = r_validFrom existing \<le> now;
          next = (\<lambda>st. case validTo of
                    None \<Rightarrow> Inr \<lparr>ch_status = st, ch_validTo = None\<rparr>
                  | Some requested \<Rightarrow>
                      bindE (nextValidTo (r_validFrom existing) (r_validTo existing) requested now) (\<lambda>v.
                      Inr \<lparr>ch_status = st, ch_validTo = Some v\<rparr>))
      in case status of
           None \<Rightarrow> next None
         | Some st \<Rightarrow>
             if st = r_status existing then next None
             else if st = R_INACTIVE then
               if \<not> started then next (Some R_INACTIVE)
               else if validTo \<noteq> None
               then Inl (RastaError BUSINESS_RULE_VIOLATION ''Ending a rule in force is one change'')
               else bindE (nextValidTo (r_validFrom existing) (r_validTo existing) (Some now) now) (\<lambda>v.
                    Inr \<lparr>ch_status = None, ch_validTo = Some v\<rparr>)
             else if started
             then Inl (RastaError BUSINESS_RULE_VIOLATION ''A withdrawn rule whose start has passed cannot be reinstated'')
             else next (Some R_ACTIVE))"

section \<open>The service\<close>

text \<open>What an obligation is priced by.\<close>

record pricing_input =
  pi_organizationId :: string
  pi_transactionType :: transaction_type
  pi_businessLine :: "business_line option"
  pi_occurredAt :: int
  pi_grossAmountMinor :: int
  pi_currency :: string

definition subject_of :: "pricing_input \<Rightarrow> commission_subject" where
  "subject_of i = \<lparr>su_organizationId = pi_organizationId i, su_businessLine = pi_businessLine i,
     su_transactionType = pi_transactionType i\<rparr>"

definition candidateRules :: "commission_subject \<Rightarrow> commission_rule list tx" where
  "candidateRules subject =
     getsM (\<lambda>s. filter (\<lambda>rule.
        (case su_businessLine subject of
           None \<Rightarrow> r_businessLine rule = None \<and> r_transactionType rule = Some (su_transactionType subject)
         | Some line \<Rightarrow> r_businessLine rule = Some line \<and>
             (r_transactionType rule = None \<or> r_transactionType rule = Some (su_transactionType subject))) \<and>
        r_status rule = R_ACTIVE \<and>
        (r_organizationId rule = None \<or> r_organizationId rule = Some (su_organizationId subject))) (rules s))"

definition read_linePricingFrom :: "int tx" where
  "read_linePricingFrom =
     bindM (getsM linePricingFrom) (\<lambda>row.
     case row of
       None \<Rightarrow> throwM (RastaError INTERNAL_ERROR ''The commission pricing cutover is not recorded'')
     | Some d \<Rightarrow> returnM d)"

definition decide :: "pricing_input \<Rightarrow> commission_decision tx" where
  "decide i =
     bindM read_linePricingFrom (\<lambda>cutover.
     let subject = pricingSubjectAt (subject_of i) (pi_occurredAt i) cutover in
     bindM (candidateRules subject) (\<lambda>rs.
     liftM (computeCommission rs subject (pi_occurredAt i) (pi_grossAmountMinor i) (pi_currency i))))"

definition decideAtSettlement ::
  "'a runtime_scheme \<Rightarrow> string \<Rightarrow> transaction_type \<Rightarrow> business_line \<Rightarrow> int \<Rightarrow> string \<Rightarrow> commission_decision tx"
where
  "decideAtSettlement rt org transactionType line grossAmountMinor cur =
     (let subject = \<lparr>su_organizationId = org, su_businessLine = Some line, su_transactionType = transactionType\<rparr> in
      bindM (databaseNow rt) (\<lambda>at.
      bindM (candidateRules subject) (\<lambda>rs.
      liftM (computeCommission rs subject at grossAmountMinor cur))))"

definition pricingOf :: "pricing_input \<Rightarrow> (commission_outcome \<times> string option) tx" where
  "pricingOf i = bindM (decide i) (\<lambda>decision. returnM (cd_outcome decision, cd_ruleId decision))"

definition chargeFor ::
  "pricing_input \<Rightarrow> commission_outcome option \<Rightarrow> string option \<Rightarrow> commission_decision tx"
where
  "chargeFor i pricingOutcome pricingRuleId =
     (case pricingOutcome of
        None \<Rightarrow> decide i
      | Some OUTCOME_NO_ACTIVE_RULE \<Rightarrow> returnM NO_ACTIVE_RULE_DECISION
      | Some RULE_APPLIED \<Rightarrow>
          (case pricingRuleId of
             None \<Rightarrow> throwM (RastaError INTERNAL_ERROR ''A transaction priced by a rule does not name the rule'')
           | Some ruleId \<Rightarrow>
               if ruleId = [] then throwM (RastaError INTERNAL_ERROR ''A transaction priced by a rule does not name the rule'')
               else bindM (getsM (\<lambda>s. find (\<lambda>r. r_id r = ruleId) (rules s))) (\<lambda>rule.
                    case rule of
                      None \<Rightarrow> throwM (RastaError INTERNAL_ERROR ''The rule a transaction was priced with is missing'')
                    | Some r \<Rightarrow> liftM (priceWithRule r (pi_grossAmountMinor i) (pi_currency i)))))"

text \<open>The commission row: one per transaction, \<open>ck_commission_amounts\<close>.\<close>

definition insert_commission :: "commission \<Rightarrow> unit tx" where
  "insert_commission c =
     bindM (getsM (\<lambda>s. \<exists>d\<in>set (commissions s). c_id d = c_id c \<or> c_transactionId d = c_transactionId c)) (\<lambda>taken.
     thenM (assertM (\<not> taken) (UniqueViolation ''commission''))
    (thenM (assertM (0 \<le> c_rateBasisPoints c \<and> c_rateBasisPoints c \<le> 10000 \<and> 0 < c_grossAmountMinor c \<and>
                     0 \<le> c_amountMinor c \<and> c_amountMinor c \<le> c_grossAmountMinor c)
             (ConstraintViolation ''ck_commission_amounts''))
           (modifyM (\<lambda>s. s\<lparr>commissions := commissions s @ [c]\<rparr>))))"

definition record_commission ::
  "'a runtime_scheme \<Rightarrow> string \<Rightarrow> string \<Rightarrow> business_line option \<Rightarrow> commission_decision \<Rightarrow> int \<Rightarrow> string \<Rightarrow>
     string \<Rightarrow> int \<Rightarrow> string tx"
where
  "record_commission rt transactionId org line decision grossAmountMinor cur journalId appliedAt =
     bindM (prefixed_ulid rt ''CMS'') (\<lambda>i.
     thenM (insert_commission \<lparr>c_id = i, c_organizationId = org, c_transactionId = transactionId,
         c_ruleId = cd_ruleId decision, c_businessLine = line, c_outcome = cd_outcome decision,
         c_rateBasisPoints = cd_rateBasisPoints decision, c_grossAmountMinor = grossAmountMinor,
         c_amountMinor = cd_amountMinor decision, c_currency = cur, c_journalId = journalId,
         c_appliedAt = appliedAt\<rparr>)
    (thenM (enqueue rt i org
         (CommissionApplied i transactionId org (cd_ruleId decision) line (cd_outcome decision)
            (cd_rateBasisPoints decision) (formatMinor grossAmountMinor)
            (formatMinor (cd_amountMinor decision)) cur appliedAt) None)
     (returnM i)))"

subsection \<open>Configuration\<close>

definition window_overlap :: "commission_rule \<Rightarrow> commission_rule \<Rightarrow> bool" where
  "window_overlap a b \<longleftrightarrow>
     (case r_validTo b of None \<Rightarrow> True | Some t \<Rightarrow> r_validFrom a < t) \<and>
     (case r_validTo a of None \<Rightarrow> True | Some t \<Rightarrow> r_validFrom b < t)"

definition same_scope :: "commission_rule \<Rightarrow> commission_rule \<Rightarrow> bool" where
  "same_scope a b \<longleftrightarrow>
     (case r_organizationId a of None \<Rightarrow> '''' | Some x \<Rightarrow> x) = (case r_organizationId b of None \<Rightarrow> '''' | Some x \<Rightarrow> x) \<and>
     r_businessLine a = r_businessLine b \<and> r_transactionType a = r_transactionType b"

text \<open>
  The checks of the row itself, and the three exclusion constraints
  (\<^verbatim>\<open>ex_commission_rule_*_no_overlap\<close>): two active rules of one scope share no instant.
\<close>

definition rule_row_ok :: "commission_rule \<Rightarrow> bool" where
  "rule_row_ok r \<longleftrightarrow>
     0 \<le> r_rateBasisPoints r \<and> r_rateBasisPoints r \<le> 10000 \<and>
     (case r_minAmountMinor r of None \<Rightarrow> True | Some m \<Rightarrow> 0 \<le> m) \<and>
     (case r_maxAmountMinor r of None \<Rightarrow> True | Some m \<Rightarrow> 0 \<le> m) \<and>
     (case (r_minAmountMinor r, r_maxAmountMinor r) of (Some lo, Some hi) \<Rightarrow> lo \<le> hi | _ \<Rightarrow> True) \<and>
     (case r_validTo r of None \<Rightarrow> True | Some t \<Rightarrow> r_validFrom r < t)"

definition no_overlap :: "commission_rule \<Rightarrow> commission_rule list \<Rightarrow> bool" where
  "no_overlap r rs \<longleftrightarrow>
     list_all (\<lambda>q. r_id q = r_id r \<or> r_status q \<noteq> R_ACTIVE \<or> r_status r \<noteq> R_ACTIVE \<or> \<not> same_scope q r \<or>
                   \<not> window_overlap q r) rs"

definition overlapAsConflict :: failure where
  "overlapAsConflict = RastaError CONFLICT ''An active rule for the same scope is already in force for part of this period''"

definition commissionRuleTerms :: "commission_rule \<Rightarrow> rule_terms" where
  "commissionRuleTerms r =
     \<lparr>rt_organizationId = r_organizationId r, rt_businessLine = r_businessLine r,
      rt_transactionType = r_transactionType r, rt_rateBasisPoints = r_rateBasisPoints r,
      rt_minAmountMinor = map_option formatMinor (r_minAmountMinor r),
      rt_maxAmountMinor = map_option formatMinor (r_maxAmountMinor r),
      rt_validFrom = r_validFrom r, rt_validTo = r_validTo r, rt_status = r_status r, rt_label = r_label r\<rparr>"

definition recordRuleChange ::
  "'a runtime_scheme \<Rightarrow> commission_rule \<Rightarrow> int \<Rightarrow> commission_rule option \<Rightarrow> string \<Rightarrow> unit tx"
where
  "recordRuleChange rt rule updatedAt prior actor =
     bindM (case r_organizationId rule of Some org \<Rightarrow> returnM org | None \<Rightarrow> liftM (getOrganizationId rt)) (\<lambda>org.
     enqueue rt (r_id rule) org
       (CommissionRuleChanged (r_id rule) (if prior = None then CHANGE_CREATED else CHANGE_UPDATED) actor
          updatedAt (map_option commissionRuleTerms prior) (commissionRuleTerms rule)) None)"

record create_rule_dto =
  cr_organizationId :: "string option"
  cr_businessLine :: business_line
  cr_transactionType :: "transaction_type option"
  cr_rateBasisPoints :: int
  cr_minAmountMinor :: "string option"
  cr_maxAmountMinor :: "string option"
  cr_validFrom :: "int option"
  cr_validTo :: "int option"
  cr_label :: "string option"

definition parse_bound :: "string option \<Rightarrow> failure + int option" where
  "parse_bound v =
     (case v of None \<Rightarrow> Inr None
      | Some text \<Rightarrow> if text = [] then Inr None else bindE (parseMinor text) (\<lambda>n. Inr (Some n)))"

definition createRule :: "'a runtime_scheme \<Rightarrow> create_rule_dto \<Rightarrow> commission_rule tx" where
  "createRule rt dto =
     (let actor = actor_name rt in
      bindM (prefixed_ulid rt ''CMR'') (\<lambda>i.
      transaction
       (bindM (databaseNow rt) (\<lambda>now.
        let validFrom = (case cr_validFrom dto of Some d \<Rightarrow> d | None \<Rightarrow> now); validTo = cr_validTo dto in
        thenM (assertM (\<not> validFrom < now)
                (RastaError BUSINESS_RULE_VIOLATION ''A rule starts now or later, never in the past''))
       (thenM (assertM (case validTo of Some t \<Rightarrow> \<not> t \<le> validFrom | None \<Rightarrow> True)
                (RastaError BUSINESS_RULE_VIOLATION ''validTo must be after validFrom''))
       (bindM (liftM (parse_bound (cr_minAmountMinor dto))) (\<lambda>minAmount.
        bindM (liftM (parse_bound (cr_maxAmountMinor dto))) (\<lambda>maxAmount.
        let rule = \<lparr>r_id = i, r_organizationId = cr_organizationId dto, r_businessLine = Some (cr_businessLine dto),
              r_transactionType = cr_transactionType dto, r_rateBasisPoints = cr_rateBasisPoints dto,
              r_minAmountMinor = minAmount, r_maxAmountMinor = maxAmount, r_validFrom = validFrom,
              r_validTo = validTo, r_status = R_ACTIVE, r_label = cr_label dto, r_createdBy = actor,
              r_updatedBy = actor\<rparr> in
        bindM (getsM rules) (\<lambda>existing.
        thenM (assertM (i \<notin> r_id ` set existing) (UniqueViolation ''commission_rule_pkey''))
       (thenM (assertM (rule_row_ok rule) (ConstraintViolation ''ck_commission_rule''))
       (thenM (assertM (no_overlap rule existing) overlapAsConflict)
       (thenM (modifyM (\<lambda>s. s\<lparr>rules := rules s @ [rule]\<rparr>))
       (bindM (hostDate rt) (\<lambda>updatedAt.
        thenM (recordRuleChange rt rule updatedAt None actor) (returnM rule)))))))))))))))"

record update_rule_dto =
  ur_status :: "rule_status option"
  ur_validTo :: "int option option"
  ur_label :: "string option"

definition apply_change :: "rule_change \<Rightarrow> string option \<Rightarrow> string \<Rightarrow> commission_rule \<Rightarrow> commission_rule" where
  "apply_change change label actor r =
     r\<lparr>r_status := (case ch_status change of Some st \<Rightarrow> st | None \<Rightarrow> r_status r),
       r_validTo := (case ch_validTo change of Some v \<Rightarrow> v | None \<Rightarrow> r_validTo r),
       r_label := (case label of Some l \<Rightarrow> Some l | None \<Rightarrow> r_label r),
       r_updatedBy := actor\<rparr>"

definition updateRule :: "'a runtime_scheme \<Rightarrow> string \<Rightarrow> update_rule_dto \<Rightarrow> commission_rule tx" where
  "updateRule rt i dto =
     (let actor = actor_name rt in
      transaction
       (bindM (getsM (\<lambda>s. find (\<lambda>r. r_id r = i) (rules s))) (\<lambda>locked.
        case locked of
          None \<Rightarrow> throwM (RastaError NOT_FOUND ''CommissionRule'')
        | Some existing \<Rightarrow>
            bindM (databaseNow rt) (\<lambda>now.
            bindM (liftM (effectiveDatedChange existing (ur_status dto) (ur_validTo dto) now)) (\<lambda>change.
            let updated = apply_change change (ur_label dto) actor existing in
            bindM (getsM rules) (\<lambda>rs.
            thenM (assertM (rule_row_ok updated) (ConstraintViolation ''ck_commission_rule''))
           (thenM (assertM (no_overlap updated rs) overlapAsConflict)
           (thenM (modifyM (\<lambda>s. s\<lparr>rules := map (\<lambda>r. if r_id r = i then updated else r) (rules s)\<rparr>))
           (bindM (hostDate rt) (\<lambda>updatedAt.
            thenM (recordRuleChange rt updated updatedAt (Some existing) actor) (returnM updated))))))))))) "

end
