(* ===== verification/Access.thy ===== *)
theory Access
  imports Ledger
begin

text \<open>
  Object-level authorization: \<^verbatim>\<open>access/access.ts\<close>. Whether a caller may act on one record, from the
  verified request context, the record and, for a union administrator, organization-service's
  answer about its hierarchy (\<open>withinVersion\<close>, an outside source asked once per read).
\<close>

abbreviation ROLE_SYSTEM_ADMIN :: string where "ROLE_SYSTEM_ADMIN \<equiv> ''SYSTEM_ADMIN''"
abbreviation ROLE_UNION_ADMIN :: string where "ROLE_UNION_ADMIN \<equiv> ''UNION_ADMIN''"

definition FINANCIAL_ADMIN_ROLES :: "string list" where
  "FINANCIAL_ADMIN_ROLES = [ROLE_SYSTEM_ADMIN, ROLE_UNION_ADMIN, ''ORGANIZATION_ADMIN'']"

definition PLATFORM_ROLES :: "string list" where
  "PLATFORM_ROLES = [ROLE_SYSTEM_ADMIN, ROLE_UNION_ADMIN]"

definition forbidden :: "string \<Rightarrow> failure" where
  "forbidden tag = RastaError FORBIDDEN tag"

definition isAuditor :: "'a request_context_scheme \<Rightarrow> bool" where
  "isAuditor c \<longleftrightarrow> ''AUDITOR'' \<in> set (roles c)"

definition assertNotAuditor :: "'a request_context_scheme \<Rightarrow> failure + unit" where
  "assertNotAuditor c = assertE (\<not> isAuditor c) (forbidden ''The oversight role has aggregate access only'')"

definition hasPlatformScope :: "'a request_context_scheme \<Rightarrow> bool" where
  "hasPlatformScope c \<longleftrightarrow>
     (if authType c = SERVICE then False else list_ex (\<lambda>r. r \<in> set (roles c)) PLATFORM_ROLES)"

definition assertPlatformScope :: "'a request_context_scheme \<Rightarrow> failure + unit" where
  "assertPlatformScope c =
     bindE (assertNotAuditor c) (\<lambda>_.
     assertE (hasPlatformScope c) (forbidden ''available to platform administrators only''))"

definition isFinancialAdmin :: "'a request_context_scheme \<Rightarrow> bool" where
  "isFinancialAdmin c \<longleftrightarrow> list_ex (\<lambda>r. r \<in> set (roles c)) FINANCIAL_ADMIN_ROLES"

definition canCommitOrganization :: "'a request_context_scheme \<Rightarrow> string \<Rightarrow> failure + unit" where
  "canCommitOrganization c org =
     bindE (assertNotAuditor c) (\<lambda>_.
     bindE (assertE (authType c = SERVICE \<or> isFinancialAdmin c)
              (forbidden ''You do not have permission to commit this organization financially'')) (\<lambda>_.
     bindE (getOrganizationId c) (\<lambda>own.
     assertE (own = org \<or> hasPlatformScope c) (RastaError TENANT_MISMATCH ''''))))"

datatype financial_command =
    CMD_SETTLE | CMD_AUTHORISE_SETTLEMENT | CMD_DISPUTE | CMD_RESOLVE_DISPUTE | CMD_CANCEL | CMD_REFUND

datatype authority_basis = OWN_ORGANIZATION | BASIS_PAYEE | BASIS_SYSTEM_ADMIN | UNION_SUBTREE

record financial_authority =
  fa_command :: financial_command
  fa_basis :: authority_basis
  fa_actor :: string
  fa_actingOrganizationId :: string
  fa_booksOrganizationId :: string
  fa_hierarchyVersion :: "int option"

definition actorOf :: "'a request_context_scheme \<Rightarrow> string" where
  "actorOf c =
     (case userId c of Some u \<Rightarrow> u
      | None \<Rightarrow> (case callerService c of Some v \<Rightarrow> v | None \<Rightarrow> ''(unknown)''))"

definition financialAuthority ::
  "'a request_context_scheme \<Rightarrow> financial_command \<Rightarrow> authority_basis \<Rightarrow> string \<Rightarrow> int option \<Rightarrow>
     failure + financial_authority"
where
  "financialAuthority c command basis books version =
     bindE (getOrganizationId c) (\<lambda>acting.
     Inr \<lparr>fa_command = command, fa_basis = basis, fa_actor = actorOf c,
          fa_actingOrganizationId = acting, fa_booksOrganizationId = books,
          fa_hierarchyVersion = version\<rparr>)"

definition outsideUnionRefused :: failure where
  "outsideUnionRefused = forbidden ''limited to the organizations within your unions subtree''"

text \<open>One question to organization-service: within the union at some hierarchy version, not within it,
  or could not confirm (an error, so nothing is written).\<close>

definition ask_hierarchy :: "'a runtime_scheme \<Rightarrow> string \<Rightarrow> string \<Rightarrow> int option tx" where
  "ask_hierarchy rt unionId org =
     bindM next_tick (\<lambda>n. liftM (withinVersion rt n unionId org))"

definition canActFinanciallyFor ::
  "'a runtime_scheme \<Rightarrow> financial_command \<Rightarrow> string \<Rightarrow> financial_authority tx"
where
  "canActFinanciallyFor rt command books =
     thenM (liftM (canCommitOrganization rt books))
    (bindM (liftM (getOrganizationId rt)) (\<lambda>acting.
     if acting = books then liftM (financialAuthority rt command OWN_ORGANIZATION books None)
     else if authType rt \<noteq> SERVICE \<and> ROLE_SYSTEM_ADMIN \<in> set (roles rt)
          then liftM (financialAuthority rt command BASIS_SYSTEM_ADMIN books None)
     else if authType rt \<noteq> SERVICE \<and> ROLE_UNION_ADMIN \<in> set (roles rt)
          then bindM (ask_hierarchy rt acting books) (\<lambda>within.
               case within of
                 Some version \<Rightarrow> liftM (financialAuthority rt command UNION_SUBTREE books (Some version))
               | None \<Rightarrow> throwM outsideUnionRefused)
     else throwM outsideUnionRefused))"

definition reconfirmFinancialAuthority ::
  "'a runtime_scheme \<Rightarrow> financial_authority \<Rightarrow> financial_authority tx"
where
  "reconfirmFinancialAuthority rt authority =
     (if fa_basis authority \<noteq> UNION_SUBTREE then returnM authority
      else bindM (ask_hierarchy rt (fa_actingOrganizationId authority) (fa_booksOrganizationId authority)) (\<lambda>within.
           case within of
             Some version \<Rightarrow> returnM (authority\<lparr>fa_hierarchyVersion := Some version\<rparr>)
           | None \<Rightarrow> throwM outsideUnionRefused))"

definition settlementBooks ::
  "'a runtime_scheme \<Rightarrow> string \<Rightarrow> (financial_authority \<times> settlement_books option) tx"
where
  "settlementBooks rt payer =
     bindM (canActFinanciallyFor rt CMD_SETTLE payer) (\<lambda>authority.
     if fa_basis authority = OWN_ORGANIZATION then returnM (authority, None)
     else if fa_basis authority \<noteq> BASIS_SYSTEM_ADMIN \<and> fa_basis authority \<noteq> UNION_SUBTREE
          then throwM outsideUnionRefused
     else returnM (authority, Some \<lparr>sb_organizationId = payer,
            sb_actingOrganizationId = fa_actingOrganizationId authority, sb_issued = True\<rparr>))"

definition assertTransactionVisible :: "'a request_context_scheme \<Rightarrow> obligation \<Rightarrow> failure + unit" where
  "assertTransactionVisible c t =
     bindE (assertNotAuditor c) (\<lambda>_.
     bindE (getOrganizationId c) (\<lambda>caller.
     assertE (t_organizationId t = caller \<or> t_counterpartyOrganizationId t = Some caller \<or> hasPlatformScope c)
       (RastaError NOT_FOUND ''Transaction'')))"

definition assertMayRefund :: "'a runtime_scheme \<Rightarrow> obligation \<Rightarrow> financial_authority tx" where
  "assertMayRefund rt t =
     thenM (liftM (assertTransactionVisible rt t))
    (bindM (liftM (getOrganizationId rt)) (\<lambda>acting.
     let payer = t_organizationId t; isPayee = (t_counterpartyOrganizationId t = Some acting) in
     if authType rt = SERVICE
     then liftM (financialAuthority rt CMD_REFUND (if isPayee then BASIS_PAYEE else OWN_ORGANIZATION) payer None)
     else thenM (assertM (acting \<noteq> payer) (forbidden ''The payer cannot refund its own transaction''))
         (if isPayee \<and> isFinancialAdmin rt \<and> ECONOMIC_REFUND_BY_PAYEE_ENABLED rt \<and> t_status t \<noteq> DISPUTED
          then liftM (financialAuthority rt CMD_REFUND BASIS_PAYEE payer None)
          else if hasPlatformScope rt then canActFinanciallyFor rt CMD_REFUND payer
          else if t_status t = DISPUTED
          then throwM (forbidden ''A disputed transaction is refunded only by a platform decision on the dispute'')
          else throwM (forbidden ''You do not have permission to refund this transaction''))))"

definition ORDER_OBLIGATION_TYPE :: transaction_type where
  "ORDER_OBLIGATION_TYPE = MARKETPLACE_ORDER"

definition ORDER_DISPUTE_SERVICE :: string where
  "ORDER_DISPUTE_SERVICE = ''marketplace-service''"

definition assertMayDisputeDirectly :: "'a request_context_scheme \<Rightarrow> obligation \<Rightarrow> failure + unit" where
  "assertMayDisputeDirectly c t =
     (if t_transactionType t \<noteq> ORDER_OBLIGATION_TYPE then Inr ()
      else if authType c = SERVICE \<and> callerService c = Some ORDER_DISPUTE_SERVICE then Inr ()
      else Inl (RastaError BUSINESS_RULE_VIOLATION ''disputed and resolved only through the order''))"

definition assertWalletVisible :: "'a request_context_scheme \<Rightarrow> wallet \<Rightarrow> failure + unit" where
  "assertWalletVisible c w =
     bindE (assertNotAuditor c) (\<lambda>_.
     bindE (getOrganizationId c) (\<lambda>own.
     assertE (w_organizationId w = own \<or> hasPlatformScope c) (RastaError NOT_FOUND ''Wallet'')))"

section \<open>Facts\<close>

lemma canCommitOrganization_Inr:
  "canCommitOrganization c org = Inr u \<longleftrightarrow>
     \<not> isAuditor c \<and> (authType c = SERVICE \<or> isFinancialAdmin c) \<and>
     (\<exists>own. getOrganizationId c = Inr own \<and> (own = org \<or> hasPlatformScope c))"
  by (auto simp: canCommitOrganization_def assertNotAuditor_def bindE_Inr)

lemma financialAuthority_Inr:
  "financialAuthority c cmd basis books v = Inr fa \<longleftrightarrow>
     (\<exists>acting. getOrganizationId c = Inr acting \<and>
        fa = \<lparr>fa_command = cmd, fa_basis = basis, fa_actor = actorOf c, fa_actingOrganizationId = acting,
              fa_booksOrganizationId = books, fa_hierarchyVersion = v\<rparr>)"
  by (auto simp: financialAuthority_def bindE_Inr)

text \<open>On what grounds a financial command is admitted.\<close>

definition grounds :: "'a runtime_scheme \<Rightarrow> financial_authority \<Rightarrow> nat \<Rightarrow> bool" where
  "grounds rt fa n \<longleftrightarrow>
     (case fa_basis fa of
        OWN_ORGANIZATION \<Rightarrow> fa_actingOrganizationId fa = fa_booksOrganizationId fa
      | BASIS_PAYEE \<Rightarrow> True
      | BASIS_SYSTEM_ADMIN \<Rightarrow> authType rt \<noteq> SERVICE \<and> ROLE_SYSTEM_ADMIN \<in> set (roles rt)
      | UNION_SUBTREE \<Rightarrow> authType rt \<noteq> SERVICE \<and> ROLE_UNION_ADMIN \<in> set (roles rt) \<and>
          (\<exists>v. fa_hierarchyVersion fa = Some v \<and>
            withinVersion rt n (fa_actingOrganizationId fa) (fa_booksOrganizationId fa) = Inr (Some v)))"

lemma canActFinanciallyFor_Inr:
  assumes "canActFinanciallyFor rt cmd books s = Inr (fa, s')"
  shows "\<not> isAuditor rt \<and> (authType rt = SERVICE \<or> isFinancialAdmin rt) \<and>
    getOrganizationId rt = Inr (fa_actingOrganizationId fa) \<and> fa_booksOrganizationId fa = books \<and>
    fa_basis fa \<noteq> BASIS_PAYEE \<and> grounds rt fa (ticks s) \<and> (\<exists>n. s' = s\<lparr>ticks := n\<rparr>)"
proof -
  have tk: "\<exists>n. s = s\<lparr>ticks := n\<rparr>" by (rule exI [of _ "ticks s"]) simp
  from assms obtain acting where
    c: "\<not> isAuditor rt" "authType rt = SERVICE \<or> isFinancialAdmin rt" "getOrganizationId rt = Inr acting"
    and r: "(if acting = books then liftM (financialAuthority rt cmd OWN_ORGANIZATION books None)
     else if authType rt \<noteq> SERVICE \<and> ROLE_SYSTEM_ADMIN \<in> set (roles rt)
          then liftM (financialAuthority rt cmd BASIS_SYSTEM_ADMIN books None)
     else if authType rt \<noteq> SERVICE \<and> ROLE_UNION_ADMIN \<in> set (roles rt)
          then bindM (ask_hierarchy rt acting books) (\<lambda>within.
               case within of
                 Some version \<Rightarrow> liftM (financialAuthority rt cmd UNION_SUBTREE books (Some version))
               | None \<Rightarrow> throwM outsideUnionRefused)
     else throwM outsideUnionRefused) s = Inr (fa, s')"
    by (auto simp: canActFinanciallyFor_def action_Inr canCommitOrganization_Inr)
  from r c show ?thesis
    using tk
    by (auto simp: action_Inr financialAuthority_Inr grounds_def ask_hierarchy_def next_tick_Inr split: if_splits)
qed

lemma unchanged_access [unchanged_rules]:
  assumes "tickless f"
  shows "unchanged f (canActFinanciallyFor rt cmd books)" "unchanged f (reconfirmFinancialAuthority rt fa)"
    "unchanged f (settlementBooks rt payer)" "unchanged f (assertMayRefund rt t)"
  unfolding settlementBooks_def canActFinanciallyFor_def reconfirmFinancialAuthority_def assertMayRefund_def
    ask_hierarchy_def Let_def
  by (intro unchanged_rules assms)+

section \<open>Properties\<close>

text \<open>A concrete request: one person of one organization.\<close>

definition example_request :: "string \<Rightarrow> string list \<Rightarrow> runtime" where
  "example_request org rs = \<lparr>correlationId = ''corr'', organizationId = Some org, userId = Some ''USR_1'',
     roles = rs, authType = USER, callerService = None, isUnscoped = False,
     ECONOMIC_PLATFORM_ORGANIZATION_ID = ''ORG_P'', ECONOMIC_SETTLEMENT_REQUIRE_COMMISSION_RULE = True,
     ECONOMIC_REFUND_BY_PAYEE_ENABLED = True, ulid = (\<lambda>n. replicate n CHR ''x''), new_Date = int,
     clock_timestamp = int, gen_random_uuid = (\<lambda>n. replicate n CHR ''x''),
     withinVersion = (\<lambda>n u o'. Inr (Some 7))\<rparr>"

text \<open>The oversight role never gets past an object check: a caller who holds AUDITOR, whatever else
  it holds, is refused with FORBIDDEN by every one of them: committing an organization, acting
  financially for one, taking settlement books, seeing a transaction or a wallet, refunding.\<close>

theorem auditor_refused:
  assumes "isAuditor (rt :: runtime)"
  shows "\<exists>tag. canCommitOrganization rt org = Inl (RastaError FORBIDDEN tag) \<and>
    canActFinanciallyFor rt cmd org s = Inl (RastaError FORBIDDEN tag) \<and>
    settlementBooks rt org s = Inl (RastaError FORBIDDEN tag) \<and>
    assertTransactionVisible rt t = Inl (RastaError FORBIDDEN tag) \<and>
    assertWalletVisible rt w = Inl (RastaError FORBIDDEN tag) \<and>
    assertMayRefund rt t s = Inl (RastaError FORBIDDEN tag) \<and>
    assertPlatformScope rt = Inl (RastaError FORBIDDEN tag)"
  using assms
  by (simp add: canCommitOrganization_def assertNotAuditor_def assertE_def forbidden_def action_simps
      canActFinanciallyFor_def settlementBooks_def assertTransactionVisible_def assertWalletVisible_def
      assertMayRefund_def assertPlatformScope_def)

theorem auditor_refused_witness:
  "isAuditor (example_request ''ORG_A'' [''SYSTEM_ADMIN'', ''AUDITOR'']) \<and>
   (\<exists>tag. canCommitOrganization (example_request ''ORG_A'' [''SYSTEM_ADMIN'', ''AUDITOR'']) ''ORG_B'' =
      Inl (RastaError FORBIDDEN tag))"
proof -
  have a: "isAuditor (example_request ''ORG_A'' [''SYSTEM_ADMIN'', ''AUDITOR''])"
    by (simp add: isAuditor_def example_request_def)
  from a auditor_refused [OF a, of "''ORG_B''"] show ?thesis by blast
qed

text \<open>C39. On what grounds money of an organization is committed. When a financial command on the books of
  an organization is admitted, the caller is a service or a financial administrator and not an
  auditor, the authority names the caller's own organization as acting and these books, and it rests
  on one of three grounds: the books are its own; a person who is SYSTEM_ADMIN; a person who is
  UNION_ADMIN and organization-service answered, to a question asked by this call, that the books are
  within the caller's union at the recorded hierarchy version. Nothing is written.\<close>

theorem financial_authority_grounds:
  assumes "canActFinanciallyFor rt cmd books s = Inr (fa, s')"
  shows "\<not> isAuditor rt \<and> (authType rt = SERVICE \<or> isFinancialAdmin rt) \<and>
    getOrganizationId rt = Inr (fa_actingOrganizationId fa) \<and> fa_booksOrganizationId fa = books \<and>
    fa_basis fa \<noteq> BASIS_PAYEE \<and> grounds rt fa (ticks s) \<and> (\<exists>n. s' = s\<lparr>ticks := n\<rparr>)"
  using assms by (rule canActFinanciallyFor_Inr)

theorem financial_authority_grounds_witness:
  "\<exists>fa s'. canActFinanciallyFor (example_request ''ORG_U'' [''UNION_ADMIN'']) CMD_SETTLE ''ORG_B'' empty_db = Inr (fa, s') \<and>
     fa_basis fa = UNION_SUBTREE \<and> grounds (example_request ''ORG_U'' [''UNION_ADMIN'']) fa 0"
proof -
  let ?rt = "example_request ''ORG_U'' [''UNION_ADMIN'']"
  let ?fa = "\<lparr>fa_command = CMD_SETTLE, fa_basis = UNION_SUBTREE, fa_actor = ''USR_1'',
    fa_actingOrganizationId = ''ORG_U'', fa_booksOrganizationId = ''ORG_B'', fa_hierarchyVersion = Some 7\<rparr>"
  have r: "canActFinanciallyFor ?rt CMD_SETTLE ''ORG_B'' empty_db = Inr (?fa, empty_db\<lparr>ticks := 1\<rparr>)"
    by (simp add: canActFinanciallyFor_def canCommitOrganization_def assertNotAuditor_def isAuditor_def
        isFinancialAdmin_def FINANCIAL_ADMIN_ROLES_def hasPlatformScope_def PLATFORM_ROLES_def
        getOrganizationId_def assertE_def ask_hierarchy_def next_tick_def financialAuthority_def actorOf_def
        example_request_def action_simps empty_db_def)
  from financial_authority_grounds [OF r] r show ?thesis by (auto simp: empty_db_def)
qed

text \<open>Who gives money back. A person admitted to a refund never acts for the payer; it is either a
  financial administrator of the payee, with payee refunds switched on and the transaction not
  disputed, or somebody of platform scope acting on the payer's books on proper grounds. So nobody
  decides a dispute between two parties from one of the two sides without platform scope.\<close>

theorem refund_never_by_payer:
  assumes "authType rt \<noteq> SERVICE" and "assertMayRefund rt t s = Inr (fa, s')"
  shows "getOrganizationId rt = Inr (fa_actingOrganizationId fa) \<and>
    fa_actingOrganizationId fa \<noteq> t_organizationId t \<and> fa_booksOrganizationId fa = t_organizationId t \<and>
    (if fa_basis fa = BASIS_PAYEE
     then t_counterpartyOrganizationId t = Some (fa_actingOrganizationId fa) \<and> isFinancialAdmin rt \<and>
       ECONOMIC_REFUND_BY_PAYEE_ENABLED rt \<and> t_status t \<noteq> DISPUTED
     else hasPlatformScope rt \<and> fa_basis fa \<in> {BASIS_SYSTEM_ADMIN, UNION_SUBTREE} \<and> grounds rt fa (ticks s))"
proof -
  from assms obtain acting where a: "getOrganizationId rt = Inr acting" "acting \<noteq> t_organizationId t"
    and r: "(if t_counterpartyOrganizationId t = Some acting \<and> isFinancialAdmin rt \<and>
               ECONOMIC_REFUND_BY_PAYEE_ENABLED rt \<and> t_status t \<noteq> DISPUTED
          then liftM (financialAuthority rt CMD_REFUND BASIS_PAYEE (t_organizationId t) None)
          else if hasPlatformScope rt then canActFinanciallyFor rt CMD_REFUND (t_organizationId t)
          else if t_status t = DISPUTED
          then throwM (forbidden ''A disputed transaction is refunded only by a platform decision on the dispute'')
          else throwM (forbidden ''You do not have permission to refund this transaction'')) s = Inr (fa, s')"
    by (auto simp: assertMayRefund_def action_Inr Let_def)
  consider (payee) "t_counterpartyOrganizationId t = Some acting" "isFinancialAdmin rt"
      "ECONOMIC_REFUND_BY_PAYEE_ENABLED rt" "t_status t \<noteq> DISPUTED"
      "financialAuthority rt CMD_REFUND BASIS_PAYEE (t_organizationId t) None = Inr fa"
    | (platform) "hasPlatformScope rt" "canActFinanciallyFor rt CMD_REFUND (t_organizationId t) s = Inr (fa, s')"
    using r by (auto simp: liftM_Inr split: if_splits)
  then show ?thesis
  proof cases
    case payee
    then show ?thesis using a by (auto simp: financialAuthority_Inr)
  next
    case platform
    note g = canActFinanciallyFor_Inr [OF platform(2)]
    with a have "fa_basis fa \<noteq> OWN_ORGANIZATION" by (auto simp: grounds_def)
    with g a platform(1) show ?thesis by (cases "fa_basis fa") auto
  qed
qed

definition example_obligation :: obligation where
  "example_obligation = \<lparr>t_id = ''TXN_1'', t_organizationId = ''ORG_A'',
     t_counterpartyOrganizationId = Some ''ORG_B'', t_transactionType = MARKETPLACE_ORDER,
     t_businessLine = Some LINE_PARTS, t_status = HELD, t_pricingOutcome = None, t_pricingRuleId = None,
     t_grossAmountMinor = 5, t_commissionAmountMinor = 0, t_netAmountMinor = 0, t_currency = ''IRR'',
     t_occurredAt = 0, t_sourceType = None, t_sourceReference = None, t_idempotencyKey = None,
     t_correlationId = ''corr'', t_causationId = None, t_disputeId = None, t_disputedAt = None,
     t_disputedBy = None, t_disputeReason = None, t_disputeResolvedAt = None, t_disputeResolvedBy = None,
     t_disputeResolution = None, t_resolvedDisputeId = None, t_settlementAuthorisedAt = None, t_settlementAuthorisedBy = None,
     t_settlementAuthorisedService = None, t_settlementAuthorisationKey = None, t_heldAt = Some 1,
     t_settledAt = None, t_failureReason = None, t_cancelledAt = None, t_cancelledBy = None,
     t_refundedAt = None, t_refundedBy = None, t_createdBy = ''USR_1''\<rparr>"

theorem refund_never_by_payer_witness:
  "\<exists>fa s'. assertMayRefund (example_request ''ORG_B'' [''ORGANIZATION_ADMIN'']) example_obligation empty_db = Inr (fa, s') \<and>
     fa_basis fa = BASIS_PAYEE \<and> fa_actingOrganizationId fa \<noteq> t_organizationId example_obligation"
proof -
  let ?rt = "example_request ''ORG_B'' [''ORGANIZATION_ADMIN'']"
  let ?fa = "\<lparr>fa_command = CMD_REFUND, fa_basis = BASIS_PAYEE, fa_actor = ''USR_1'',
    fa_actingOrganizationId = ''ORG_B'', fa_booksOrganizationId = ''ORG_A'', fa_hierarchyVersion = None\<rparr>"
  have r: "assertMayRefund ?rt example_obligation empty_db = Inr (?fa, empty_db)"
    by (simp add: assertMayRefund_def assertTransactionVisible_def assertNotAuditor_def isAuditor_def Let_def
        isFinancialAdmin_def FINANCIAL_ADMIN_ROLES_def getOrganizationId_def assertE_def
        financialAuthority_def actorOf_def example_request_def example_obligation_def action_simps)
  have "authType ?rt \<noteq> SERVICE" by (simp add: example_request_def)
  from refund_never_by_payer [OF this r] r show ?thesis by auto
qed

end
