(* ===== verification/StateMachine.thy ===== *)
theory StateMachine
  imports Store
begin

text \<open>
  The transaction lifecycle: \<^verbatim>\<open>transaction/state-machine.ts\<close>. The table, the two targets that depend
  on recorded facts, and what follows for whole lives of a transaction (\<open>life\<close>: a sequence of
  accepted moves).
\<close>

datatype transaction_event =
    HOLD_PLACED | AUTHORISE_SETTLEMENT | SETTLE | REFUND | CANCEL | FAIL | DISPUTE
  | RESOLVE_DISPUTE | REVERSE_SETTLEMENT

datatype target = To transaction_status | BY_AUTHORITY | BY_REVERSED_AMOUNT

definition RESOLUTION_TARGETS :: "transaction_status list" where
  "RESOLUTION_TARGETS = [HELD, PENDING_SETTLEMENT]"

fun TRANSITIONS :: "transaction_status \<Rightarrow> transaction_event \<Rightarrow> target option" where
  "TRANSITIONS CREATED HOLD_PLACED = Some (To HELD)"
| "TRANSITIONS CREATED AUTHORISE_SETTLEMENT = Some (To PENDING_SETTLEMENT)"
| "TRANSITIONS CREATED CANCEL = Some (To CANCELLED)"
| "TRANSITIONS CREATED FAIL = Some (To FAILED)"
| "TRANSITIONS HELD AUTHORISE_SETTLEMENT = Some (To PENDING_SETTLEMENT)"
| "TRANSITIONS HELD REFUND = Some (To REFUNDED)"
| "TRANSITIONS HELD DISPUTE = Some (To DISPUTED)"
| "TRANSITIONS PENDING_SETTLEMENT SETTLE = Some (To SETTLED)"
| "TRANSITIONS PENDING_SETTLEMENT DISPUTE = Some (To DISPUTED)"
| "TRANSITIONS PENDING_SETTLEMENT REFUND = Some (To REFUNDED)"
| "TRANSITIONS DISPUTED RESOLVE_DISPUTE = Some BY_AUTHORITY"
| "TRANSITIONS DISPUTED REFUND = Some (To REFUNDED)"
| "TRANSITIONS SETTLED REVERSE_SETTLEMENT = Some BY_REVERSED_AMOUNT"
| "TRANSITIONS PARTIALLY_REVERSED REVERSE_SETTLEMENT = Some BY_REVERSED_AMOUNT"
| "TRANSITIONS _ _ = None"

definition TERMINAL_STATUSES :: "transaction_status list" where
  "TERMINAL_STATUSES = [REVERSED, REFUNDED, CANCELLED, FAILED]"

definition isTerminal :: "transaction_status \<Rightarrow> bool" where
  "isTerminal status \<longleftrightarrow> status \<in> set TERMINAL_STATUSES"

definition canTransition :: "transaction_status \<Rightarrow> transaction_event \<Rightarrow> bool" where
  "canTransition from event \<longleftrightarrow> TRANSITIONS from event \<noteq> None"

record settlement_authority =
  settlementAuthorised :: bool
  fundsHeld :: bool
  settlementBarred :: bool

definition isSettlementReady :: "settlement_authority \<Rightarrow> bool" where
  "isSettlementReady authority \<longleftrightarrow>
     \<not> settlementBarred authority \<and> (settlementAuthorised authority \<or> \<not> fundsHeld authority)"

definition resolvedStatus :: "settlement_authority \<Rightarrow> transaction_status" where
  "resolvedStatus authority = (if isSettlementReady authority then PENDING_SETTLEMENT else HELD)"

definition STATEMENT_SOURCE_TYPE :: string where
  "STATEMENT_SOURCE_TYPE = ''STATEMENT''"

definition assertSettlementReady :: "settlement_authority \<Rightarrow> string option \<Rightarrow> failure + unit" where
  "assertSettlementReady authority sourceType =
     (if settlementBarred authority
      then Inl (RastaError INVALID_STATE_TRANSITION
                 (if sourceType = Some STATEMENT_SOURCE_TYPE then ''STATEMENT_SETTLEMENT_BARRED''
                  else ''SETTLEMENT_BARRED''))
      else if isSettlementReady authority then Inr ()
      else Inl (RastaError INVALID_STATE_TRANSITION ''cannot be settled before its settlement is authorised''))"

record reversal_progress =
  settlementGrossMinor :: int
  reversedGrossMinor :: int

definition reversedStatus :: "reversal_progress \<Rightarrow> failure + transaction_status" where
  "reversedStatus progress =
     (if reversedGrossMinor progress \<le> 0 \<or> reversedGrossMinor progress > settlementGrossMinor progress
      then Inl (RastaError INVALID_STATE_TRANSITION ''reversed by more than nothing and by no more than it settled'')
      else Inr (if reversedGrossMinor progress = settlementGrossMinor progress then REVERSED
                else PARTIALLY_REVERSED))"

datatype facts = No_Facts | Authority settlement_authority | Progress reversal_progress

definition nextStatus :: "transaction_status \<Rightarrow> transaction_event \<Rightarrow> facts \<Rightarrow> failure + transaction_status" where
  "nextStatus from event fs =
     (case TRANSITIONS from event of
        None \<Rightarrow> Inl (RastaError INVALID_STATE_TRANSITION ''cannot'')
      | Some BY_REVERSED_AMOUNT \<Rightarrow>
          (case fs of Progress p \<Rightarrow> reversedStatus p
           | _ \<Rightarrow> Inl (PlainError ''reversing a settlement needs its progress''))
      | Some (To status) \<Rightarrow> Inr status
      | Some BY_AUTHORITY \<Rightarrow>
          (case fs of Authority a \<Rightarrow> Inr (resolvedStatus a)
           | _ \<Rightarrow> Inl (PlainError ''resolving a dispute needs its settlement authority'')))"

definition attractsCommission :: "transaction_type \<Rightarrow> bool" where
  "attractsCommission t \<longleftrightarrow> t \<noteq> TYPE_WALLET_TOP_UP"

section \<open>Facts\<close>

lemma TRANSITIONS_cases:
  "TRANSITIONS from event = Some t \<Longrightarrow>
     (from, event, t) \<in> {(CREATED, HOLD_PLACED, To HELD), (CREATED, AUTHORISE_SETTLEMENT, To PENDING_SETTLEMENT),
       (CREATED, CANCEL, To CANCELLED), (CREATED, FAIL, To FAILED),
       (HELD, AUTHORISE_SETTLEMENT, To PENDING_SETTLEMENT), (HELD, REFUND, To REFUNDED), (HELD, DISPUTE, To DISPUTED),
       (PENDING_SETTLEMENT, SETTLE, To SETTLED), (PENDING_SETTLEMENT, DISPUTE, To DISPUTED),
       (PENDING_SETTLEMENT, REFUND, To REFUNDED), (DISPUTED, RESOLVE_DISPUTE, BY_AUTHORITY),
       (DISPUTED, REFUND, To REFUNDED), (SETTLED, REVERSE_SETTLEMENT, BY_REVERSED_AMOUNT),
       (PARTIALLY_REVERSED, REVERSE_SETTLEMENT, BY_REVERSED_AMOUNT)}"
  by (cases "from"; cases event) simp_all

lemma reversedStatus_Inr: "reversedStatus p = Inr st \<Longrightarrow> st \<in> {REVERSED, PARTIALLY_REVERSED}"
  by (auto simp: reversedStatus_def split: if_splits)

lemma nextStatus_Inr:
  assumes "nextStatus from event fs = Inr to"
  shows "(\<exists>t. TRANSITIONS from event = Some t \<and>
     (t = To to \<or> (t = BY_AUTHORITY \<and> (\<exists>a. fs = Authority a \<and> to = resolvedStatus a)) \<or>
      (t = BY_REVERSED_AMOUNT \<and> (\<exists>p. fs = Progress p \<and> reversedStatus p = Inr to))))"
  using assms by (auto simp: nextStatus_def split: option.splits target.splits facts.splits)

text \<open>Whole lives: the accepted moves in order.\<close>

inductive life :: "transaction_status \<Rightarrow> (transaction_event \<times> facts) list \<Rightarrow> transaction_status \<Rightarrow> bool" where
  life_refl: "life st [] st"
| life_step: "nextStatus st ev fs = Inr st' \<Longrightarrow> life st' evs st'' \<Longrightarrow> life st ((ev, fs) # evs) st''"

inductive_cases life_NilE: "life st [] st'"
inductive_cases life_ConsE: "life st (e # evs) st'"
inductive_simps life_Nil_iff [simp]: "life st [] st'"
inductive_simps life_Cons_iff: "life st (e # evs) st'"

lemma life_invariant:
  assumes "life st evs st'" and "P st"
    and "\<And>a ev fs b. P a \<Longrightarrow> nextStatus a ev fs = Inr b \<Longrightarrow> (ev, fs) \<in> set evs \<Longrightarrow> P b"
  shows "P st'"
  using assms
proof (induction rule: life.induct)
  case (life_refl st)
  then show ?case by simp
next
  case (life_step st ev fs st' evs st'')
  have "P st'" by (rule life_step.prems(2) [OF life_step.prems(1) life_step.hyps(1)]) simp
  moreover have "P b" if "P a" "nextStatus a ev fs = Inr b" "(ev, fs) \<in> set evs" for a ev fs b
    by (rule life_step.prems(2) [OF that(1,2)]) (simp add: that(3))
  ultimately show ?case by (rule life_step.IH)
qed

section \<open>How long a life is\<close>

text \<open>A life is as long as its disputes and reversals make it: each dispute costs three moves at most,
  each reversal one.\<close>

fun moves_left :: "transaction_status \<Rightarrow> nat" where
  "moves_left CREATED = 3"
| "moves_left HELD = 2"
| "moves_left PENDING_SETTLEMENT = 1"
| "moves_left DISPUTED = 3"
| "moves_left _ = 0"

definition move_cost :: "transaction_event \<Rightarrow> nat" where
  "move_cost ev = (case ev of DISPUTE \<Rightarrow> 3 | REVERSE_SETTLEMENT \<Rightarrow> 1 | _ \<Rightarrow> 0)"

lemma nextStatus_cost: "nextStatus st ev fs = Inr st' \<Longrightarrow> Suc (moves_left st') \<le> moves_left st + move_cost ev"
  by (auto dest!: nextStatus_Inr TRANSITIONS_cases reversedStatus_Inr simp: resolvedStatus_def move_cost_def split: if_splits)

lemma life_cost: "life st evs st' \<Longrightarrow> length evs + moves_left st' \<le> moves_left st + (\<Sum>e\<leftarrow>evs. move_cost (fst e))"
  by (induction rule: life.induct) (auto dest: nextStatus_cost)

lemma move_cost_sum:
  "(\<Sum>e\<leftarrow>evs. move_cost (fst e)) =
     3 * length (filter (\<lambda>e. fst e = DISPUTE) evs) + length (filter (\<lambda>e. fst e = REVERSE_SETTLEMENT) evs)"
  by (induction evs) (auto simp: move_cost_def split: transaction_event.splits)

section \<open>Properties\<close>

text \<open>Settlement is one edge. Whatever facts accompany the move, the only accepted move that
  produces SETTLED is SETTLE from PENDING_SETTLEMENT; in particular a DISPUTED, HELD or CREATED
  transaction never becomes SETTLED in one move.\<close>

theorem settled_only_from_pending:
  "nextStatus from event fs = Inr SETTLED \<longleftrightarrow> from = PENDING_SETTLEMENT \<and> event = SETTLE"
proof
  assume "nextStatus from event fs = Inr SETTLED"
  then show "from = PENDING_SETTLEMENT \<and> event = SETTLE"
    by (auto dest!: nextStatus_Inr TRANSITIONS_cases reversedStatus_Inr simp: resolvedStatus_def split: if_splits)
qed (simp add: nextStatus_def)

text \<open>A held transaction is paid only on authority: every life that takes it from HELD to SETTLED
  contains an AUTHORISE_SETTLEMENT, or the resolution of a dispute on recorded authority that is
  settlement-ready (not barred, and authorised or with nothing held). A dispute alone never
  authorises.\<close>

theorem held_settles_only_on_authority:
  assumes "life HELD evs SETTLED"
  shows "(\<exists>fs. (AUTHORISE_SETTLEMENT, fs) \<in> set evs) \<or>
    (\<exists>a. (RESOLVE_DISPUTE, Authority a) \<in> set evs \<and> isSettlementReady a)"
proof (rule ccontr)
  assume none: "\<not> ?thesis"
  let ?P = "\<lambda>st. st \<in> {HELD, DISPUTED, REFUNDED}"
  have "?P SETTLED"
  proof (rule life_invariant [OF assms, where P = ?P])
    show "?P HELD" by simp
    fix a ev fs b
    assume "?P a" and "nextStatus a ev fs = Inr b" and "(ev, fs) \<in> set evs"
    with none show "?P b"
      by (auto dest!: nextStatus_Inr TRANSITIONS_cases simp: resolvedStatus_def split: if_splits)
  qed
  then show False by simp
qed

theorem held_settles_only_on_authority_witness:
  "life HELD [(AUTHORISE_SETTLEMENT, No_Facts), (SETTLE, No_Facts)] SETTLED \<and>
   ((\<exists>fs. (AUTHORISE_SETTLEMENT, fs) \<in> set [(AUTHORISE_SETTLEMENT, No_Facts), (SETTLE, No_Facts)]) \<or>
    (\<exists>a. (RESOLVE_DISPUTE, Authority a) \<in> set [(AUTHORISE_SETTLEMENT, No_Facts), (SETTLE, No_Facts)] \<and>
      isSettlementReady a))"
proof -
  have l: "life HELD [(AUTHORISE_SETTLEMENT, No_Facts), (SETTLE, No_Facts)] SETTLED"
    by (simp add: life_Cons_iff nextStatus_def)
  from l held_settles_only_on_authority [OF l] show ?thesis by blast
qed

text \<open>Terminal means final, exactly: a status is one of the four terminal ones precisely when no
  event leaves it, whatever the facts; and SETTLED is left only by reversals, after which the
  transaction can only be SETTLED, PARTIALLY_REVERSED or REVERSED: settled money is never
  settlement-ready again.\<close>

theorem terminal_is_final:
  "(isTerminal st \<longleftrightarrow> (\<forall>ev fs st'. nextStatus st ev fs \<noteq> Inr st')) \<and>
   (life SETTLED evs st'' \<longrightarrow> st'' \<in> {SETTLED, PARTIALLY_REVERSED, REVERSED})"
proof
  have "\<exists>ev fs st'. nextStatus st ev fs = Inr st'" if "\<not> isTerminal st"
  proof -
    let ?p = "Progress \<lparr>settlementGrossMinor = 1, reversedGrossMinor = 1\<rparr>"
    from that consider "st = CREATED" | "st \<in> {HELD, PENDING_SETTLEMENT, DISPUTED}"
      | "st \<in> {SETTLED, PARTIALLY_REVERSED}"
      by (cases st) (simp_all add: isTerminal_def TERMINAL_STATUSES_def)
    then show ?thesis
    proof cases
      case 1
      then have "nextStatus st CANCEL No_Facts = Inr CANCELLED" by (simp add: nextStatus_def)
      then show ?thesis by blast
    next
      case 2
      then have "nextStatus st REFUND No_Facts = Inr REFUNDED" by (auto simp: nextStatus_def)
      then show ?thesis by blast
    next
      case 3
      then have "nextStatus st REVERSE_SETTLEMENT ?p = Inr REVERSED"
        by (auto simp: nextStatus_def reversedStatus_def)
      then show ?thesis by blast
    qed
  qed
  moreover have "nextStatus st ev fs \<noteq> Inr st'" if "isTerminal st" for ev fs st'
    using that by (auto simp: isTerminal_def TERMINAL_STATUSES_def dest!: nextStatus_Inr TRANSITIONS_cases)
  ultimately show "isTerminal st \<longleftrightarrow> (\<forall>ev fs st'. nextStatus st ev fs \<noteq> Inr st')" by blast
  show "life SETTLED evs st'' \<longrightarrow> st'' \<in> {SETTLED, PARTIALLY_REVERSED, REVERSED}"
  proof
    assume "life SETTLED evs st''"
    then show "st'' \<in> {SETTLED, PARTIALLY_REVERSED, REVERSED}"
      by (rule life_invariant) (auto dest!: nextStatus_Inr TRANSITIONS_cases reversedStatus_Inr)
  qed
qed

theorem terminal_is_final_witness:
  "isTerminal REFUNDED \<and> (\<forall>ev fs st'. nextStatus REFUNDED ev fs \<noteq> Inr st') \<and>
   life SETTLED [(REVERSE_SETTLEMENT, Progress \<lparr>settlementGrossMinor = 5, reversedGrossMinor = 5\<rparr>)] REVERSED \<and>
   REVERSED \<in> {SETTLED, PARTIALLY_REVERSED, REVERSED}"
proof -
  have r: "isTerminal REFUNDED" by (simp add: isTerminal_def TERMINAL_STATUSES_def)
  have l: "life SETTLED [(REVERSE_SETTLEMENT, Progress \<lparr>settlementGrossMinor = 5, reversedGrossMinor = 5\<rparr>)] REVERSED"
    by (simp add: life_Cons_iff nextStatus_def reversedStatus_def)
  show ?thesis
    using r l terminal_is_final [of REFUNDED] terminal_is_final [of REFUNDED _ REVERSED] by blast
qed

text \<open>C31. Lives are finite.\<close>

theorem lives_are_bounded:
  assumes "life st evs st'"
  shows "length evs \<le> 3 + 3 * length (filter (\<lambda>e. fst e = DISPUTE) evs) +
    length (filter (\<lambda>e. fst e = REVERSE_SETTLEMENT) evs)"
proof -
  have "moves_left st \<le> 3" by (cases st) simp_all
  then show ?thesis using life_cost [OF assms] by (simp add: move_cost_sum)
qed

theorem lives_are_bounded_witness:
  "let a = Authority \<lparr>settlementAuthorised = False, fundsHeld = True, settlementBarred = False\<rparr>;
       evs = [(AUTHORISE_SETTLEMENT, No_Facts), (DISPUTE, No_Facts), (RESOLVE_DISPUTE, a), (AUTHORISE_SETTLEMENT, No_Facts),
              (SETTLE, No_Facts), (REVERSE_SETTLEMENT, Progress \<lparr>settlementGrossMinor = 5, reversedGrossMinor = 5\<rparr>)]
   in life CREATED evs REVERSED \<and>
      length evs \<le> 3 + 3 * length (filter (\<lambda>e. fst e = DISPUTE) evs) +
        length (filter (\<lambda>e. fst e = REVERSE_SETTLEMENT) evs)"
  unfolding Let_def
  by (intro conjI lives_are_bounded [of CREATED _ REVERSED])
    (simp_all add: life_Cons_iff nextStatus_def resolvedStatus_def isSettlementReady_def reversedStatus_def)


end
