(* ===== verification/Transaction.thy ===== *)
theory Transaction
  imports Wallet Commission Access StateMachine
begin

text \<open>
  Obligations: \<^verbatim>\<open>transaction/recorded-sources.ts\<close> (who may record which source),
  \<^verbatim>\<open>transaction/transaction.repository.ts\<close> (with the constraints and the stamping triggers of the
  migrations), \<^verbatim>\<open>transaction/transaction.service.ts\<close> and \<^verbatim>\<open>transaction/statement-obligation.ts\<close>.

  The triggers of the transaction table that only refuse once more what the service already
  refused are not part of the model; the ones that write a column are.
\<close>

definition truthy :: "string option \<Rightarrow> bool" where
  "truthy x = (case x of None \<Rightarrow> False | Some v \<Rightarrow> v \<noteq> [])"

section \<open>recorded-sources.ts\<close>

definition ECONOMIC_RECORDED_SOURCE_TYPES :: "string list" where
  "ECONOMIC_RECORDED_SOURCE_TYPES = [''MAINTENANCE_REQUEST'', ''PAYMENT_INTENT'', ''STATEMENT'']"

definition isEconomicRecordedSource :: "string \<Rightarrow> bool" where
  "isEconomicRecordedSource sourceType \<longleftrightarrow> sourceType \<in> set ECONOMIC_RECORDED_SOURCE_TYPES"

definition ORDER_SOURCE_TYPE :: string where
  "ORDER_SOURCE_TYPE = ''ORDER''"

definition OWNER_RECORDED_SOURCE_TYPES :: "(string \<times> string \<times> transaction_type) list" where
  "OWNER_RECORDED_SOURCE_TYPES = [(''ORDER'', ''marketplace-service'', MARKETPLACE_ORDER)]"

definition mayRecordSource :: "'a request_context_scheme \<Rightarrow> string option \<Rightarrow> transaction_type \<Rightarrow> bool" where
  "mayRecordSource caller sourceType transactionType =
     (case sourceType of
        None \<Rightarrow> True
      | Some st \<Rightarrow>
          if isEconomicRecordedSource st then False
          else (case map_of OWNER_RECORDED_SOURCE_TYPES st of
                  None \<Rightarrow> True
                | Some (service, type) \<Rightarrow>
                    authType caller = SERVICE \<and> callerService caller = Some service \<and> transactionType = type))"

definition LINE_LESS_SOURCE_TYPES :: "string list" where
  "LINE_LESS_SOURCE_TYPES = [''ORDER'']"

definition mayRecordWithoutLine :: "'a request_context_scheme \<Rightarrow> string option \<Rightarrow> transaction_type \<Rightarrow> bool" where
  "mayRecordWithoutLine caller sourceType transactionType =
     (case sourceType of
        None \<Rightarrow> False
      | Some st \<Rightarrow> st \<in> set LINE_LESS_SOURCE_TYPES \<and> map_of OWNER_RECORDED_SOURCE_TYPES st \<noteq> None \<and>
          mayRecordSource caller sourceType transactionType)"

text \<open>The fields of the request body, as its schema leaves them.\<close>

record create_transaction_dto =
  ct_transactionType :: transaction_type
  ct_businessLine :: "business_line option"
  ct_counterpartyOrganizationId :: "string option"
  ct_grossAmountMinor :: string
  ct_currency :: "string option"
  ct_occurredAt :: "int option"
  ct_sourceType :: "string option"
  ct_sourceReference :: "string option"
  ct_holdFunds :: bool
  ct_holdNotAfter :: "int option"
  ct_idempotencyKey :: "string option"

definition refuseUnfencedOrderHold :: "create_transaction_dto \<Rightarrow> failure + unit" where
  "refuseUnfencedOrderHold dto =
     assertE (\<not> (ct_holdFunds dto \<and> ct_sourceType dto = Some ORDER_SOURCE_TYPE \<and> ct_holdNotAfter dto = None))
       (RastaError HOLD_DEADLINE_REQUIRED '''')"

section \<open>The table\<close>

definition source_checks :: "obligation \<Rightarrow> bool" where
  "source_checks t \<longleftrightarrow>
     (t_sourceType t = Some ''STATEMENT'' \<longrightarrow>
        t_transactionType t = CONSTRUCTION_STATEMENT \<and> t_sourceReference t \<noteq> None \<and>
        t_counterpartyOrganizationId t \<noteq> None \<and> t_idempotencyKey t = None \<and> t_causationId t \<noteq> None \<and>
        t_createdBy t = SERVICE_NAME) \<and>
     (t_sourceType t = Some ''MAINTENANCE_REQUEST'' \<longrightarrow>
        t_transactionType t = MAINTENANCE_SERVICE \<and> t_sourceReference t \<noteq> None \<and>
        t_counterpartyOrganizationId t \<noteq> None \<and> t_idempotencyKey t = None \<and> t_causationId t \<noteq> None \<and>
        t_createdBy t = SERVICE_NAME) \<and>
     (t_sourceType t = Some ''PAYMENT_INTENT'' \<longrightarrow>
        t_transactionType t = TYPE_WALLET_TOP_UP \<and> t_sourceReference t \<noteq> None \<and>
        t_counterpartyOrganizationId t = None \<and> t_idempotencyKey t = None) \<and>
     (t_sourceType t = Some ''ORDER'' \<longrightarrow>
        t_transactionType t = MARKETPLACE_ORDER \<and> t_sourceReference t \<noteq> None \<and>
        t_counterpartyOrganizationId t \<noteq> None \<and> t_idempotencyKey t \<noteq> None \<and> t_createdBy t = SERVICE_NAME)"

text \<open>\<^verbatim>\<open>ck_transaction_*\<close> and the \<open>BIGINT\<close> column.\<close>

definition transaction_row_ok :: "obligation \<Rightarrow> bool" where
  "transaction_row_ok t \<longleftrightarrow>
     0 < t_grossAmountMinor t \<and> t_grossAmountMinor t \<le> MAX_AMOUNT_MINOR \<and>
     0 \<le> t_commissionAmountMinor t \<and> 0 \<le> t_netAmountMinor t \<and>
     t_commissionAmountMinor t \<le> t_grossAmountMinor t \<and>
     (t_status t \<in> {SETTLED, PARTIALLY_REVERSED, REVERSED} \<longrightarrow>
        t_netAmountMinor t = t_grossAmountMinor t - t_commissionAmountMinor t \<and> t_settledAt t \<noteq> None) \<and>
     (t_status t = DISPUTED \<longrightarrow> t_disputedAt t \<noteq> None \<and> t_disputeReason t \<noteq> None) \<and>
     t_counterpartyOrganizationId t \<noteq> Some (t_organizationId t) \<and>
     (t_pricingOutcome t = Some RULE_APPLIED) = (t_pricingRuleId t \<noteq> None) \<and> source_checks t"

definition source_fact :: "obligation \<Rightarrow> (string \<times> string \<times> string) option" where
  "source_fact t = (case (t_sourceType t, t_sourceReference t) of
     (Some st, Some sr) \<Rightarrow> Some (t_organizationId t, st, sr) | _ \<Rightarrow> None)"

definition transaction_taken :: "db \<Rightarrow> obligation \<Rightarrow> bool" where
  "transaction_taken s t \<longleftrightarrow>
     (\<exists>u\<in>set (txns s). t_id u = t_id t \<or>
        (t_organizationId u = t_organizationId t \<and> t_idempotencyKey t \<noteq> None \<and> t_idempotencyKey u = t_idempotencyKey t) \<or>
        (source_fact t \<noteq> None \<and> source_fact u = source_fact t))"

text \<open>
  The row as the insert triggers leave it: no dispute, and \<open>held_at\<close> stamped when it is born HELD.
\<close>

definition stamp_insert :: "'a runtime_scheme \<Rightarrow> nat \<Rightarrow> obligation \<Rightarrow> obligation" where
  "stamp_insert rt n t =
     t\<lparr>t_disputeId := None, t_resolvedDisputeId := None,
       t_heldAt := (if t_status t = HELD then Some (clock_timestamp rt n) else None)\<rparr>"

definition check_new_transaction :: "obligation \<Rightarrow> unit tx" where
  "check_new_transaction t =
     bindM (getsM (\<lambda>s. list_all (\<lambda>h. h_reference h \<noteq> t_id t) (holds s))) (\<lambda>unclaimed.
     thenM (assertM unclaimed (ConstraintViolation ''trg_transaction_id_unclaimed''))
    (thenM (assertM (transaction_row_ok t) (ConstraintViolation ''ck_transaction''))
    (bindM (getsM (\<lambda>s. case t_pricingRuleId t of None \<Rightarrow> True | Some i \<Rightarrow> i \<in> r_id ` set (rules s))) (\<lambda>fk.
     assertM fk (ConstraintViolation ''transaction_pricing_rule_id_fkey'')))))"

definition insert_legs :: "transaction_leg list \<Rightarrow> unit tx" where
  "insert_legs rows =
     bindM (getsM (\<lambda>s. distinct (map l_id (legs s @ rows)) \<and>
                       distinct (map (\<lambda>l. (l_transactionId l, l_role l)) (legs s @ rows)))) (\<lambda>fresh.
     thenM (assertM fresh (UniqueViolation ''transaction_leg''))
    (thenM (assertM (list_all (\<lambda>l. 0 < l_amountMinor l) rows) (ConstraintViolation ''ck_transaction_leg_amount_positive''))
           (modifyM (\<lambda>s. s\<lparr>legs := legs s @ rows\<rparr>))))"

section \<open>The repository\<close>

definition create_transaction :: "'a runtime_scheme \<Rightarrow> obligation \<Rightarrow> transaction_leg list \<Rightarrow> unit tx" where
  "create_transaction rt t ls =
     bindM next_tick (\<lambda>n.
     thenM (check_new_transaction (stamp_insert rt n t))
    (bindM (getsM (\<lambda>s. transaction_taken s t)) (\<lambda>taken.
     thenM (assertM (\<not> taken) (UniqueViolation ''transaction''))
    (thenM (modifyM (\<lambda>s. s\<lparr>txns := txns s @ [stamp_insert rt n t]\<rparr>))
           (if ls \<noteq> [] then insert_legs ls else returnM ())))))"

text \<open>\<open>ON CONFLICT DO NOTHING\<close>; the legs only with the row.\<close>

definition createForSource :: "'a runtime_scheme \<Rightarrow> obligation \<Rightarrow> transaction_leg list \<Rightarrow> bool tx" where
  "createForSource rt t ls =
     bindM next_tick (\<lambda>n.
     thenM (check_new_transaction (stamp_insert rt n t))
    (bindM (getsM (\<lambda>s. transaction_taken s t)) (\<lambda>taken.
     if taken then returnM False
     else thenM (modifyM (\<lambda>s. s\<lparr>txns := txns s @ [stamp_insert rt n t]\<rparr>))
         (thenM (if ls \<noteq> [] then insert_legs ls else returnM ()) (returnM True)))))"

record locked_transaction =
  lt_row :: obligation
  lt_settlementAuthorised :: bool
  lt_settlementBarred :: bool
  lt_fundsHeld :: bool

definition lockForUpdate :: "string \<Rightarrow> locked_transaction option tx" where
  "lockForUpdate i =
     getsM (\<lambda>s. map_option (\<lambda>t.
       \<lparr>lt_row = t,
        lt_settlementAuthorised = transaction_settlement_authorised s (t_id t) (t_settlementAuthorisedAt t \<noteq> None),
        lt_settlementBarred = transaction_settlement_barred s (t_id t),
        lt_fundsHeld = (\<exists>h\<in>set (transaction_holds s (t_id t) (t_organizationId t)). h_status h = H_ACTIVE)\<rparr>)
       (txn_of s i))"

text \<open>
  The row as the update triggers leave it: \<open>held_at\<close> is stamped once, a move into DISPUTED gives the
  dispute a new identity, a resolution records which dispute it decided.
\<close>

definition stamp_update :: "'a runtime_scheme \<Rightarrow> nat \<Rightarrow> obligation \<Rightarrow> obligation \<Rightarrow> obligation" where
  "stamp_update rt n old new =
     new\<lparr>t_heldAt := (if t_heldAt old \<noteq> None then t_heldAt old
                      else if t_status new = HELD then Some (clock_timestamp rt n) else None),
         t_disputeId := (if t_status new = DISPUTED \<and> t_status old \<noteq> DISPUTED
                         then Some (''TXD_'' @ gen_random_uuid rt n) else t_disputeId old),
         t_resolvedDisputeId :=
           (if t_status old = DISPUTED \<and> t_status new \<in> {PENDING_SETTLEMENT, HELD} then t_disputeId old
            else if t_resolvedDisputeId old = None \<and> t_status old \<in> {PENDING_SETTLEMENT, SETTLED} \<and>
                    t_disputedAt old \<noteq> None \<and> t_disputeResolvedAt old \<noteq> None then t_disputeId old
            else t_resolvedDisputeId old)\<rparr>"

text \<open>\<open>updateMany ... WHERE id AND status = from\<close>: a compare-and-set; the count of rows changed.\<close>

definition transition ::
  "'a runtime_scheme \<Rightarrow> string \<Rightarrow> transaction_status \<Rightarrow> transaction_status \<Rightarrow> (obligation \<Rightarrow> obligation) \<Rightarrow> nat tx"
where
  "transition rt i from_status to_status extra =
     bindM next_tick (\<lambda>n.
     let update = (\<lambda>t. if t_id t = i \<and> t_status t = from_status
                       then stamp_update rt n t ((extra t)\<lparr>t_status := to_status\<rparr>) else t) in
     bindM (getsM (\<lambda>s. length (filter (\<lambda>t. t_id t = i \<and> t_status t = from_status) (txns s)))) (\<lambda>count.
     bindM (getsM (\<lambda>s. list_all (\<lambda>t. \<not> (t_id t = i \<and> t_status t = from_status) \<or> transaction_row_ok (update t)) (txns s))) (\<lambda>ok.
     thenM (assertM ok (ConstraintViolation ''ck_transaction''))
    (thenM (modifyM (\<lambda>s. s\<lparr>txns := map update (txns s)\<rparr>)) (returnM count)))))"

definition findByIdForParty :: "string \<Rightarrow> obligation option tx" where
  "findByIdForParty i = getsM (\<lambda>s. txn_of s i)"

definition heldProven :: "string \<Rightarrow> bool tx" where
  "heldProven i = getsM (\<lambda>s. transaction_held_proven s i)"

definition find_source :: "db \<Rightarrow> string \<Rightarrow> string \<Rightarrow> string \<Rightarrow> obligation option" where
  "find_source s org sourceType sourceReference =
     find (\<lambda>t. t_organizationId t = org \<and> t_sourceType t = Some sourceType \<and>
               t_sourceReference t = Some sourceReference) (txns s)"

definition findBySource :: "string \<Rightarrow> string \<Rightarrow> string \<Rightarrow> obligation option tx" where
  "findBySource org sourceType sourceReference = getsM (\<lambda>s. find_source s org sourceType sourceReference)"

section \<open>The service\<close>

definition legsFor ::
  "'a runtime_scheme \<Rightarrow> string \<Rightarrow> string \<Rightarrow> string option \<Rightarrow> int \<Rightarrow> string \<Rightarrow> transaction_leg list tx"
where
  "legsFor rt transactionId payer payee grossAmountMinor cur =
     bindM (prefixed_ulid rt ''TXL'') (\<lambda>i1.
     let first = \<lparr>l_id = i1, l_transactionId = transactionId, l_organizationId = payer, l_role = PAYER,
                  l_amountMinor = grossAmountMinor, l_currency = cur\<rparr> in
     case payee of
       None \<Rightarrow> returnM [first]
     | Some p \<Rightarrow>
         if p = [] then returnM [first]
         else bindM (prefixed_ulid rt ''TXL'') (\<lambda>i2.
              returnM [first, \<lparr>l_id = i2, l_transactionId = transactionId, l_organizationId = p, l_role = PAYEE,
                  l_amountMinor = grossAmountMinor, l_currency = cur\<rparr>]))"

text \<open>The row a creation writes; every other column is at its default.\<close>

definition new_obligation ::
  "string \<Rightarrow> string \<Rightarrow> string option \<Rightarrow> transaction_type \<Rightarrow> business_line option \<Rightarrow>
     commission_outcome option \<times> string option \<Rightarrow> transaction_status \<Rightarrow> int \<Rightarrow> string \<Rightarrow> int \<Rightarrow>
     string option \<Rightarrow> string option \<Rightarrow> string option \<Rightarrow> string \<Rightarrow> string option \<Rightarrow> string \<Rightarrow> obligation"
where
  "new_obligation i org counterparty type line pricing status gross cur occurredAt sourceType sourceReference
     idempotencyKey correlation causation createdBy =
     \<lparr>t_id = i, t_organizationId = org, t_counterpartyOrganizationId = counterparty, t_transactionType = type,
      t_businessLine = line, t_status = status, t_pricingOutcome = fst pricing, t_pricingRuleId = snd pricing,
      t_grossAmountMinor = gross, t_commissionAmountMinor = 0, t_netAmountMinor = 0, t_currency = cur,
      t_occurredAt = occurredAt, t_sourceType = sourceType, t_sourceReference = sourceReference,
      t_idempotencyKey = idempotencyKey, t_correlationId = correlation, t_causationId = causation,
      t_disputeId = None, t_disputedAt = None, t_disputedBy = None, t_disputeReason = None,
      t_disputeResolvedAt = None, t_disputeResolvedBy = None, t_disputeResolution = None,
      t_resolvedDisputeId = None, t_settlementAuthorisedAt = None, t_settlementAuthorisedBy = None,
      t_settlementAuthorisedService = None, t_settlementAuthorisationKey = None, t_heldAt = None,
      t_settledAt = None, t_failureReason = None, t_cancelledAt = None, t_cancelledBy = None,
      t_refundedAt = None, t_refundedBy = None, t_createdBy = createdBy\<rparr>"

definition announce ::
  "'a runtime_scheme \<Rightarrow> obligation \<Rightarrow> status_change_action \<Rightarrow> transaction_status option \<Rightarrow> transaction_status \<Rightarrow>
     string \<Rightarrow> int \<Rightarrow> string option \<Rightarrow> unit tx"
where
  "announce rt t act from_status to_status changedBy at causationId =
     enqueue rt (t_id t) (t_organizationId t)
       (TransactionStatusChanged (t_id t) (t_organizationId t) (t_counterpartyOrganizationId t)
          (t_transactionType t) act from_status to_status (formatMinor (t_grossAmountMinor t)) (t_currency t)
          changedBy at) (if truthy causationId then causationId else None)"

text \<open>The row with what the answer adds to it: whether HELD is proven.\<close>

definition get_transaction :: "'a runtime_scheme \<Rightarrow> string \<Rightarrow> (obligation \<times> bool) tx" where
  "get_transaction rt i =
     bindM (findByIdForParty i) (\<lambda>found.
     case found of
       None \<Rightarrow> throwM (RastaError NOT_FOUND ''Transaction'')
     | Some t \<Rightarrow>
         thenM (liftM (assertTransactionVisible rt t))
        (bindM (if t_status t = HELD then heldProven i else returnM False) (\<lambda>proven.
         returnM (t, proven))))"

subsection \<open>Creating\<close>

text \<open>What the endpoint checks before the service is called.\<close>

definition admitCreate :: "'a request_context_scheme \<Rightarrow> create_transaction_dto \<Rightarrow> failure + unit" where
  "admitCreate c dto =
     bindE (assertNotAuditor c) (\<lambda>_.
     assertE (mayRecordSource c (ct_sourceType dto) (ct_transactionType dto))
       (RastaError VALIDATION_FAILED ''This source type is recorded only from its owning service''))"

definition currency_of :: "create_transaction_dto \<Rightarrow> string" where
  "currency_of dto = (case ct_currency dto of Some c \<Rightarrow> c | None \<Rightarrow> ''IRR'')"

definition check_create :: "'a runtime_scheme \<Rightarrow> create_transaction_dto \<Rightarrow> failure + (string \<times> int)" where
  "check_create rt dto =
     bindE (getOrganizationId rt) (\<lambda>org.
     bindE (parseMinor (ct_grossAmountMinor dto)) (\<lambda>gross.
     bindE (refuseUnfencedOrderHold dto) (\<lambda>_.
     bindE (assertE (ct_counterpartyOrganizationId dto \<noteq> Some org)
             (RastaError BUSINESS_RULE_VIOLATION ''A transaction cannot have the same payer and payee'')) (\<lambda>_.
     bindE (assertE (\<not> (ct_holdFunds dto \<and> \<not> truthy (ct_counterpartyOrganizationId dto)))
             (RastaError BUSINESS_RULE_VIOLATION ''Funds can only be held against a transaction with a payee'')) (\<lambda>_.
     bindE (assertE (\<not> (ECONOMIC_SETTLEMENT_REQUIRE_COMMISSION_RULE rt \<and> ct_businessLine dto = None \<and>
                        \<not> mayRecordWithoutLine rt (ct_sourceType dto) (ct_transactionType dto)))
             (RastaError BUSINESS_LINE_REQUIRED '''')) (\<lambda>_.
     Inr (org, gross)))))))"

text \<open>The hold placed with the obligation, when the payer's funds are held.\<close>

definition create_hold :: "'a runtime_scheme \<Rightarrow> string \<Rightarrow> int \<Rightarrow> string \<Rightarrow> wallet option \<Rightarrow> unit tx" where
  "create_hold rt i gross actor payerWallet =
     (case payerWallet of
        None \<Rightarrow> returnM ()
      | Some wallet \<Rightarrow>
          bindM (lock [w_id wallet]) (\<lambda>rows.
          case rows of
            [] \<Rightarrow> throwM (RastaError INTERNAL_ERROR ''Wallet vanished while locking it'')
          | locked # _ \<Rightarrow>
              thenM (placeHold rt locked gross i TRANSACTION i actor)
             (bindM (liftM (nextStatus CREATED HOLD_PLACED No_Facts)) (\<lambda>target.
              thenM (transition rt i CREATED target (\<lambda>t. t)) (returnM ())))))"

definition create_within ::
  "'a runtime_scheme \<Rightarrow> create_transaction_dto \<Rightarrow> string \<Rightarrow> int \<Rightarrow> wallet option \<Rightarrow> (obligation \<times> bool) tx"
where
  "create_within rt dto org gross payerWallet =
     (let actor = actor_name rt; cur = currency_of dto in
      bindM (prefixed_ulid rt ''TXN'') (\<lambda>i.
      bindM (case ct_occurredAt dto of Some d \<Rightarrow> returnM d | None \<Rightarrow> hostDate rt) (\<lambda>occurredAt.
      bindM (case ct_counterpartyOrganizationId dto of
               Some payee \<Rightarrow>
                 if payee = [] then returnM (None, None)
                 else bindM (pricingOf \<lparr>pi_organizationId = payee, pi_transactionType = ct_transactionType dto,
                        pi_businessLine = ct_businessLine dto, pi_occurredAt = occurredAt,
                        pi_grossAmountMinor = gross, pi_currency = cur\<rparr>) (\<lambda>(outcome, rule).
                      returnM (Some outcome, rule))
             | None \<Rightarrow> returnM (None, None)) (\<lambda>pricing.
      bindM (legsFor rt i org (ct_counterpartyOrganizationId dto) gross cur) (\<lambda>ls.
      let row = new_obligation i org (ct_counterpartyOrganizationId dto) (ct_transactionType dto)
            (ct_businessLine dto) pricing CREATED gross cur occurredAt (ct_sourceType dto) (ct_sourceReference dto)
            (ct_idempotencyKey dto) (correlationId rt) None actor in
      thenM (create_transaction rt row ls)
     (thenM (create_hold rt i gross actor payerWallet)
     (bindM (hostDate rt) (\<lambda>at.
      thenM (announce rt row ACT_CREATE None (if payerWallet \<noteq> None then HELD else CREATED) actor at None)
            (get_transaction rt i)))))))))"

text \<open>A second obligation for a source fact the payer already recorded is a conflict.\<close>

definition duplicateSourceOr :: "string \<Rightarrow> create_transaction_dto \<Rightarrow> failure \<Rightarrow> db \<Rightarrow> failure" where
  "duplicateSourceOr org dto e s =
     (case (e, ct_sourceType dto, ct_sourceReference dto) of
        (UniqueViolation _, Some st, Some sr) \<Rightarrow>
          if st \<noteq> [] \<and> sr \<noteq> [] \<and> find_source s org st sr \<noteq> None
          then RastaError CONFLICT ''An obligation for this source is already recorded for this organization''
          else e
      | _ \<Rightarrow> e)"

definition create :: "'a runtime_scheme \<Rightarrow> create_transaction_dto \<Rightarrow> (db, obligation \<times> bool) request" where
  "create rt dto =
     bindR (liftR (check_create rt dto)) (\<lambda>(org, gross).
     bindR (if ct_holdFunds dto then atomically (bindM (getOrOpen rt (currency_of dto)) (\<lambda>w. returnM (Some w)))
            else liftR (Inr None)) (\<lambda>payerWallet.
     rethrowR (atomically (transaction (create_within rt dto org gross payerWallet)))
       (duplicateSourceOr org dto)))"

text \<open>An obligation that arrived as an event, already authorised to settle.\<close>

record authorised_obligation =
  ao_organizationId :: string
  ao_counterpartyOrganizationId :: string
  ao_transactionType :: transaction_type
  ao_businessLine :: "business_line option"
  ao_grossAmountMinor :: int
  ao_currency :: string
  ao_occurredAt :: int
  ao_sourceType :: string
  ao_sourceReference :: string
  ao_causationId :: string

definition recordAuthorisedObligation ::
  "'a runtime_scheme \<Rightarrow> authorised_obligation \<Rightarrow> (string \<times> bool) tx"
where
  "recordAuthorisedObligation rt input =
     bindM (findBySource (ao_organizationId input) (ao_sourceType input) (ao_sourceReference input)) (\<lambda>existing.
     case existing of
       Some t \<Rightarrow> returnM (t_id t, False)
     | None \<Rightarrow>
         bindM (prefixed_ulid rt ''TXN'') (\<lambda>i.
         bindM (pricingOf \<lparr>pi_organizationId = ao_counterpartyOrganizationId input,
             pi_transactionType = ao_transactionType input, pi_businessLine = ao_businessLine input,
             pi_occurredAt = ao_occurredAt input, pi_grossAmountMinor = ao_grossAmountMinor input,
             pi_currency = ao_currency input\<rparr>) (\<lambda>(outcome, rule).
         bindM (legsFor rt i (ao_organizationId input) (Some (ao_counterpartyOrganizationId input))
             (ao_grossAmountMinor input) (ao_currency input)) (\<lambda>ls.
         let row = new_obligation i (ao_organizationId input) (Some (ao_counterpartyOrganizationId input))
               (ao_transactionType input) (ao_businessLine input) (Some outcome, rule) PENDING_SETTLEMENT
               (ao_grossAmountMinor input) (ao_currency input) (ao_occurredAt input) (Some (ao_sourceType input))
               (Some (ao_sourceReference input)) None (correlationId rt) (Some (ao_causationId input)) SERVICE_NAME in
         bindM (createForSource rt row ls) (\<lambda>written.
         if \<not> written
         then bindM (findBySource (ao_organizationId input) (ao_sourceType input) (ao_sourceReference input)) (\<lambda>winner.
              case winner of
                None \<Rightarrow> throwM (RastaError INTERNAL_ERROR ''An obligation for this source fact conflicted and vanished'')
              | Some t \<Rightarrow> returnM (t_id t, False))
         else bindM (hostDate rt) (\<lambda>at.
              thenM (announce rt row ACT_RECORD_AUTHORISED_OBLIGATION None PENDING_SETTLEMENT SERVICE_NAME at
                       (Some (ao_causationId input)))
              (returnM (i, True))))))))"

subsection \<open>Lifecycle\<close>

definition STATEMENT_WITHDRAWAL_REFUSED :: failure where
  "STATEMENT_WITHDRAWAL_REFUSED = RastaError BUSINESS_RULE_VIOLATION ''STATEMENT_WITHDRAWAL_REFUSED''"

definition refuseStatementWithdrawal :: "obligation \<Rightarrow> financial_command \<Rightarrow> failure + unit" where
  "refuseStatementWithdrawal t command =
     (if t_sourceType t \<noteq> Some STATEMENT_SOURCE_TYPE then Inr ()
      else if command \<noteq> CMD_REFUND \<and> command \<noteq> CMD_CANCEL then Inr ()
      else Inl STATEMENT_WITHDRAWAL_REFUSED)"

definition authorizeAct :: "'a runtime_scheme \<Rightarrow> obligation \<Rightarrow> financial_command \<Rightarrow> financial_authority tx" where
  "authorizeAct rt t command =
     thenM (liftM (assertTransactionVisible rt t))
    (thenM (liftM (refuseStatementWithdrawal t command))
    (if command = CMD_REFUND then assertMayRefund rt t
     else bindM (canActFinanciallyFor rt command (t_organizationId t)) (\<lambda>authority.
          thenM (if command = CMD_DISPUTE \<or> command = CMD_RESOLVE_DISPUTE
                 then liftM (assertMayDisputeDirectly rt t) else returnM ())
                (returnM authority))))"

text \<open>The four commands \<open>move\<close> makes: one name is the event, the command and the recorded action.\<close>

datatype move_command = MOVE_AUTHORISE_SETTLEMENT | MOVE_DISPUTE | MOVE_RESOLVE_DISPUTE | MOVE_CANCEL

fun move_event :: "move_command \<Rightarrow> transaction_event" where
  "move_event MOVE_AUTHORISE_SETTLEMENT = AUTHORISE_SETTLEMENT"
| "move_event MOVE_DISPUTE = DISPUTE"
| "move_event MOVE_RESOLVE_DISPUTE = RESOLVE_DISPUTE"
| "move_event MOVE_CANCEL = CANCEL"

fun command_of :: "move_command \<Rightarrow> financial_command" where
  "command_of MOVE_AUTHORISE_SETTLEMENT = CMD_AUTHORISE_SETTLEMENT"
| "command_of MOVE_DISPUTE = CMD_DISPUTE"
| "command_of MOVE_RESOLVE_DISPUTE = CMD_RESOLVE_DISPUTE"
| "command_of MOVE_CANCEL = CMD_CANCEL"

fun action_of :: "move_command \<Rightarrow> status_change_action" where
  "action_of MOVE_AUTHORISE_SETTLEMENT = ACT_AUTHORISE_SETTLEMENT"
| "action_of MOVE_DISPUTE = ACT_DISPUTE"
| "action_of MOVE_RESOLVE_DISPUTE = ACT_RESOLVE_DISPUTE"
| "action_of MOVE_CANCEL = ACT_CANCEL"

definition lock_authority :: "locked_transaction \<Rightarrow> settlement_authority" where
  "lock_authority t = \<lparr>settlementAuthorised = lt_settlementAuthorised t, fundsHeld = lt_fundsHeld t,
     settlementBarred = lt_settlementBarred t\<rparr>"

definition move_within ::
  "'a runtime_scheme \<Rightarrow> string \<Rightarrow> move_command \<Rightarrow> string \<Rightarrow> (int \<Rightarrow> obligation \<Rightarrow> obligation) \<Rightarrow> string option \<Rightarrow>
     (obligation \<times> bool) tx"
where
  "move_within rt transactionId command actor extra heldDispute =
     bindM (lockForUpdate transactionId) (\<lambda>found.
     case found of
       None \<Rightarrow> throwM (RastaError NOT_FOUND ''Transaction'')
     | Some t \<Rightarrow>
         thenM (authorizeAct rt (lt_row t) (command_of command))
        (bindM (liftM (nextStatus (t_status (lt_row t)) (move_event command) (Authority (lock_authority t)))) (\<lambda>target.
         thenM (assertM (heldDispute = None \<or> t_disputeId (lt_row t) = heldDispute)
                 (RastaError INVALID_STATE_TRANSITION ''The transaction no longer holds the dispute this decision is about''))
        (bindM (databaseNow rt) (\<lambda>at.
         bindM (transition rt transactionId (t_status (lt_row t)) target (extra at)) (\<lambda>moved.
         thenM (assertM (moved \<noteq> 0) (RastaError OPTIMISTIC_LOCK_FAILED ''Transaction''))
        (thenM (announce rt (lt_row t) (action_of command) (Some (t_status (lt_row t))) target actor at None)
               (get_transaction rt transactionId))))))))"

definition move ::
  "'a runtime_scheme \<Rightarrow> string \<Rightarrow> move_command \<Rightarrow> string \<Rightarrow> (int \<Rightarrow> obligation \<Rightarrow> obligation) \<Rightarrow> string option \<Rightarrow>
     (obligation \<times> bool) tx"
where
  "move rt transactionId command actor extra heldDispute =
     transaction (move_within rt transactionId command actor extra heldDispute)"

definition authoriseSettlement :: "'a runtime_scheme \<Rightarrow> string \<Rightarrow> string option \<Rightarrow> (obligation \<times> bool) tx" where
  "authoriseSettlement rt transactionId idempotencyKey =
     (let actor = actor_name rt;
          service = (if authType rt = SERVICE then callerService rt else None) in
      move rt transactionId MOVE_AUTHORISE_SETTLEMENT actor
        (\<lambda>at t. t\<lparr>t_settlementAuthorisedAt := Some at, t_settlementAuthorisedBy := Some actor,
           t_settlementAuthorisedService := service,
           t_settlementAuthorisationKey := (if truthy service then idempotencyKey else None)\<rparr>) None)"

definition dispute :: "'a runtime_scheme \<Rightarrow> string \<Rightarrow> string \<Rightarrow> (obligation \<times> bool) tx" where
  "dispute rt transactionId reason =
     (let actor = actor_name rt in
      move rt transactionId MOVE_DISPUTE actor
        (\<lambda>at t. t\<lparr>t_disputedAt := Some at, t_disputedBy := Some actor, t_disputeReason := Some reason\<rparr>) None)"

definition resolveDispute ::
  "'a runtime_scheme \<Rightarrow> string \<Rightarrow> string \<Rightarrow> string option \<Rightarrow> (obligation \<times> bool) tx"
where
  "resolveDispute rt transactionId resolution disputeId =
     (let actor = actor_name rt in
      move rt transactionId MOVE_RESOLVE_DISPUTE actor
        (\<lambda>at t. t\<lparr>t_disputeResolvedAt := Some at, t_disputeResolvedBy := Some actor,
           t_disputeResolution := Some resolution\<rparr>) disputeId)"

definition cancel :: "'a runtime_scheme \<Rightarrow> string \<Rightarrow> string \<Rightarrow> (obligation \<times> bool) tx" where
  "cancel rt transactionId reason =
     (let actor = actor_name rt in
      move rt transactionId MOVE_CANCEL actor
        (\<lambda>at t. t\<lparr>t_failureReason := Some reason, t_cancelledAt := Some at, t_cancelledBy := Some actor\<rparr>) None)"

text \<open>
  A refund. The journal is the payer's while the caller may be another party, so the hold's refund
  runs unscoped; the authority was decided under the row lock and is confirmed again before it.
\<close>

definition refund_hold :: "'a runtime_scheme \<Rightarrow> wallet \<Rightarrow> string \<Rightarrow> string \<Rightarrow> wallet_hold option \<Rightarrow> unit tx" where
  "refund_hold rt locked transactionId reason hold =
     (case hold of
        None \<Rightarrow> returnM ()
      | Some h \<Rightarrow> thenM (refundHold (runUnscoped rt) locked (h_id h) TRANSACTION transactionId reason (actor_name rt))
                        (returnM ()))"

definition apply_refund ::
  "'a runtime_scheme \<Rightarrow> string \<Rightarrow> locked_transaction \<Rightarrow> financial_authority \<Rightarrow> transaction_status \<Rightarrow> wallet \<Rightarrow>
     wallet_hold option \<Rightarrow> string \<Rightarrow> (obligation \<times> bool) tx"
where
  "apply_refund rt transactionId t lockedRowAuthority target locked hold reason =
     (let actor = actor_name rt; row = lt_row t in
      thenM (assertM (\<not> (lt_fundsHeld t \<and> hold = None))
              (RastaError BUSINESS_RULE_VIOLATION ''The held funds are not on this wallet''))
     (thenM (reconfirmFinancialAuthority rt lockedRowAuthority)
     (thenM (refund_hold rt locked transactionId reason hold)
     (bindM (hostDate rt) (\<lambda>refundedAt.
      bindM (transition rt transactionId (t_status row) target
              (\<lambda>u. u\<lparr>t_failureReason := Some reason, t_refundedAt := Some refundedAt,
                    t_refundedBy := Some actor\<rparr>)) (\<lambda>moved.
      thenM (assertM (moved \<noteq> 0) (RastaError OPTIMISTIC_LOCK_FAILED ''Transaction''))
     (thenM (announce rt row ACT_REFUND (Some (t_status row)) target actor refundedAt None)
            (get_transaction rt transactionId))))))))"

definition refund_within :: "'a runtime_scheme \<Rightarrow> string \<Rightarrow> string \<Rightarrow> (obligation \<times> bool) tx" where
  "refund_within rt transactionId reason =
      bindM (lockForUpdate transactionId) (\<lambda>found.
      case found of
        None \<Rightarrow> throwM (RastaError NOT_FOUND ''Transaction'')
      | Some t \<Rightarrow>
          bindM (authorizeAct rt (lt_row t) CMD_REFUND) (\<lambda>lockedRowAuthority.
          bindM (liftM (nextStatus (t_status (lt_row t)) REFUND No_Facts)) (\<lambda>target.
          bindM (findByOrganizationUnscoped (t_organizationId (lt_row t)) (t_currency (lt_row t))) (\<lambda>foundWallet.
          case foundWallet of
            None \<Rightarrow> throwM (RastaError NOT_FOUND ''Wallet'')
          | Some wallet \<Rightarrow>
              bindM (lock [w_id wallet]) (\<lambda>rows.
              case rows of
                [] \<Rightarrow> throwM (RastaError INTERNAL_ERROR ''Wallet vanished while locking it'')
              | locked # _ \<Rightarrow>
                  bindM (findActiveHold (w_id wallet) (t_organizationId (lt_row t)) transactionId TRANSACTION) (\<lambda>hold.
                  apply_refund rt transactionId t lockedRowAuthority target locked hold reason))))))"

definition refund :: "'a runtime_scheme \<Rightarrow> string \<Rightarrow> string \<Rightarrow> (obligation \<times> bool) tx" where
  "refund rt transactionId reason = transaction (refund_within rt transactionId reason)"

datatype transaction_act = READ | ACT financial_command

definition assertMayReplay :: "'a runtime_scheme \<Rightarrow> string \<Rightarrow> transaction_act \<Rightarrow> unit tx" where
  "assertMayReplay rt transactionId act =
     bindM (findByIdForParty transactionId) (\<lambda>found.
     case found of
       None \<Rightarrow> throwM (RastaError NOT_FOUND ''Transaction'')
     | Some t \<Rightarrow> (case act of
                    READ \<Rightarrow> liftM (assertTransactionVisible rt t)
                  | ACT command \<Rightarrow> thenM (authorizeAct rt t command) (returnM ())))"

section \<open>statement-obligation.ts\<close>

definition STATEMENT_OBLIGATION_READ_CALLER :: string where
  "STATEMENT_OBLIGATION_READ_CALLER = ''contract-service''"

definition assertStatementObligationReadCaller :: "'a request_context_scheme \<Rightarrow> failure + unit" where
  "assertStatementObligationReadCaller c =
     assertE (\<not> (authType c \<noteq> SERVICE \<or> callerService c \<noteq> Some STATEMENT_OBLIGATION_READ_CALLER))
       (forbidden ''This endpoint is reserved for the statement settlement reader'')"

record statement_obligation_view =
  so_obligationId :: string
  so_statementId :: string
  so_status :: transaction_status
  so_amountMinor :: string
  so_currency :: string
  so_payerOrganizationId :: string
  so_beneficiaryOrganizationId :: string
  so_settlementId :: "string option"
  so_settledAt :: "int option"
  so_settledAmountMinor :: "string option"
  so_fullySettled :: bool

definition findStatementObligation :: "string \<Rightarrow> string \<Rightarrow> (obligation \<times> settlement option) option tx" where
  "findStatementObligation org statementId =
     getsM (\<lambda>s. map_option (\<lambda>t. (t, find (\<lambda>x. s_organizationId x = org \<and> s_transactionId x = t_id t) (settlements s)))
       (find_source s org STATEMENT_SOURCE_TYPE statementId))"

definition fullySettledOf :: "obligation \<Rightarrow> settlement option \<Rightarrow> failure + bool" where
  "fullySettledOf row st =
     (if t_status row = SETTLED
      then (case st of
              Some x \<Rightarrow> if s_grossAmountMinor x \<noteq> t_grossAmountMinor row
                        then Inl (PlainError ''SETTLED obligation has no settlement of its whole amount'') else Inr True
            | None \<Rightarrow> Inl (PlainError ''SETTLED obligation has no settlement of its whole amount''))
      else if st \<noteq> None then Inl (PlainError ''Obligation has a settlement but is not SETTLED'')
      else Inr False)"

definition toStatementObligationView ::
  "obligation \<Rightarrow> settlement option \<Rightarrow> failure + statement_obligation_view"
where
  "toStatementObligationView row st =
     (case (t_counterpartyOrganizationId row, t_sourceReference row) of
        (Some payee, Some statementId) \<Rightarrow>
          if payee = [] \<or> statementId = [] then Inl (PlainError ''STATEMENT obligation names no beneficiary or no statement'')
          else bindE (fullySettledOf row st) (\<lambda>fullySettled.
            Inr \<lparr>so_obligationId = t_id row, so_statementId = statementId, so_status = t_status row,
              so_amountMinor = formatMinor (t_grossAmountMinor row), so_currency = t_currency row,
              so_payerOrganizationId = t_organizationId row, so_beneficiaryOrganizationId = payee,
              so_settlementId = map_option s_id st, so_settledAt = map_option s_settledAt st,
              so_settledAmountMinor = map_option (\<lambda>x. formatMinor (s_grossAmountMinor x)) st,
              so_fullySettled = fullySettled\<rparr>)
      | _ \<Rightarrow> Inl (PlainError ''STATEMENT obligation names no beneficiary or no statement''))"

definition statementObligation :: "'a runtime_scheme \<Rightarrow> string \<Rightarrow> statement_obligation_view tx" where
  "statementObligation rt statementId =
     thenM (liftM (assertStatementObligationReadCaller rt))
    (bindM (liftM (getOrganizationId rt)) (\<lambda>payer.
     bindM (findStatementObligation payer statementId) (\<lambda>found.
     case found of
       None \<Rightarrow> throwM (RastaError NOT_FOUND ''Obligation'')
     | Some (row, st) \<Rightarrow> liftM (toStatementObligationView row st))))"

end
