(* ===== verification/Wallet_Laws.thy ===== *)
theory Wallet_Laws
  imports Wallet
begin

text \<open>
  The wallet invariant: every stored balance is the ledger's (\<open>wallet_synced\<close>), the escrow balance of
  an owner is the sum of its active holds (\<open>escrow_backed\<close>), and an organization without a wallet has
  no wallet money. \<open>books_ok\<close> adds the ledger's own invariant. Each operation is first described by
  what it does to the balances and the rows, then shown to keep \<open>books_ok\<close>.
\<close>

section \<open>The invariant\<close>

definition wallet_key :: "wallet \<Rightarrow> string \<times> string" where
  "wallet_key w = (w_organizationId w, w_currency w)"

definition wallet_balances :: "wallet \<Rightarrow> balances" where
  "wallet_balances w = \<lparr>ledgerBalanceMinor = w_ledgerBalanceMinor w,
     pendingBalanceMinor = w_pendingBalanceMinor w, availableBalanceMinor = w_availableBalanceMinor w\<rparr>"

definition wallet_synced :: "db \<Rightarrow> wallet \<Rightarrow> bool" where
  "wallet_synced s w \<longleftrightarrow>
     wallet_balances w = ledger_balances s (w_organizationId w) (w_currency w) \<and>
     isConsistent (wallet_balances w) \<and> within_limit (wallet_balances w)"

definition escrow_backed :: "db \<Rightarrow> wallet \<Rightarrow> bool" where
  "escrow_backed s w \<longleftrightarrow>
     purpose_balance s (w_organizationId w) ESCROW (w_currency w) = activeHoldTotal s (w_id w)"

definition wallets_unique :: "db \<Rightarrow> bool" where
  "wallets_unique s \<longleftrightarrow> distinct (map w_id (wallets s)) \<and> distinct (map wallet_key (wallets s))"

definition holds_ok :: "db \<Rightarrow> bool" where
  "holds_ok s \<longleftrightarrow> distinct (map h_id (holds s)) \<and>
     (\<forall>h\<in>set (holds s). 0 < h_amountMinor h \<and>
        (\<exists>w\<in>set (wallets s). w_id w = h_walletId h \<and> wallet_key w = (h_organizationId h, h_currency h)))"

definition walletless_zero :: "db \<Rightarrow> bool" where
  "walletless_zero s \<longleftrightarrow>
     (\<forall>a\<in>set (accounts s). a_purpose a \<in> {WALLET, ESCROW} \<longrightarrow>
        (a_organizationId a, a_currency a) \<notin> wallet_key ` set (wallets s) \<longrightarrow>
        account_credit s (a_id a) = 0)"

definition wallet_ok :: "db \<Rightarrow> bool" where
  "wallet_ok s \<longleftrightarrow>
     wallets_unique s \<and> holds_ok s \<and> walletless_zero s \<and>
     (\<forall>w\<in>set (wallets s). wallet_synced s w \<and> escrow_backed s w)"

definition books_ok :: "db \<Rightarrow> bool" where
  "books_ok s \<longleftrightarrow> ledger_ok s \<and> wallet_ok s"

lemma books_ok_empty: "books_ok empty_db"
  by (simp add: books_ok_def ledger_ok_empty wallet_ok_def wallets_unique_def holds_ok_def
      walletless_zero_def)

lemma books_ok_cong:
  "ledger_part s' = ledger_part s \<Longrightarrow> wallet_part s' = wallet_part s \<Longrightarrow> books_ok s' = books_ok s"
  using ledger_ok_cong [of s' s]
  by (simp add: books_ok_def wallet_ok_def wallets_unique_def holds_ok_def walletless_zero_def
      wallet_synced_def escrow_backed_def ledger_balances_def purpose_balance_def account_credit_def
      activeHoldTotal_def ledger_part_def wallet_part_def)

lemma keeps_books_unchanged:
  "unchanged (\<lambda>s. (ledger_part s, wallet_part s)) m \<Longrightarrow> keeps books_ok m"
  by (erule keeps_unchanged) (metis Pair_inject books_ok_cong)

text \<open>An owner without a wallet has nothing in its wallet or escrow account.\<close>

lemma walletless_zeroD:
  assumes "books_ok s" and "(org, cur) \<notin> wallet_key ` set (wallets s)" and "p \<in> {WALLET, ESCROW}"
  shows "purpose_balance s org p cur = 0"
proof (cases "\<exists>i. keyed s i (org, p, cur)")
  case True
  then obtain a where a: "a \<in> set (accounts s)" "account_key a = (org, p, cur)"
    by (auto simp: keyed_def)
  with assms have "account_credit s (a_id a) = 0"
    by (auto simp: books_ok_def wallet_ok_def walletless_zero_def account_key_def)
  moreover have "purpose_balance s org p cur = account_credit s (a_id a)"
    using a assms(1) by (intro purpose_balance_keyed) (auto simp: books_ok_def ledger_ok_def keyed_def)
  ultimately show ?thesis by simp
qed (rule purpose_balance_none)

lemma walletless_zeroI:
  assumes "accounts_ok s"
    and "\<And>org cur p. (org, cur) \<notin> wallet_key ` set (wallets s) \<Longrightarrow> p \<in> {WALLET, ESCROW} \<Longrightarrow>
      purpose_balance s org p cur = 0"
  shows "walletless_zero s"
proof -
  have "account_credit s (a_id a) = 0"
    if "a \<in> set (accounts s)" "a_purpose a \<in> {WALLET, ESCROW}"
      "(a_organizationId a, a_currency a) \<notin> wallet_key ` set (wallets s)" for a
  proof -
    have "keyed s (a_id a) (a_organizationId a, a_purpose a, a_currency a)"
      using that(1) by (auto simp: keyed_def account_key_def)
    with that assms purpose_balance_keyed [OF assms(1)] show ?thesis by metis
  qed
  then show ?thesis by (simp add: walletless_zero_def)
qed

section \<open>Recomputing\<close>

lemma recomputeFromLedger_Inr:
  assumes "recomputeFromLedger w s = Inr (b, s')"
  shows "b = ledger_balances s (w_organizationId w) (w_currency w) \<and> isConsistent b \<and> within_limit b \<and>
    s' = s\<lparr>wallets := map (\<lambda>v. if w_id v = w_id w then set_balances b v else v) (wallets s)\<rparr>"
  using assms
  by (auto simp: recomputeFromLedger_def action_Inr ledger_balances_def balancesFrom_def)

lemma set_balances_simps [simp]:
  "w_id (set_balances b w) = w_id w" "wallet_key (set_balances b w) = wallet_key w"
  "w_organizationId (set_balances b w) = w_organizationId w" "w_currency (set_balances b w) = w_currency w"
  "wallet_balances (set_balances b w) = b"
  by (simp_all add: set_balances_def wallet_key_def wallet_balances_def)

text \<open>
  What an operation has to establish: its movements stay on the keys \<open>K\<close>, which are wallets it
  recomputed, and the holds it placed or resolved match its movement on escrow.
\<close>

definition resynced :: "db \<Rightarrow> (string \<times> string) set \<Rightarrow> db \<Rightarrow> bool" where
  "resynced s K s' \<longleftrightarrow>
     (\<exists>f. wallets s' = map f (wallets s) \<and>
        (\<forall>v\<in>set (wallets s). w_id (f v) = w_id v \<and> wallet_key (f v) = wallet_key v \<and>
           (if wallet_key v \<in> K then wallet_synced s' (f v) else f v = v)))"

lemma resynced_unique:
  assumes "resynced s K s'"
  shows "map w_id (wallets s') = map w_id (wallets s)" "map wallet_key (wallets s') = map wallet_key (wallets s)"
  using assms by (auto simp: resynced_def)

lemma books_ok_resynced:
  assumes ok: "books_ok s" and led: "ledger_ok s'" and re: "resynced s K s'"
    and K: "K \<subseteq> wallet_key ` set (wallets s)"
    and mv: "\<And>org p cur. p \<in> {WALLET, ESCROW} \<Longrightarrow>
      purpose_balance s' org p cur = purpose_balance s org p cur + (if (org, cur) \<in> K then d (org, p, cur) else 0)"
    and ho: "holds_ok s'"
    and hs: "\<And>v. v \<in> set (wallets s) \<Longrightarrow> activeHoldTotal s' (w_id v) =
      activeHoldTotal s (w_id v) + (if wallet_key v \<in> K then d (w_organizationId v, ESCROW, w_currency v) else 0)"
  shows "books_ok s'"
proof -
  note u = resynced_unique [OF re]
  from u(2) have keys: "wallet_key ` set (wallets s') = wallet_key ` set (wallets s)"
    by (metis set_map)
  obtain f where f: "wallets s' = map f (wallets s)"
      "\<And>v. v \<in> set (wallets s) \<Longrightarrow> w_id (f v) = w_id v \<and> wallet_key (f v) = wallet_key v \<and>
         (if wallet_key v \<in> K then wallet_synced s' (f v) else f v = v)"
    using re by (auto simp: resynced_def)
  have "wallets_unique s'" using ok u by (simp add: books_ok_def wallet_ok_def wallets_unique_def)
  moreover have "walletless_zero s'"
  proof (rule walletless_zeroI)
    show "accounts_ok s'" using led by (simp add: ledger_ok_def)
    fix org cur and p :: purpose
    assume "(org, cur) \<notin> wallet_key ` set (wallets s')" and p: "p \<in> {WALLET, ESCROW}"
    then have "(org, cur) \<notin> wallet_key ` set (wallets s)" using keys by simp
    with K p mv walletless_zeroD [OF ok] show "purpose_balance s' org p cur = 0" by auto
  qed
  moreover have "wallet_synced s' (f v) \<and> escrow_backed s' (f v)" if v: "v \<in> set (wallets s)" for v
  proof -
    from f(2) [OF v] have k: "w_organizationId (f v) = w_organizationId v" "w_currency (f v) = w_currency v"
      by (simp_all add: wallet_key_def)
    have old: "wallet_synced s v" "escrow_backed s v"
      using ok v by (simp_all add: books_ok_def wallet_ok_def)
    have "wallet_synced s' (f v)"
    proof (cases "wallet_key v \<in> K")
      case False
      then have "ledger_balances s' (w_organizationId v) (w_currency v) =
          ledger_balances s (w_organizationId v) (w_currency v)"
        using mv by (simp add: ledger_balances_def wallet_key_def)
      moreover from False f(2) [OF v] have "f v = v" by simp
      ultimately show ?thesis using old(1) unfolding wallet_synced_def by metis
    qed (use f(2) [OF v] in simp)
    moreover have "escrow_backed s' (f v)"
      using old(2) mv [of ESCROW] hs [OF v] f(2) [OF v] k
      by (simp add: escrow_backed_def wallet_key_def)
    ultimately show ?thesis by simp
  qed
  ultimately show ?thesis using led ho f(1) by (auto simp: books_ok_def wallet_ok_def)
qed

text \<open>One wallet recomputed last.\<close>

lemma wallets_by_id:
  "wallets_unique s \<Longrightarrow> v \<in> set (wallets s) \<Longrightarrow> w \<in> set (wallets s) \<Longrightarrow>
    w_id v = w_id w \<longleftrightarrow> wallet_key v = wallet_key w"
  by (auto simp: wallets_unique_def dest: distinct_map_eq)

lemma resynced_one:
  assumes un: "wallets_unique s" and w: "w \<in> set (wallets s)"
    and eq: "wallets s' = map (\<lambda>v. if w_id v = w_id w then set_balances b v else v) (wallets s)"
    and b: "b = ledger_balances s' (w_organizationId w) (w_currency w)" "isConsistent b" "within_limit b"
  shows "resynced s {wallet_key w} s'"
  unfolding resynced_def
proof (intro exI conjI ballI)
  show "wallets s' = map (\<lambda>v. if w_id v = w_id w then set_balances b v else v) (wallets s)" by (rule eq)
  fix v assume v: "v \<in> set (wallets s)"
  show "w_id (if w_id v = w_id w then set_balances b v else v) = w_id v" by simp
  show "wallet_key (if w_id v = w_id w then set_balances b v else v) = wallet_key v" by simp
  show "if wallet_key v \<in> {wallet_key w}
      then wallet_synced s' (if w_id v = w_id w then set_balances b v else v)
      else (if w_id v = w_id w then set_balances b v else v) = v"
    using wallets_by_id [OF un v w] b by (auto simp: wallet_synced_def wallet_key_def)
qed

section \<open>Opening a wallet\<close>

lemma create_wallet_Inr:
  assumes "create_wallet rt i org cur acc s = Inr (w, s')"
  shows "\<exists>n. s' = s\<lparr>ticks := n, wallets := wallets s @ [w]\<rparr> \<and> w_id w = i \<and> wallet_key w = (org, cur) \<and>
    w_status w = W_ACTIVE \<and> wallet_balances w = balancesFrom 0 0 \<and>
    (\<forall>v\<in>set (wallets s). w_id v \<noteq> i \<and> wallet_key v \<noteq> (org, cur))"
  using assms
  by (auto simp: create_wallet_def Let_def action_Inr source_Inr wallet_key_def wallet_balances_def
      balancesFrom_def intro!: exI [of _ "Suc (ticks s)"])

lemma unchanged_create_wallet [unchanged_rules]:
  "tickless f \<Longrightarrow> (\<And>s xs. f (s\<lparr>wallets := xs\<rparr>) = f s) \<Longrightarrow> unchanged f (create_wallet rt i org cur acc)"
  unfolding create_wallet_def Let_def by (intro unchanged_rules) auto

text \<open>A new, empty wallet keeps the invariant: nobody held money under its key.\<close>

lemma books_ok_new_wallet:
  assumes ok: "books_ok s" and led: "ledger_ok s'"
    and bal: "\<And>org p cur. purpose_balance s' org p cur = purpose_balance s org p cur"
    and ws: "wallets s' = wallets s @ [w]" and hs: "holds s' = holds s"
    and w: "wallet_balances w = balancesFrom 0 0"
      "\<forall>v\<in>set (wallets s). w_id v \<noteq> w_id w \<and> wallet_key v \<noteq> wallet_key w"
  shows "books_ok s'"
proof -
  have nokey: "wallet_key w \<notin> wallet_key ` set (wallets s)" using w(2) by force
  have "wallets_unique s'"
    using ok ws w(2) by (auto simp: books_ok_def wallet_ok_def wallets_unique_def)
  moreover have "holds_ok s'" using ok ws hs by (auto simp: books_ok_def wallet_ok_def holds_ok_def)
  moreover have "walletless_zero s'"
    using led ws bal walletless_zeroD [OF ok] by (intro walletless_zeroI) (auto simp: ledger_ok_def)
  moreover have lb: "ledger_balances s' org cur = ledger_balances s org cur" for org cur
    by (simp add: ledger_balances_def bal)
  have zero: "ledger_balances s (w_organizationId w) (w_currency w) = balancesFrom 0 0"
    using nokey walletless_zeroD [OF ok] by (simp add: ledger_balances_def wallet_key_def)
  have "wallet_synced s' w"
    using w(1) zero lb by (simp add: wallet_synced_def isConsistent_def within_limit_def
        balancesFrom_def MAX_AMOUNT_MINOR_def)
  moreover have "escrow_backed s' w"
  proof -
    have "\<forall>h\<in>set (holds s). h_walletId h \<noteq> w_id w"
      using ok w(2) by (force simp: books_ok_def wallet_ok_def holds_ok_def)
    then have "filter (\<lambda>h. h_walletId h = w_id w \<and> h_status h = H_ACTIVE) (holds s) = []"
      by (simp add: filter_empty_conv)
    with nokey walletless_zeroD [OF ok, of "w_organizationId w" "w_currency w" ESCROW] hs bal
    show ?thesis by (simp add: escrow_backed_def activeHoldTotal_def wallet_key_def)
  qed
  moreover have "\<forall>v\<in>set (wallets s). wallet_synced s' v \<and> escrow_backed s' v"
    using ok lb bal hs
    by (auto simp: books_ok_def wallet_ok_def wallet_synced_def escrow_backed_def activeHoldTotal_def)
  ultimately show ?thesis using led ws by (simp add: books_ok_def wallet_ok_def)
qed

lemma open_within_Inr:
  assumes ok: "books_ok s" and op: "open_within rt org cur s = Inr (w, s')"
  shows "books_ok s' \<and> w \<in> set (wallets s') \<and> wallet_key w = (org, cur) \<and> wallets s' = wallets s @ [w] \<and>
    (\<forall>k. bal_at s' k = bal_at s k)"
proof -
  from op obtain a1 a2 s1 s2 n i s4 u where
    r1: "resolveAccount rt WALLET org cur (actor_name rt) s = Inr (a1, s1)"
    and r2: "resolveAccount rt ESCROW org cur (actor_name rt) s1 = Inr (a2, s2)"
    and cw: "create_wallet rt i org cur (a_id a1) (s2\<lparr>ticks := n\<rparr>) = Inr (w, s4)"
    and en: "enqueue rt i org (WalletOpened i org cur (w_createdAt w)) None s4 = Inr (u, s')"
    by (auto simp: open_within_def Let_def action_Inr source_Inr)
  have l1: "ledger_ok s1" "\<forall>k. bal_at s1 k = bal_at s k"
    using resolveAccount_law [OF _ r1] ok by (simp_all add: books_ok_def)
  have l2: "ledger_ok s2" "\<forall>k. bal_at s2 k = bal_at s1 k"
    using resolveAccount_law [OF l1(1) r2] by simp_all
  have w12: "wallet_part s2 = wallet_part s"
    using unchangedD [OF unchanged_resolveAccount [of wallet_part] r1]
      unchangedD [OF unchanged_resolveAccount [of wallet_part] r2] by simp
  obtain m where c: "s4 = s2\<lparr>ticks := m, wallets := wallets s2 @ [w]\<rparr>" "w_id w = i" "wallet_key w = (org, cur)"
      "wallet_balances w = balancesFrom 0 0" "\<forall>v\<in>set (wallets s2). w_id v \<noteq> i \<and> wallet_key v \<noteq> (org, cur)"
    using create_wallet_Inr [OF cw] by auto
  note d = same_dataD [OF enqueue_same_data [OF en]]
  have ledger: "ledger_part s' = ledger_part s2" using c(1) d by (simp add: ledger_part_def)
  have bal: "purpose_balance s' o' p' c' = purpose_balance s o' p' c'" for o' p' c'
  proof -
    have "purpose_balance s' o' p' c' = purpose_balance s2 o' p' c'"
      using ledger by (intro purpose_balance_cong) (simp_all add: ledger_part_def)
    also have "\<dots> = purpose_balance s o' p' c'"
      using l1(2) l2(2) by (metis bal_at_def case_prod_conv)
    finally show ?thesis .
  qed
  have ws: "wallets s' = wallets s @ [w]" "holds s' = holds s"
    using w12 c(1) d by (simp_all add: wallet_part_def)
  have new: "\<forall>v\<in>set (wallets s). w_id v \<noteq> w_id w \<and> wallet_key v \<noteq> wallet_key w"
    using w12 c by (simp add: wallet_part_def)
  have "ledger_ok s'" using ledger l2(1) ledger_ok_cong by blast
  with books_ok_new_wallet [OF ok _ bal ws c(4) new] ws c(3) bal show ?thesis
    by (auto simp: bal_at_def split: prod.splits)
qed

lemma resolveCounterpartyWallet_Inr:
  assumes "books_ok s" and "resolveCounterpartyWallet rt org cur s = Inr (w, s')"
  shows "books_ok s' \<and> w \<in> set (wallets s') \<and> wallet_key w = (org, cur) \<and>
    (\<forall>v\<in>set (wallets s). v \<in> set (wallets s')) \<and> (\<forall>k. bal_at s' k = bal_at s k)"
proof (cases "find_wallet s org cur")
  case (Some v)
  with assms show ?thesis
    by (auto simp: resolveCounterpartyWallet_def findByOrganizationUnscoped_def action_Inr
        find_wallet_def wallet_key_def dest: find_SomeD)
next
  case None
  with assms have "open_within rt org cur s = Inr (w, s')"
    by (simp add: resolveCounterpartyWallet_def findByOrganizationUnscoped_def action_Inr)
  from open_within_Inr [OF assms(1) this] show ?thesis by auto
qed

section \<open>Moving money on one wallet\<close>

definition locked_rows :: "db \<Rightarrow> string list \<Rightarrow> wallet list" where
  "locked_rows s ids = sort_key w_id (filter (\<lambda>w. w_id w \<in> set ids) (wallets s))"

lemma lock_Inr: "lock ids s = Inr (ws, s') \<longleftrightarrow> s' = s \<and> ws = locked_rows s ids"
  by (auto simp: lock_def Let_def locked_rows_def)

lemma locked_rows_set: "set (locked_rows s ids) = {w \<in> set (wallets s). w_id w \<in> set ids}"
  by (auto simp: locked_rows_def)

lemma holds_ok_recomputed:
  assumes "holds_ok s" and "holds s' = holds s"
    and "wallets s' = map (\<lambda>v. if w_id v = i then set_balances b v else v) (wallets s)"
  shows "holds_ok s'"
  unfolding holds_ok_def
proof (intro conjI ballI)
  show "distinct (map h_id (holds s'))" using assms by (simp add: holds_ok_def)
  fix h assume h: "h \<in> set (holds s')"
  then show "0 < h_amountMinor h" using assms by (simp add: holds_ok_def)
  from h assms obtain w where w: "w \<in> set (wallets s)" "w_id w = h_walletId h"
      "wallet_key w = (h_organizationId h, h_currency h)"
    by (auto simp: holds_ok_def)
  then show "\<exists>w\<in>set (wallets s'). w_id w = h_walletId h \<and> wallet_key w = (h_organizationId h, h_currency h)"
    using assms(3) by (intro bexI [of _ "if w_id w = i then set_balances b w else w"]) auto
qed

text \<open>The common end of every movement: the wallet is recomputed last, the rest is the outbox.\<close>

lemma books_ok_moved:
  assumes ok: "books_ok s" and w: "w \<in> set (wallets s)"
    and led: "ledger_ok s4" and ws: "wallets s4 = wallets s"
    and bal: "\<And>org p cur. p \<in> {WALLET, ESCROW} \<Longrightarrow> purpose_balance s4 org p cur =
        purpose_balance s org p cur + (if (org, cur) = wallet_key w then (if p = WALLET then dw else de) else 0)"
    and ho: "holds_ok s4"
    and tot: "\<And>i. activeHoldTotal s4 i = activeHoldTotal s i + (if i = w_id w then de else 0)"
    and rc: "recomputeFromLedger w s4 = Inr (b, s5)" and sd: "same_data s5 s'"
  shows "books_ok s' \<and> b = ledger_balances s' (w_organizationId w) (w_currency w) \<and>
    ledger_part s' = ledger_part s4 \<and> holds s' = holds s4 \<and>
    wallets s' = map (\<lambda>v. if w_id v = w_id w then set_balances b v else v) (wallets s)"
proof -
  note r = recomputeFromLedger_Inr [OF rc]
  note d = same_dataD [OF sd]
  have un: "wallets_unique s" using ok by (simp add: books_ok_def wallet_ok_def)
  have lp: "ledger_part s' = ledger_part s4" using r d by (simp add: ledger_part_def)
  have pb: "purpose_balance s' o' p c' = purpose_balance s4 o' p c'" for o' p c'
    using lp by (intro purpose_balance_cong) (simp_all add: ledger_part_def)
  have w': "wallets s' = map (\<lambda>v. if w_id v = w_id w then set_balances b v else v) (wallets s)"
    and h': "holds s' = holds s4" using r d ws by simp_all
  have b: "b = ledger_balances s' (w_organizationId w) (w_currency w)"
    using r pb by (simp add: ledger_balances_def)
  have "ledger_ok s'" using led lp ledger_ok_cong by blast
  moreover have "resynced s {wallet_key w} s'"
    using resynced_one [OF un w w' b] r by blast
  moreover have "holds_ok s'" using holds_ok_recomputed [OF ho h', of "w_id w" b] w' ws by simp
  moreover have "activeHoldTotal s' i = activeHoldTotal s4 i" for i
    using h' by (simp add: activeHoldTotal_def)
  ultimately have "books_ok s'"
    using w bal pb tot wallets_by_id [OF un _ w]
    by (intro books_ok_resynced [OF ok, of s' "{wallet_key w}" "\<lambda>(o', p, c'). if p = WALLET then dw else de"])
      auto
  with b lp h' w' show ?thesis by blast
qed

lemma bal_at_cong: "ledger_part s' = ledger_part s \<Longrightarrow> bal_at s' k = bal_at s k"
  by (cases k) (simp add: bal_at_def ledger_part_def purpose_balance_def account_credit_def)

lemma purpose_balance_bal_at: "purpose_balance s org p cur = bal_at s (org, p, cur)"
  by (simp add: bal_at_def)

lemma ownerOf_tenant [simp]: "ownerOf rt WALLET org = org" "ownerOf rt ESCROW org = org"
  by (simp_all add: ownerOf_def isPlatformPurpose_def TENANT_OWNED_def)

lemma leg_signed [simp]:
  "d_accountId (leg a dir v cur) = a_id a" "d_signed (leg a DEBIT v cur) = v" "d_signed (leg a CREDIT v cur) = - v"
  by (simp_all add: leg_def d_signed_def signedValue_def)

text \<open>Resolving the accounts and posting leave the wallets and the holds alone.\<close>

lemma transfer_wallet_part:
  assumes "resolveAccount rt p1 o1 c1 by' s = Inr (a1, s1)" and "resolveAccount rt p2 o2 c2 by'' s1 = Inr (a2, s2)"
    and "post rt d pb books s2 = Inr (pj, s3)"
  shows "wallet_part s3 = wallet_part s"
  using unchangedD [OF unchanged_resolveAccount [of wallet_part] assms(1)]
    unchangedD [OF unchanged_resolveAccount [of wallet_part] assms(2)]
    unchangedD [OF unchanged_post [of wallet_part] assms(3)] by simp

subsection \<open>Credit\<close>

lemma credit_Inr:
  assumes ok: "books_ok s" and w: "w \<in> set (wallets s)" and cp: "isPlatformPurpose cp"
    and cr: "credit rt w amount cp jt desc tid by' s = Inr ((jid, b), s')"
  shows "books_ok s' \<and> 0 < amount \<and> holds s' = holds s \<and>
    b = ledger_balances s' (w_organizationId w) (w_currency w) \<and>
    (\<forall>k. bal_at s' k = bal_at s k + (if k = (w_organizationId w, WALLET, w_currency w) then amount else 0) -
       (if k = (ECONOMIC_PLATFORM_ORGANIZATION_ID rt, cp, w_currency w) then amount else 0))"
proof -
  from cr obtain locked rest a1 a2 s1 s2 s3 pj where
    pos: "0 < amount" and lk: "locked_rows s [w_id w] = locked # rest"
    and r1: "resolveAccount rt WALLET (w_organizationId w) (w_currency w) by' s = Inr (a1, s1)"
    and r2: "resolveAccount rt cp (w_organizationId w) (w_currency w) by' s1 = Inr (a2, s2)"
    and po: "post rt \<lparr>dj_journalType = jt, dj_description = desc, dj_organizationId = w_organizationId w,
         dj_transactionId = tid, dj_entries = [leg a2 DEBIT amount (w_currency w), leg a1 CREDIT amount (w_currency w)],
         dj_postedAt = None, dj_reverses = None\<rparr> by' None s2 = Inr (pj, s3)"
    and rc: "recomputeFromLedger locked s3 = Inr (b, s')"
    by (auto simp: credit_def action_Inr not_le lock_Inr)
  have "locked = w"
  proof -
    have "locked \<in> set (wallets s)" "w_id locked = w_id w"
      using locked_rows_set [of s "[w_id w]"] lk by auto
    with w ok show ?thesis
      by (auto simp: books_ok_def wallet_ok_def wallets_unique_def dest: distinct_map_eq)
  qed
  with rc have rc: "recomputeFromLedger w s3 = Inr (b, s')" by simp
  have led: "ledger_ok s" using ok by (simp add: books_ok_def)
  have t: "ledger_ok s3" "\<forall>k. bal_at s3 k = bal_at s k +
      (if k = (w_organizationId w, WALLET, w_currency w) then amount else 0) +
      (if k = (ownerOf rt cp (w_organizationId w), cp, w_currency w) then - amount else 0)"
    using transfer_law [OF led r1 r2 po, of amount "- amount"] by (simp_all add: draft_legs_def)
  have own: "ownerOf rt cp (w_organizationId w) = ECONOMIC_PLATFORM_ORGANIZATION_ID rt"
    using cp by (simp add: ownerOf_def)
  have notw: "cp \<noteq> WALLET" "cp \<noteq> ESCROW"
    using cp by (auto simp: isPlatformPurpose_def TENANT_OWNED_def)
  have wp: "wallets s3 = wallets s" "holds s3 = holds s"
    using transfer_wallet_part [OF r1 r2 po] by (simp_all add: wallet_part_def)
  have ho: "holds_ok s3" using ok wp by (simp add: books_ok_def wallet_ok_def holds_ok_def)
  have bal: "purpose_balance s3 org p cur = purpose_balance s org p cur +
      (if (org, cur) = wallet_key w then (if p = WALLET then amount else 0) else 0)"
    if "p \<in> {WALLET, ESCROW}" for org p cur
    unfolding purpose_balance_bal_at t(2) [rule_format] wallet_key_def using that notw by auto
  have tot: "activeHoldTotal s3 i = activeHoldTotal s i + (if i = w_id w then 0 else 0)" for i
    using wp by (simp add: activeHoldTotal_def)
  note m = books_ok_moved [OF ok w t(1) wp(1) bal ho tot rc same_data_refl]
  then have "bal_at s' k = bal_at s3 k" for k by (metis bal_at_cong)
  with m t own pos wp show ?thesis by auto
qed

subsection \<open>Holds\<close>

lemma createHold_Inr:
  assumes "createHold h s = Inr (u, s')"
  shows "s' = s\<lparr>holds := holds s @ [h]\<rparr> \<and> hold_reference_bound s h \<and> \<not> hold_taken s h \<and> 0 < h_amountMinor h"
  using assms by (auto simp: createHold_def action_Inr)

lemma resolveHold_Inr:
  assumes "resolveHold i st jid at by' note s = Inr (n, s')"
  shows "s' = s\<lparr>holds := map (\<lambda>h. if h_id h = i \<and> h_status h = H_ACTIVE
         then h\<lparr>h_status := st, h_resolvedJournalId := Some jid, h_resolvedAt := Some at,
                h_resolvedBy := Some by', h_resolutionNote := note\<rparr> else h) (holds s)\<rparr> \<and>
    n = length (filter (\<lambda>h. h_id h = i \<and> h_status h = H_ACTIVE) (holds s)) \<and>
    (n = 0 \<or> wallet_hold_funded s i)"
  using assms by (auto simp: resolveHold_def action_Inr)

lemma activeHoldTotal_if:
  "activeHoldTotal s i = (\<Sum>h\<leftarrow>holds s. if h_walletId h = i \<and> h_status h = H_ACTIVE then h_amountMinor h else 0)"
  by (simp add: activeHoldTotal_def sum_list_map_filter')

text \<open>Resolving the active hold of an id takes its amount off its wallet's active total.\<close>

lemma resolve_total:
  assumes "holds_ok s" and h: "h \<in> set (holds s)" "h_status h = H_ACTIVE" and st: "st \<noteq> H_ACTIVE"
    and hs: "holds s' = map (\<lambda>g. if h_id g = h_id h \<and> h_status g = H_ACTIVE
         then g\<lparr>h_status := st, h_resolvedJournalId := j, h_resolvedAt := at,
                h_resolvedBy := by', h_resolutionNote := note\<rparr> else g) (holds s)"
  shows "activeHoldTotal s' i = activeHoldTotal s i - (if i = h_walletId h then h_amountMinor h else 0)"
proof -
  let ?u = "\<lambda>g. g\<lparr>h_status := st, h_resolvedJournalId := j, h_resolvedAt := at,
                h_resolvedBy := by', h_resolutionNote := note\<rparr>"
  let ?v = "\<lambda>g. if h_walletId g = i \<and> h_status g = H_ACTIVE then h_amountMinor g else 0"
  have di: "distinct (map h_id (holds s))" using assms(1) by (simp add: holds_ok_def)
  have "holds s' = map (\<lambda>g. if h_id g = h_id h then ?u g else g) (holds s)"
    using hs h di by (auto dest: distinct_map_eq)
  then have "activeHoldTotal s' i = (\<Sum>g\<leftarrow>holds s. ?v g) - ?v h + ?v (?u h)"
    using sum_list_update_one [OF di h(1), of ?v ?u] by (simp add: activeHoldTotal_if)
  then show ?thesis using st h(2) by (auto simp: activeHoldTotal_if)
qed

lemma holds_ok_resolved:
  assumes "holds_ok s" and "wallets s' = wallets s"
    and "holds s' = map (\<lambda>g. if P g
         then g\<lparr>h_status := st, h_resolvedJournalId := j, h_resolvedAt := at,
                h_resolvedBy := by', h_resolutionNote := note\<rparr> else g) (holds s)"
  shows "holds_ok s'"
proof -
  have "map h_id (holds s') = map h_id (holds s)" using assms(3) by simp
  then have "distinct (map h_id (holds s'))" using assms(1) by (simp add: holds_ok_def)
  moreover have "\<forall>g\<in>set (holds s'). 0 < h_amountMinor g \<and>
      (\<exists>w\<in>set (wallets s'). w_id w = h_walletId g \<and> wallet_key w = (h_organizationId g, h_currency g))"
    using assms by (auto simp: holds_ok_def)
  ultimately show ?thesis by (simp add: holds_ok_def)
qed

lemma holds_ok_placed:
  assumes "holds_ok s" and "w \<in> set (wallets s)" and "\<not> hold_taken s h" and "0 < h_amountMinor h"
    and "w_id w = h_walletId h" and "wallet_key w = (h_organizationId h, h_currency h)"
    and "holds s' = holds s @ [h]" and "wallets s' = wallets s"
  shows "holds_ok s'"
  using assms by (auto simp: holds_ok_def hold_taken_def)

lemma placeHold_replay:
  assumes "placeHold rt w amount ref rty tid by' s = Inr (r, s')" and "hr_replayed r"
  shows "s' = s \<and> (\<exists>h\<in>set (holds s). h_id h = hr_holdId r \<and> h_status h = H_ACTIVE \<and>
    h_walletId h = w_id w \<and> h_organizationId h = w_organizationId w \<and> h_reference h = ref \<and>
    h_referenceType h = rty \<and> h_amountMinor h = amount \<and> h_currency h = w_currency w \<and>
    wallet_hold_funded s (h_id h))"
proof (cases "find (\<lambda>h. h_walletId h = w_id w \<and> h_organizationId h = w_organizationId w \<and>
        h_reference h = ref \<and> h_referenceType h = rty \<and> h_status h = H_ACTIVE \<and>
        (\<exists>v\<in>set (wallets s). w_id v = h_walletId h \<and> w_organizationId v = w_organizationId w)) (holds s)")
  case None
  with assms show ?thesis
    by (auto simp: placeHold_def findActiveHold_def action_Inr)
next
  case (Some h)
  with assms(1) show ?thesis
    using find_SomeD [OF Some] by (auto simp: placeHold_def findActiveHold_def isHoldFunded_def action_Inr)
qed

lemma placeHold_Inr:
  assumes ok: "books_ok s" and w: "w \<in> set (wallets s)"
    and ph: "placeHold rt w amount ref rty tid by' s = Inr (r, s')" and new: "\<not> hr_replayed r"
  shows "books_ok s' \<and> 0 < amount \<and> amount \<le> w_availableBalanceMinor w \<and> w_status w = W_ACTIVE \<and>
    (\<exists>h. holds s' = holds s @ [h] \<and> h_id h = hr_holdId r \<and> h_walletId h = w_id w \<and>
       h_amountMinor h = amount \<and> h_currency h = w_currency w \<and> h_status h = H_ACTIVE \<and>
       h_organizationId h = w_organizationId w \<and> h_reference h = ref \<and> h_referenceType h = rty) \<and>
    hr_balances r = ledger_balances s' (w_organizationId w) (w_currency w) \<and>
    (\<forall>k. bal_at s' k = bal_at s k - (if k = (w_organizationId w, WALLET, w_currency w) then amount else 0) +
       (if k = (w_organizationId w, ESCROW, w_currency w) then amount else 0))"
proof -
  let ?f = "find (\<lambda>h. h_walletId h = w_id w \<and> h_organizationId h = w_organizationId w \<and>
        h_reference h = ref \<and> h_referenceType h = rty \<and> h_status h = H_ACTIVE \<and>
        (\<exists>v\<in>set (wallets s). w_id v = h_walletId h \<and> w_organizationId v = w_organizationId w)) (holds s)"
  have none: "?f = None"
  proof (rule ccontr)
    assume "?f \<noteq> None"
    with ph new show False by (auto simp: placeHold_def findActiveHold_def isHoldFunded_def action_Inr)
  qed
  from ph none obtain a1 a2 s1 s2 s3 pj i at n u b s5 s6 u' where
    act: "w_status w = W_ACTIVE" and pos: "0 < amount" "amount \<le> w_availableBalanceMinor w"
    and r1: "resolveAccount rt WALLET (w_organizationId w) (w_currency w) by' s = Inr (a1, s1)"
    and r2: "resolveAccount rt ESCROW (w_organizationId w) (w_currency w) by' s1 = Inr (a2, s2)"
    and po: "post rt \<lparr>dj_journalType = FUNDS_HELD,
             dj_description = ''Hold for '' @ hold_purpose_name rty @ '' '' @ ref,
             dj_organizationId = w_organizationId w, dj_transactionId = Some tid,
             dj_entries = [leg a1 DEBIT amount (w_currency w), leg a2 CREDIT amount (w_currency w)],
             dj_postedAt = None, dj_reverses = None\<rparr> by' None s2 = Inr (pj, s3)"
    and ch: "createHold \<lparr>h_id = i, h_organizationId = w_organizationId w,
             h_walletId = w_id w, h_amountMinor = amount, h_currency = w_currency w,
             h_status = H_ACTIVE, h_reference = ref, h_referenceType = rty,
             h_placedJournalId = Some (pj_id pj), h_resolvedJournalId = None,
             h_placedAt = at, h_placedBy = by', h_resolvedAt = None,
             h_resolvedBy = None, h_resolutionNote = None\<rparr> (s3\<lparr>ticks := n\<rparr>) = Inr (u, s5)"
    and rc: "recomputeFromLedger w s5 = Inr (b, s6)"
    and en: "enqueue rt i (w_organizationId w) (FundsHeld i (w_id w) (w_organizationId w) tid ref
                rty (formatMinor amount) (w_currency w) at) None s6 = Inr (u', s')"
    and r: "r = \<lparr>hr_holdId = i, hr_journalId = Some (pj_id pj), hr_balances = b, hr_replayed = False\<rparr>"
    by (auto simp: placeHold_def findActiveHold_def action_Inr source_Inr assertSufficient_def bindE_Inr
        balancesFrom_def)
  let ?h = "\<lparr>h_id = i, h_organizationId = w_organizationId w,
             h_walletId = w_id w, h_amountMinor = amount, h_currency = w_currency w,
             h_status = H_ACTIVE, h_reference = ref, h_referenceType = rty,
             h_placedJournalId = Some (pj_id pj), h_resolvedJournalId = None,
             h_placedAt = at, h_placedBy = by', h_resolvedAt = None,
             h_resolvedBy = None, h_resolutionNote = None\<rparr>"
  have led: "ledger_ok s" using ok by (simp add: books_ok_def)
  have t: "ledger_ok s3" "\<forall>k. bal_at s3 k = bal_at s k +
      (if k = (w_organizationId w, WALLET, w_currency w) then - amount else 0) +
      (if k = (w_organizationId w, ESCROW, w_currency w) then amount else 0)"
    using transfer_law [OF led r1 r2 po, of "- amount" amount] by (simp_all add: draft_legs_def)
  have wp: "wallets s3 = wallets s" "holds s3 = holds s"
    using transfer_wallet_part [OF r1 r2 po] by (simp_all add: wallet_part_def)
  have c: "wallets s5 = wallets s" "holds s5 = holds s @ [?h]" "ledger_part s5 = ledger_part s3"
      "\<not> hold_taken s ?h"
    using createHold_Inr [OF ch] wp by (auto simp: ledger_part_def hold_taken_def)
  have l5: "ledger_ok s5" using t(1) c(3) ledger_ok_cong by blast
  have "holds_ok s" using ok by (simp add: books_ok_def wallet_ok_def)
  from holds_ok_placed [OF this w c(4) _ _ _ c(2,1)] pos(1)
  have ho: "holds_ok s5" by (simp add: wallet_key_def)
  have b5: "bal_at s5 k = bal_at s3 k" for k using c(3) by (metis bal_at_cong)
  have bal: "purpose_balance s5 org p cur = purpose_balance s org p cur +
      (if (org, cur) = wallet_key w then (if p = WALLET then - amount else amount) else 0)"
    if "p \<in> {WALLET, ESCROW}" for org p cur
    unfolding purpose_balance_bal_at b5 t(2) [rule_format] wallet_key_def using that by auto
  have tot: "activeHoldTotal s5 i = activeHoldTotal s i + (if i = w_id w then amount else 0)" for i
    using c(2) by (auto simp: activeHoldTotal_def)
  note m = books_ok_moved [OF ok w l5 c(1) bal ho tot rc enqueue_same_data [OF en]]
  have b': "bal_at s' k = bal_at s3 k" for k
    using bal_at_cong [OF conjunct1 [OF conjunct2 [OF conjunct2 [OF m]]], of k] b5 by simp
  show ?thesis
    unfolding b' t(2) [rule_format] using m c(2) act pos r by simp
qed

lemma hold_currency:
  assumes ok: "books_ok s" and w: "w \<in> set (wallets s)" and h: "h \<in> set (holds s)" "h_walletId h = w_id w"
  shows "h_currency h = w_currency w" "h_organizationId h = w_organizationId w"
proof -
  from ok h obtain v where v: "v \<in> set (wallets s)" "w_id v = w_id w"
      "wallet_key v = (h_organizationId h, h_currency h)"
    by (auto simp: books_ok_def wallet_ok_def holds_ok_def)
  with w ok have "v = w" by (auto simp: books_ok_def wallet_ok_def wallets_unique_def dest: distinct_map_eq)
  with v show "h_currency h = w_currency w" "h_organizationId h = w_organizationId w"
    by (simp_all add: wallet_key_def)
qed

text \<open>The hold a refund found is the one it resolved.\<close>

lemma hold_of_SomeD: "hold_of s i = Some h \<Longrightarrow> h \<in> set (holds s) \<and> h_id h = i"
  by (auto simp: hold_of_def dest: find_SomeD)

lemma refundHold_noop:
  assumes "refundHold rt w i rty tid note by' s = Inr (None, s')"
  shows "s' = s"
  using assms by (auto simp: refundHold_def findHoldById_def isHoldFunded_def action_Inr split: if_splits)

lemma refundHold_Inr:
  assumes ok: "books_ok s" and w: "w \<in> set (wallets s)"
    and rf: "refundHold rt w i rty tid note by' s = Inr (Some (jid, amount, b), s')"
  shows "books_ok s' \<and> wallet_hold_funded s i \<and>
    (\<exists>h. hold_of s i = Some h \<and> h_status h = H_ACTIVE \<and> h_walletId h = w_id w \<and> h_amountMinor h = amount \<and>
       h_referenceType h = rty) \<and>
    (\<forall>h'\<in>set (holds s'). h_id h' = i \<longrightarrow> h_status h' = H_REFUNDED \<and> h_resolvedJournalId h' = Some jid) \<and>
    b = ledger_balances s' (w_organizationId w) (w_currency w) \<and>
    (\<forall>k. bal_at s' k = bal_at s k + (if k = (w_organizationId w, WALLET, w_currency w) then amount else 0) -
       (if k = (w_organizationId w, ESCROW, w_currency w) then amount else 0))"
proof -
  from rf obtain h a1 a2 s1 s2 s3 pj n at c s5 s6 u where
    h: "hold_of s i = Some h" "h_status h = H_ACTIVE" "h_walletId h = w_id w" "h_referenceType h = rty"
    and fu: "wallet_hold_funded s (h_id h)"
    and r1: "resolveAccount rt WALLET (w_organizationId w) (w_currency w) by' s = Inr (a1, s1)"
    and r2: "resolveAccount rt ESCROW (w_organizationId w) (w_currency w) by' s1 = Inr (a2, s2)"
    and po: "post rt \<lparr>dj_journalType = FUNDS_REFUNDED, dj_description = ''Refund of hold '' @ i,
             dj_organizationId = w_organizationId w, dj_transactionId = Some tid,
             dj_entries = [leg a2 DEBIT (h_amountMinor h) (h_currency h), leg a1 CREDIT (h_amountMinor h) (h_currency h)],
             dj_postedAt = None, dj_reverses = None\<rparr> by' None s2 = Inr (pj, s3)"
    and rh: "resolveHold i H_REFUNDED (pj_id pj) at by' (Some note) (s3\<lparr>ticks := n\<rparr>) = Inr (c, s5)"
    and rc: "recomputeFromLedger w s5 = Inr (b, s6)"
    and en: "enqueue rt i (w_organizationId w) (FundsReleased i (w_id w) (w_organizationId w) tid
                (h_reference h) (formatMinor (h_amountMinor h)) (h_currency h) H_REFUNDED at) None s6 = Inr (u, s')"
    and res: "jid = pj_id pj" "amount = h_amountMinor h"
    by (auto simp: refundHold_def findHoldById_def isHoldFunded_def action_Inr source_Inr split: if_splits)
  have hin: "h \<in> set (holds s)" "h_id h = i" using hold_of_SomeD [OF h(1)] by auto
  have led: "ledger_ok s" and ho0: "holds_ok s" using ok by (simp_all add: books_ok_def wallet_ok_def)
  have t: "ledger_ok s3" "\<forall>k. bal_at s3 k = bal_at s k +
      (if k = (w_organizationId w, WALLET, w_currency w) then h_amountMinor h else 0) +
      (if k = (w_organizationId w, ESCROW, w_currency w) then - h_amountMinor h else 0)"
    using transfer_law [OF led r1 r2 po, of "h_amountMinor h" "- h_amountMinor h"] by (simp_all add: draft_legs_def)
  have wp: "wallets s3 = wallets s" "holds s3 = holds s"
    using transfer_wallet_part [OF r1 r2 po] by (simp_all add: wallet_part_def)
  let ?hs = "map (\<lambda>g. if h_id g = h_id h \<and> h_status g = H_ACTIVE
         then g\<lparr>h_status := H_REFUNDED, h_resolvedJournalId := Some (pj_id pj), h_resolvedAt := Some at,
                h_resolvedBy := Some by', h_resolutionNote := Some note\<rparr> else g) (holds s)"
  have c: "wallets s5 = wallets s" "holds s5 = ?hs" "ledger_part s5 = ledger_part s3"
    using resolveHold_Inr [OF rh] wp hin(2) by (simp_all add: ledger_part_def)
  have l5: "ledger_ok s5" using t(1) c(3) ledger_ok_cong by blast
  have ho: "holds_ok s5" by (rule holds_ok_resolved [OF ho0 c(1) c(2)])
  have b5: "bal_at s5 k = bal_at s3 k" for k using c(3) by (metis bal_at_cong)
  have bal: "purpose_balance s5 org p cur = purpose_balance s org p cur +
      (if (org, cur) = wallet_key w then (if p = WALLET then h_amountMinor h else - h_amountMinor h) else 0)"
    if "p \<in> {WALLET, ESCROW}" for org p cur
    unfolding purpose_balance_bal_at b5 t(2) [rule_format] wallet_key_def using that by auto
  have tot: "activeHoldTotal s5 j = activeHoldTotal s j + (if j = w_id w then - h_amountMinor h else 0)" for j
    using resolve_total [OF ho0 hin(1) h(2) _ c(2), of j] h(3) by simp
  note m = books_ok_moved [OF ok w l5 c(1) bal ho tot rc enqueue_same_data [OF en]]
  have b': "bal_at s' k = bal_at s3 k" for k
    using bal_at_cong [OF conjunct1 [OF conjunct2 [OF conjunct2 [OF m]]], of k] b5 by simp
  have hs: "\<forall>h'\<in>set (holds s'). h_id h' = i \<longrightarrow> h_status h' = H_REFUNDED \<and> h_resolvedJournalId h' = Some jid"
  proof -
    have "\<forall>g\<in>set (holds s). h_id g = i \<longrightarrow> g = h"
      using ho0 hin by (auto simp: holds_ok_def dest: distinct_map_eq)
    moreover have "holds s' = ?hs" using m c(2) by simp
    ultimately show ?thesis using h(2) hin(2) res(1) by auto
  qed
  show ?thesis
    unfolding b' t(2) [rule_format] using m h hs fu hin(2) res by simp
qed

section \<open>Frames\<close>

text \<open>The wallet operations write the ledger, the wallets, the holds and the outbox.\<close>

definition business_part ::
  "db \<Rightarrow> (obligation list \<times> transaction_leg list) \<times> (commission list \<times> settlement list) \<times> commission_rule list \<times>
     payment_intent list \<times> int option \<times> (string \<times> string) list \<times> (string \<times> string) list \<times> (string \<times> string) list"
where
  "business_part s = (txn_part s, charge_part s, rules s, fixed_part s)"

lemma business_part_frames [simp]:
  "tickless business_part" "outboxless business_part" "accountless business_part" "postless business_part"
  by (auto simp: business_part_def [abs_def])

lemma business_part_update [simp]:
  "business_part (s\<lparr>wallets := ws\<rparr>) = business_part s" "business_part (s\<lparr>holds := hs\<rparr>) = business_part s"
  by (simp_all add: business_part_def part_defs)

lemma unchanged_recompute [unchanged_rules]:
  "(\<And>s ws. f (s\<lparr>wallets := ws\<rparr>) = f s) \<Longrightarrow> unchanged f (recomputeFromLedger w)"
  by (rule unchangedI) (auto dest!: recomputeFromLedger_Inr)

lemma unchanged_createHold [unchanged_rules]:
  "(\<And>s hs. f (s\<lparr>holds := hs\<rparr>) = f s) \<Longrightarrow> unchanged f (createHold h)"
  by (rule unchangedI) (auto dest!: createHold_Inr)

lemma unchanged_resolveHold [unchanged_rules]:
  "(\<And>s hs. f (s\<lparr>holds := hs\<rparr>) = f s) \<Longrightarrow> unchanged f (resolveHold i st jid at by' note)"
  by (rule unchangedI) (auto dest!: resolveHold_Inr)

lemma unchanged_lock [unchanged_rules]: "unchanged f (lock ids)"
  by (rule unchangedI) (simp add: lock_Inr)

lemma unchanged_list_case [unchanged_rules]:
  "unchanged f m \<Longrightarrow> (\<And>y ys. unchanged f (g y ys)) \<Longrightarrow> unchanged f (case xs of [] \<Rightarrow> m | y # ys \<Rightarrow> g y ys)"
  by (cases xs) simp_all

lemmas wallet_reads =
  findActiveHold_def findHoldById_def isHoldFunded_def findByOrganizationUnscoped_def

lemma unchanged_business_wallet [unchanged_rules]:
  "unchanged business_part (open_within rt org cur)"
  "unchanged business_part (resolveCounterpartyWallet rt org cur)"
  "unchanged business_part (credit rt w amount cp jt desc otid by')"
  "unchanged business_part (placeHold rt w amount ref rty tid by')"
  "unchanged business_part (refundHold rt w i rty tid note by')"
  "unchanged business_part (markHoldReleased rt h jid tid by')"
  unfolding open_within_def resolveCounterpartyWallet_def credit_def placeHold_def refundHold_def
    markHoldReleased_def wallet_reads Let_def
  by (intro unchanged_rules; simp)+

lemma outbox_part_update [simp]:
  "outbox_part (s\<lparr>wallets := ws\<rparr>) = outbox_part s" "outbox_part (s\<lparr>holds := hs\<rparr>) = outbox_part s"
  by (simp_all add: outbox_part_def)

lemma keeps_streams_steps [keeps_rules]:
  "keeps streams_ok (resolveAccount rt p org cur by')" "keeps streams_ok (prefixed_ulid rt pre)"
  "keeps streams_ok (hostDate rt)" "keeps streams_ok (databaseNow rt)"
  "keeps streams_ok (create_wallet rt i org cur acc)" "keeps streams_ok (recomputeFromLedger w)"
  "keeps streams_ok (createHold h)" "keeps streams_ok (resolveHold i st jid at by'' note)"
  "keeps streams_ok (lock ids)"
  by (rule keeps_streams_unchanged, intro unchanged_rules; simp)+

lemma keeps_list_case [keeps_rules]:
  "keeps I m \<Longrightarrow> (\<And>y ys. keeps I (g y ys)) \<Longrightarrow> keeps I (case xs of [] \<Rightarrow> m | y # ys \<Rightarrow> g y ys)"
  by (cases xs) simp_all

lemma keeps_streams_open_within [keeps_rules]: "keeps streams_ok (open_within rt org cur)"
  unfolding open_within_def Let_def by (intro keeps_rules)

lemma keeps_streams_wallet [keeps_rules]:
  "keeps streams_ok (resolveCounterpartyWallet rt org cur)"
  "keeps streams_ok (credit rt w amount cp jt desc otid by')"
  "keeps streams_ok (placeHold rt w amount ref rty tid by')"
  "keeps streams_ok (refundHold rt w i rty tid note by')"
  "keeps streams_ok (markHoldReleased rt h jid tid by')"
  unfolding resolveCounterpartyWallet_def credit_def placeHold_def refundHold_def
    markHoldReleased_def wallet_reads Let_def
  by (intro keeps_rules)+

end
