(* ===== verification/Commission_Laws.thy ===== *)
theory Commission_Laws
  imports Commission Access
begin

text \<open>
  What the commission component promises: the rule selected does not depend on the order the
  database returns rows in, a charge lies between nothing and the gross, a price once recorded is
  what is charged whatever happens to the rules afterwards, and no change to a rule alters what was
  in force at an instant already past.
\<close>

section \<open>Selection\<close>

text \<open>The order the comparator induces, as a key.\<close>

definition rule_rank :: "commission_rule \<Rightarrow> int \<times> int \<times> int \<times> string" where
  "rule_rank r = (- specificityOf r, - narrownessOf r, - r_validFrom r, r_id r)"

lemma compareRules_rank: "compareRules a b \<le> 0 \<longleftrightarrow> rule_rank a \<le> rule_rank b"
  by (auto simp: compareRules_def rule_rank_def Let_def less_eq_prod_def)

lemma insert_by_rank: "insert_by compareRules x xs = insort_key rule_rank x xs"
  by (induction xs) (simp_all add: compareRules_rank)

lemma sort_by_rank: "sort_by compareRules xs = sort_key rule_rank xs"
proof -
  have "insert_by compareRules = insort_key rule_rank" by (simp add: fun_eq_iff insert_by_rank)
  then show ?thesis by (simp add: sort_by_def sort_key_def)
qed

lemma selectRule_None: "selectRule rs subject at = None \<longleftrightarrow> (\<forall>r\<in>set rs. \<not> applicable subject at r)"
proof -
  have "selectRule rs subject at = None \<longleftrightarrow> sort_key rule_rank (filter (applicable subject at) rs) = []"
    by (simp add: selectRule_def sort_by_rank split: list.splits)
  also have "\<dots> \<longleftrightarrow> filter (applicable subject at) rs = []"
    by (metis length_0_conv length_sort)
  finally show ?thesis by (simp add: filter_empty_conv)
qed

lemma selectRule_Some:
  assumes "selectRule rs subject at = Some w"
  shows "w \<in> set rs \<and> applicable subject at w \<and>
    (\<forall>r\<in>set rs. applicable subject at r \<longrightarrow> rule_rank w \<le> rule_rank r)"
proof -
  let ?xs = "filter (applicable subject at) rs"
  from assms obtain ws where s: "sort_key rule_rank ?xs = w # ws"
    by (auto simp: selectRule_def sort_by_rank split: list.splits)
  have "sorted (map rule_rank (w # ws))" by (metis s sorted_sort_key)
  moreover have "set (w # ws) = set ?xs" by (metis s set_sort)
  ultimately show ?thesis by auto
qed

lemma rule_rank_id: "rule_rank a = rule_rank b \<Longrightarrow> r_id a = r_id b"
  by (simp add: rule_rank_def)

section \<open>Charges\<close>

lemma rule_row_okD:
  assumes "rule_row_ok r"
  shows "0 \<le> r_rateBasisPoints r" "r_rateBasisPoints r \<le> 10000"
    "r_maxAmountMinor r = Some h \<Longrightarrow> 0 \<le> h"
  using assms by (auto simp: rule_row_ok_def)

lemma priceWithRule_Inr:
  assumes "priceWithRule r gross cur = Inr d" and "rule_row_ok r"
  shows "cd_matched d \<and> cd_outcome d = RULE_APPLIED \<and> cd_ruleId d = Some (r_id r) \<and>
    cd_rateBasisPoints d = r_rateBasisPoints r \<and> 0 \<le> cd_amountMinor d \<and> cd_amountMinor d \<le> gross"
proof -
  from assms(1) have g: "0 \<le> gross"
    and d: "d = \<lparr>cd_ruleId = Some (r_id r), cd_rateBasisPoints = r_rateBasisPoints r,
      cd_amountMinor = clampCommission ((gross * r_rateBasisPoints r + 5000) div 10000) gross
        (r_minAmountMinor r) (r_maxAmountMinor r), cd_matched = True, cd_outcome = RULE_APPLIED\<rparr>"
    by (auto simp: priceWithRule_def bindE_Inr dest!: commissionFor_InrD)
  have "0 \<le> (gross * r_rateBasisPoints r + 5000) div 10000"
    using g rule_row_okD(1) [OF assms(2)] by (simp add: pos_imp_zdiv_nonneg_iff)
  with d g rule_row_okD(3) [OF assms(2)] show ?thesis
    by (simp add: clampCommission_le_gross clampCommission_nonneg)
qed

lemma computeCommission_Inr:
  assumes "computeCommission rs subject at gross cur = Inr d" and "\<forall>r\<in>set rs. rule_row_ok r" and "0 \<le> gross"
  shows "0 \<le> cd_amountMinor d \<and> cd_amountMinor d \<le> gross \<and>
    (cd_matched d \<longleftrightarrow> (\<exists>r\<in>set rs. applicable subject at r)) \<and>
    (\<not> cd_matched d \<longrightarrow> d = NO_ACTIVE_RULE_DECISION) \<and>
    (cd_outcome d = RULE_APPLIED \<longleftrightarrow> cd_matched d) \<and> (cd_ruleId d = None \<longleftrightarrow> \<not> cd_matched d)"
proof (cases "selectRule rs subject at")
  case None
  with assms have "d = NO_ACTIVE_RULE_DECISION" by (simp add: computeCommission_def)
  with None assms(3) show ?thesis by (simp add: NO_ACTIVE_RULE_DECISION_def selectRule_None)
next
  case (Some w)
  note w = selectRule_Some [OF Some]
  from Some assms have "priceWithRule w gross cur = Inr d" by (simp add: computeCommission_def)
  from priceWithRule_Inr [OF this] w assms(2) show ?thesis by auto
qed

text \<open>The candidates the service reads are the applicable rules it can select.\<close>

lemma candidateRules_Inr:
  "candidateRules subject s = Inr (rs, s') \<Longrightarrow>
     s' = s \<and> set rs \<subseteq> set (rules s) \<and> (\<forall>at. filter (applicable subject at) rs = filter (applicable subject at) (rules s))"
  unfolding candidateRules_def getsM_run
  by (cases "su_businessLine subject")
    (auto simp del: filter_filter intro!: filter_implied simp: applicable_def coversSubject_def)

lemma selectRule_candidates:
  "candidateRules subject s = Inr (rs, s') \<Longrightarrow> selectRule rs subject at = selectRule (rules s) subject at"
  by (drule candidateRules_Inr) (simp add: selectRule_def)

section \<open>The rules table\<close>

definition rules_ok :: "db \<Rightarrow> bool" where
  "rules_ok s \<longleftrightarrow>
     distinct (map r_id (rules s)) \<and> (\<forall>r\<in>set (rules s). rule_row_ok r \<and> r_id r \<noteq> [] \<and> no_overlap r (rules s))"

lemma rules_ok_cong: "rules s' = rules s \<Longrightarrow> rules_ok s' = rules_ok s"
  by (simp add: rules_ok_def)

lemma keeps_rules_unchanged: "unchanged rules m \<Longrightarrow> keeps rules_ok m"
  by (erule keeps_unchanged) (metis rules_ok_cong)

definition clash :: "commission_rule \<Rightarrow> commission_rule \<Rightarrow> bool" where
  "clash a b \<longleftrightarrow> r_id a \<noteq> r_id b \<and> r_status a = R_ACTIVE \<and> r_status b = R_ACTIVE \<and> same_scope a b \<and>
     window_overlap a b"

lemma clash_sym: "clash a b \<Longrightarrow> clash b a"
  by (auto simp: clash_def window_overlap_def same_scope_def)

lemma no_overlap_clash: "no_overlap r rs \<longleftrightarrow> (\<forall>q\<in>set rs. \<not> clash q r)"
  by (auto simp: no_overlap_def clash_def list_all_iff)

lemma transaction_Inr: "transaction m s = Inr (x, s') \<longleftrightarrow> m s = Inr (x, s') \<and> commit_ok s'"
  by (auto simp: transaction_def action_Inr)

lemma recordRuleChange_rules:
  "recordRuleChange rt r u b a s = Inr (x, s') \<Longrightarrow> same_data s s'"
  unfolding recordRuleChange_def action_Inr
  by (auto split: option.splits simp: action_Inr dest: enqueue_same_data)

lemma createRule_Inr:
  assumes "createRule rt dto s = Inr (r, s')"
  shows "rules s' = rules s @ [r] \<and> r_id r \<notin> r_id ` set (rules s) \<and> r_id r \<noteq> [] \<and> rule_row_ok r \<and>
    no_overlap r (rules s) \<and> r_status r = R_ACTIVE \<and> r_organizationId r = cr_organizationId dto \<and>
    clock_timestamp rt (Suc (ticks s)) \<le> r_validFrom r"
proof -
  from assms obtain n m vf minA maxA u where
    r: "r = \<lparr>r_id = ''CMR'' @ ''_'' @ ulid rt (ticks s), r_organizationId = cr_organizationId dto,
          r_businessLine = Some (cr_businessLine dto), r_transactionType = cr_transactionType dto,
          r_rateBasisPoints = cr_rateBasisPoints dto, r_minAmountMinor = minA, r_maxAmountMinor = maxA,
          r_validFrom = vf, r_validTo = cr_validTo dto, r_status = R_ACTIVE, r_label = cr_label dto,
          r_createdBy = actor_name rt, r_updatedBy = actor_name rt\<rparr>"
    and ok: "r_id r \<notin> r_id ` set (rules s)" "rule_row_ok r" "no_overlap r (rules s)"
      "clock_timestamp rt (Suc (ticks s)) \<le> r_validFrom r"
    and rec: "recordRuleChange rt r (new_Date rt n) None (actor_name rt)
       (s\<lparr>rules := rules s @ [r], ticks := m\<rparr>) = Inr (u, s')"
    by (cases "cr_validFrom dto")
      (auto simp: createRule_def Let_def transaction_Inr action_Inr source_Inr not_less)
  have "rules s' = rules s @ [r]" using same_dataD(9) [OF recordRuleChange_rules [OF rec]] by simp
  with ok r show ?thesis by auto
qed

lemma updateRule_Inr:
  assumes "updateRule rt i dto s = Inr (r, s')"
  shows "\<exists>existing change. find (\<lambda>r. r_id r = i) (rules s) = Some existing \<and>
    effectiveDatedChange existing (ur_status dto) (ur_validTo dto) (clock_timestamp rt (ticks s)) = Inr change \<and>
    r = apply_change change (ur_label dto) (actor_name rt) existing \<and> rule_row_ok r \<and> no_overlap r (rules s) \<and>
    rules s' = map (\<lambda>q. if r_id q = i then r else q) (rules s)"
proof -
  from assms obtain existing change n m u where
    e: "find (\<lambda>r. r_id r = i) (rules s) = Some existing"
      "effectiveDatedChange existing (ur_status dto) (ur_validTo dto) (clock_timestamp rt (ticks s)) = Inr change"
      "r = apply_change change (ur_label dto) (actor_name rt) existing" "rule_row_ok r" "no_overlap r (rules s)"
    and rec: "recordRuleChange rt r (new_Date rt n) (Some existing) (actor_name rt)
       (s\<lparr>rules := map (\<lambda>q. if r_id q = i then r else q) (rules s), ticks := m\<rparr>) = Inr (u, s')"
    by (auto simp: updateRule_def Let_def transaction_Inr action_Inr source_Inr)
  have "rules s' = map (\<lambda>q. if r_id q = i then r else q) (rules s)"
    using same_dataD(9) [OF recordRuleChange_rules [OF rec]] by simp
  with e show ?thesis by blast
qed

lemma apply_change_fixed [simp]:
  "r_id (apply_change c l a r) = r_id r" "r_rateBasisPoints (apply_change c l a r) = r_rateBasisPoints r"
  "r_minAmountMinor (apply_change c l a r) = r_minAmountMinor r"
  "r_maxAmountMinor (apply_change c l a r) = r_maxAmountMinor r"
  "r_validFrom (apply_change c l a r) = r_validFrom r" "r_organizationId (apply_change c l a r) = r_organizationId r"
  "r_businessLine (apply_change c l a r) = r_businessLine r" "r_transactionType (apply_change c l a r) = r_transactionType r"
  by (simp_all add: apply_change_def)

lemma keeps_rules_createRule [keeps_rules]: "keeps rules_ok (createRule rt dto)"
proof (rule keepsI)
  fix s r s' assume ok: "rules_ok s" and "createRule rt dto s = Inr (r, s')"
  note c = createRule_Inr [OF this(2)]
  from ok c show "rules_ok s'"
    by (auto simp: rules_ok_def no_overlap_clash dest: clash_sym) (simp add: clash_def)
qed

lemma keeps_rules_updateRule [keeps_rules]: "keeps rules_ok (updateRule rt i dto)"
proof (rule keepsI)
  fix s r s' assume ok: "rules_ok s" and "updateRule rt i dto s = Inr (r, s')"
  then obtain e ch where e: "find (\<lambda>r. r_id r = i) (rules s) = Some e" and r: "r_id r = r_id e"
    and row: "rule_row_ok r" "no_overlap r (rules s)"
    and rs: "rules s' = map (\<lambda>q. if r_id q = i then r else q) (rules s)"
    using updateRule_Inr by fastforce
  from e have ei: "r_id e = i" "e \<in> set (rules s)" using find_SomeD [OF e] by auto
  have "map r_id (rules s') = map r_id (rules s)" using rs r ei by simp
  then have "distinct (map r_id (rules s'))" using ok by (simp add: rules_ok_def)
  moreover have "rule_row_ok q \<and> r_id q \<noteq> [] \<and> no_overlap q (rules s')" if q: "q \<in> set (rules s')" for q
  proof (cases "q = r")
    case True
    then have "no_overlap q (rules s')"
      using row(2) rs by (auto simp: no_overlap_clash) (simp add: clash_def)
    with True row r ei ok show ?thesis by (auto simp: rules_ok_def)
  next
    case False
    with q rs have q': "q \<in> set (rules s)" by (auto split: if_splits)
    with ok have "rule_row_ok q \<and> r_id q \<noteq> []" and "\<forall>p\<in>set (rules s). \<not> clash p q"
      by (simp_all add: rules_ok_def no_overlap_clash)
    moreover have "\<not> clash r q" using row(2) q' by (auto simp: no_overlap_clash dest: clash_sym)
    ultimately show ?thesis using rs by (auto simp: no_overlap_clash)
  qed
  ultimately show "rules_ok s'" by (simp add: rules_ok_def)
qed

section \<open>The past is fixed\<close>

definition in_force :: "commission_rule \<Rightarrow> int \<Rightarrow> bool" where
  "in_force r t \<longleftrightarrow> r_status r = R_ACTIVE \<and> r_validFrom r \<le> t \<and>
     (case r_validTo r of None \<Rightarrow> True | Some v \<Rightarrow> t < v)"

lemma applicable_in_force:
  "applicable subject t r \<longleftrightarrow> in_force r t \<and> coversSubject r subject \<and>
     (r_organizationId r = None \<or> r_organizationId r = Some (su_organizationId subject))"
  by (auto simp: applicable_def in_force_def)

lemma nextValidTo_Inr:
  assumes "nextValidTo vf vt req now = Inr v"
  shows "(case vt of None \<Rightarrow> True | Some w \<Rightarrow> now < w) \<and> (case v of None \<Rightarrow> True | Some w \<Rightarrow> now \<le> w)"
  using assms by (auto simp: nextValidTo_def split: if_splits option.splits)

lemma effectiveDatedChange_past:
  assumes "effectiveDatedChange e st vt now = Inr ch" and "t < now"
  shows "in_force (apply_change ch l a e) t = in_force e t"
  using assms
  by (auto simp: effectiveDatedChange_def Let_def bindE_Inr in_force_def apply_change_def
      dest!: nextValidTo_Inr split: option.splits if_splits)

lemma coversSubject_change [simp]: "coversSubject (apply_change c l a r) subject = coversSubject r subject"
  by (simp add: coversSubject_def)

lemma rule_rank_change [simp]: "rule_rank (apply_change c l a r) = rule_rank r"
  by (simp add: rule_rank_def specificityOf_def narrownessOf_def)

lemma priceWithRule_change [simp]: "priceWithRule (apply_change c l a r) gross cur = priceWithRule r gross cur"
  by (simp add: priceWithRule_def)

lemma insort_key_map:
  "(\<And>x. k (f x) = k x) \<Longrightarrow> insort_key k (f x) (map f xs) = map f (insort_key k x xs)"
  by (induction xs) auto

lemma sort_key_map: "(\<And>x. k (f x) = k x) \<Longrightarrow> sort_key k (map f xs) = map f (sort_key k xs)"
  by (induction xs) (simp_all add: insort_key_map)

lemma filter_map_same: "(\<And>x. x \<in> set xs \<Longrightarrow> P (f x) = P x) \<Longrightarrow> filter P (map f xs) = map f (filter P xs)"
  by (induction xs) auto

text \<open>A change to a rule leaves every price of the past as it was.\<close>

lemma computeCommission_map:
  assumes "\<And>x. rule_rank (f x) = rule_rank x" and "\<And>x. priceWithRule (f x) gross cur = priceWithRule x gross cur"
    and "\<And>x. x \<in> set rs \<Longrightarrow> applicable subject t (f x) = applicable subject t x"
  shows "computeCommission (map f rs) subject t gross cur = computeCommission rs subject t gross cur"
proof -
  have "filter (applicable subject t) (map f rs) = map f (filter (applicable subject t) rs)"
    using assms(3) by (rule filter_map_same)
  then have "sort_key rule_rank (filter (applicable subject t) (map f rs)) =
      map f (sort_key rule_rank (filter (applicable subject t) rs))"
    using assms(1) by (simp add: sort_key_map)
  then show ?thesis
    using assms(2) by (simp add: computeCommission_def selectRule_def sort_by_rank split: list.splits)
qed

lemma updateRule_past:
  assumes ok: "rules_ok s" and up: "updateRule rt i dto s = Inr (r, s')" and t: "t < clock_timestamp rt (ticks s)"
  shows "computeCommission (rules s') subject t gross cur = computeCommission (rules s) subject t gross cur"
proof -
  obtain e ch where e: "find (\<lambda>r. r_id r = i) (rules s) = Some e"
    and ch: "effectiveDatedChange e (ur_status dto) (ur_validTo dto) (clock_timestamp rt (ticks s)) = Inr ch"
    and r: "r = apply_change ch (ur_label dto) (actor_name rt) e"
    and rs: "rules s' = map (\<lambda>q. if r_id q = i then r else q) (rules s)"
    using updateRule_Inr [OF up] by blast
  let ?f = "\<lambda>q. if q = e then apply_change ch (ur_label dto) (actor_name rt) q else q"
  have "r_id q = i \<longleftrightarrow> q = e" if "q \<in> set (rules s)" for q
    using that find_SomeD [OF e] ok by (auto simp: rules_ok_def dest: distinct_map_eq)
  then have "rules s' = map ?f (rules s)" using rs r by simp
  moreover have "applicable subject t (?f x) = applicable subject t x" for x
    using effectiveDatedChange_past [OF ch t] by (auto simp: applicable_in_force)
  ultimately show ?thesis by (simp add: computeCommission_map)
qed

lemma createRule_past:
  assumes cr: "createRule rt dto s = Inr (r, s')" and t: "t < clock_timestamp rt (Suc (ticks s))"
  shows "computeCommission (rules s') subject t gross cur = computeCommission (rules s) subject t gross cur"
proof -
  note c = createRule_Inr [OF cr]
  with t have "\<not> applicable subject t r" by (auto simp: applicable_def)
  with c show ?thesis by (simp add: computeCommission_def selectRule_def)
qed

text \<open>What the table can go through: new rules, changed rules, and everything that leaves it alone.\<close>

inductive rule_history :: "db \<Rightarrow> db \<Rightarrow> bool" where
  rh_refl: "rule_history s s"
| rh_create: "rule_history s s1 \<Longrightarrow> createRule (rt :: runtime) dto s1 = Inr (r, s2) \<Longrightarrow> rule_history s s2"
| rh_update: "rule_history s s1 \<Longrightarrow> updateRule (rt :: runtime) i udto s1 = Inr (r, s2) \<Longrightarrow> rule_history s s2"
| rh_other: "rule_history s s1 \<Longrightarrow> rules s2 = rules s1 \<Longrightarrow> rule_history s s2"

definition same_terms :: "commission_rule \<Rightarrow> commission_rule \<Rightarrow> bool" where
  "same_terms a b \<longleftrightarrow> r_id a = r_id b \<and> r_rateBasisPoints a = r_rateBasisPoints b \<and>
     r_minAmountMinor a = r_minAmountMinor b \<and> r_maxAmountMinor a = r_maxAmountMinor b"

lemma rule_history_terms:
  assumes "rule_history s s'" and "rules_ok s"
  shows "rules_ok s' \<and> (\<forall>r\<in>set (rules s). \<exists>r'\<in>set (rules s'). same_terms r r')"
  using assms
proof (induction rule: rule_history.induct)
  case (rh_refl s)
  then show ?case by (auto simp: same_terms_def)
next
  case (rh_create s s1 rt dto r s2)
  then show ?case using createRule_Inr [OF rh_create.hyps(2)] keepsD [OF keeps_rules_createRule] by auto
next
  case (rh_update s s1 rt i udto r s2)
  then obtain e ch where e: "find (\<lambda>r. r_id r = i) (rules s1) = Some e"
      "r = apply_change ch (ur_label udto) (actor_name rt) e"
      "rules s2 = map (\<lambda>q. if r_id q = i then r else q) (rules s1)"
    using updateRule_Inr [OF rh_update.hyps(2)] by blast
  have ok: "rules_ok s1" using rh_update by simp
  have "\<exists>r'\<in>set (rules s2). same_terms q r'" if q: "q \<in> set (rules s1)" for q
  proof (cases "r_id q = i")
    case True
    with q find_SomeD [OF e(1)] ok have "q = e" by (auto simp: rules_ok_def dest: distinct_map_eq)
    with q True have "r \<in> set (rules s2)" using e(3) by force
    moreover have "same_terms q r" using e(2) \<open>q = e\<close> by (simp add: same_terms_def)
    ultimately show ?thesis by blast
  next
    case False
    with e q show ?thesis by (auto simp: same_terms_def)
  qed
  then have "\<forall>q\<in>set (rules s). \<exists>r'\<in>set (rules s2). same_terms q r'"
    using rh_update by (metis same_terms_def)
  with rh_update keepsD [OF keeps_rules_updateRule] show ?case by blast
next
  case (rh_other s s1 s2)
  then show ?case by (simp add: rules_ok_def)
qed

lemma decide_Inr:
  assumes "decide i s = Inr (d, s')"
  shows "s' = s \<and> (\<exists>subject. computeCommission (rules s) subject (pi_occurredAt i) (pi_grossAmountMinor i) (pi_currency i) = Inr d)"
proof -
  from assms obtain cutover where c: "linePricingFrom s = Some cutover"
    by (auto simp: decide_def read_linePricingFrom_def Let_def action_Inr)
  let ?subj = "pricingSubjectAt (subject_of i) (pi_occurredAt i) cutover"
  from assms c obtain rs s1 where rs: "candidateRules ?subj s = Inr (rs, s1)"
    and d: "computeCommission rs ?subj (pi_occurredAt i) (pi_grossAmountMinor i) (pi_currency i) = Inr d" "s' = s1"
    by (auto simp: decide_def read_linePricingFrom_def Let_def action_Inr)
  have "computeCommission (rules s) ?subj (pi_occurredAt i) (pi_grossAmountMinor i) (pi_currency i) = Inr d"
    using d selectRule_candidates [OF rs] by (simp add: computeCommission_def)
  with candidateRules_Inr [OF rs] d(2) show ?thesis by blast
qed

lemma chargeFor_recorded:
  assumes ok: "rules_ok s" and de: "decide i s = Inr (d, s1)" and hist: "rule_history s s'"
  shows "chargeFor i (Some (cd_outcome d)) (cd_ruleId d) s' = Inr (d, s')"
proof -
  obtain subject where d: "computeCommission (rules s) subject (pi_occurredAt i) (pi_grossAmountMinor i) (pi_currency i) = Inr d"
    using decide_Inr [OF de] by blast
  show ?thesis
  proof (cases "selectRule (rules s) subject (pi_occurredAt i)")
    case None
    with d show ?thesis by (auto simp: computeCommission_def NO_ACTIVE_RULE_DECISION_def chargeFor_def action_simps)
  next
    case (Some w)
    note w = selectRule_Some [OF Some]
    from Some d have p: "priceWithRule w (pi_grossAmountMinor i) (pi_currency i) = Inr d"
      by (simp add: computeCommission_def)
    then have dd: "cd_outcome d = RULE_APPLIED" "cd_ruleId d = Some (r_id w)"
      by (auto simp: priceWithRule_def bindE_Inr)
    from w rule_history_terms [OF hist ok] obtain w' where w': "w' \<in> set (rules s')" "same_terms w w'"
      and ok': "rules_ok s'" by blast
    then have "find (\<lambda>r. r_id r = r_id w) (rules s') = Some w'"
      by (auto simp: rules_ok_def same_terms_def intro: find_unique)
    moreover have "priceWithRule w' (pi_grossAmountMinor i) (pi_currency i) = Inr d"
      using p w'(2) by (simp add: priceWithRule_def same_terms_def)
    moreover have "r_id w \<noteq> []" using w ok by (simp add: rules_ok_def)
    ultimately show ?thesis using dd by (simp add: chargeFor_def action_simps)
  qed
qed

section \<open>Properties\<close>

lemma selectRule_perm:
  assumes "distinct (map r_id rs)" and "mset rs = mset rs'"
  shows "selectRule rs subject at = selectRule rs' subject at"
proof -
  have set: "set rs = set rs'" using assms(2) by (rule mset_eq_setD)
  show ?thesis
  proof (cases "selectRule rs subject at")
    case None
    then show ?thesis using set selectRule_None by metis
  next
    case (Some w)
    then have "selectRule rs' subject at \<noteq> None" using set selectRule_None [of rs] selectRule_None [of rs']
      by (metis option.distinct(1))
    then obtain w' where w': "selectRule rs' subject at = Some w'" by blast
    have "rule_rank w = rule_rank w'" "w \<in> set rs" "w' \<in> set rs"
      using selectRule_Some [OF Some] selectRule_Some [OF w'] set by (auto intro: antisym)
    with assms(1) have "w = w'" by (auto dest: rule_rank_id distinct_map_eq)
    with Some w' show ?thesis by simp
  qed
qed

text \<open>C34. Which rule prices a transaction. The selected rule applies and no applicable rule beats it: an
  organization's own rule beats a platform-wide one, then a rule narrowed to the transaction type
  beats one for the whole line, then the later start wins, then the smaller id; there is none exactly
  when no rule applies; and the choice does not depend on the order in which the table is read.\<close>

theorem selectRule_best:
  assumes "distinct (map r_id rs)" and "mset rs' = mset rs"
  shows "selectRule rs' subject at = selectRule rs subject at \<and>
    (case selectRule rs subject at of
       None \<Rightarrow> \<forall>r\<in>set rs. \<not> applicable subject at r
     | Some w \<Rightarrow> w \<in> set rs \<and> applicable subject at w \<and>
         (\<forall>r\<in>set rs. applicable subject at r \<longrightarrow>
            specificityOf w > specificityOf r \<or> specificityOf w = specificityOf r \<and>
            (narrownessOf w > narrownessOf r \<or> narrownessOf w = narrownessOf r \<and>
             (r_validFrom w > r_validFrom r \<or> r_validFrom w = r_validFrom r \<and> r_id w \<le> r_id r))))"
proof (intro conjI)
  show "selectRule rs' subject at = selectRule rs subject at"
    using selectRule_perm [OF assms(1)] assms(2) by metis
  show "case selectRule rs subject at of
       None \<Rightarrow> \<forall>r\<in>set rs. \<not> applicable subject at r
     | Some w \<Rightarrow> w \<in> set rs \<and> applicable subject at w \<and>
         (\<forall>r\<in>set rs. applicable subject at r \<longrightarrow>
            specificityOf w > specificityOf r \<or> specificityOf w = specificityOf r \<and>
            (narrownessOf w > narrownessOf r \<or> narrownessOf w = narrownessOf r \<and>
             (r_validFrom w > r_validFrom r \<or> r_validFrom w = r_validFrom r \<and> r_id w \<le> r_id r)))"
  proof (cases "selectRule rs subject at")
    case None
    then have "\<forall>r\<in>set rs. \<not> applicable subject at r" by (simp only: selectRule_None)
    with None show ?thesis by simp
  next
    case (Some w)
    from selectRule_Some [OF this] Some show ?thesis
      by (fastforce simp: rule_rank_def less_eq_prod_def)
  qed
qed

definition example_rule :: "string \<Rightarrow> string option \<Rightarrow> int \<Rightarrow> commission_rule" where
  "example_rule i org rate = \<lparr>r_id = i, r_organizationId = org, r_businessLine = Some LINE_PARTS,
     r_transactionType = None, r_rateBasisPoints = rate, r_minAmountMinor = None, r_maxAmountMinor = None,
     r_validFrom = 0, r_validTo = None, r_status = R_ACTIVE, r_label = None, r_createdBy = ''u'', r_updatedBy = ''u''\<rparr>"

definition example_subject :: commission_subject where
  "example_subject = \<lparr>su_organizationId = ''ORG_A'', su_businessLine = Some LINE_PARTS,
     su_transactionType = MARKETPLACE_ORDER\<rparr>"

lemmas example_rule_simps = example_rule_def example_subject_def selectRule_def sort_by_def compareRules_def
  applicable_def coversSubject_def specificityOf_def narrownessOf_def

theorem selectRule_best_witness:
  "selectRule [example_rule ''b'' (Some ''ORG_A'') 100, example_rule ''a'' None 200] example_subject 5 =
     Some (example_rule ''b'' (Some ''ORG_A'') 100) \<and>
   selectRule [example_rule ''a'' None 200, example_rule ''b'' (Some ''ORG_A'') 100] example_subject 5 =
     Some (example_rule ''b'' (Some ''ORG_A'') 100)"
proof -
  have e: "selectRule [example_rule ''a'' None 200, example_rule ''b'' (Some ''ORG_A'') 100] example_subject 5 =
      Some (example_rule ''b'' (Some ''ORG_A'') 100)"
    by (simp add: example_rule_simps)
  have d: "distinct (map r_id [example_rule ''a'' None 200, example_rule ''b'' (Some ''ORG_A'') 100])"
    by (simp add: example_rule_def)
  have m: "mset [example_rule ''b'' (Some ''ORG_A'') 100, example_rule ''a'' None 200] =
      mset [example_rule ''a'' None 200, example_rule ''b'' (Some ''ORG_A'') 100]" by simp
  from selectRule_best [OF d m, of example_subject 5] e show ?thesis by simp
qed

text \<open>C35. What a commission can be: for rows the table admits and a gross that is not negative, pricing
  always succeeds with an amount between zero and the gross. It names a rule exactly when some rule
  applies; otherwise the decision is the recorded absence of a rule with amount and rate zero.\<close>

theorem computeCommission_bounds:
  assumes "\<forall>r\<in>set rs. rule_row_ok r" and "0 \<le> gross"
  shows "\<exists>d. computeCommission rs subject at gross cur = Inr d \<and>
    0 \<le> cd_amountMinor d \<and> cd_amountMinor d \<le> gross \<and>
    (if \<exists>r\<in>set rs. applicable subject at r
     then cd_matched d \<and> cd_outcome d = RULE_APPLIED \<and> (\<exists>r\<in>set rs. applicable subject at r \<and> cd_ruleId d = Some (r_id r))
     else d = NO_ACTIVE_RULE_DECISION)"
proof (cases "selectRule rs subject at")
  case None
  then have "computeCommission rs subject at gross cur = Inr NO_ACTIVE_RULE_DECISION"
    by (simp add: computeCommission_def)
  with None assms(2) show ?thesis by (auto simp: selectRule_None NO_ACTIVE_RULE_DECISION_def)
next
  case (Some w)
  note w = selectRule_Some [OF Some]
  with assms have "0 \<le> r_rateBasisPoints w" by (simp add: rule_row_okD)
  with assms(2) obtain d where d: "priceWithRule w gross cur = Inr d"
    by (simp add: priceWithRule_def commissionFor_eq)
  with Some have "computeCommission rs subject at gross cur = Inr d" by (simp add: computeCommission_def)
  with priceWithRule_Inr [OF d] w assms(1) show ?thesis by auto
qed

theorem computeCommission_bounds_witness:
  "\<exists>d. computeCommission [example_rule ''a'' None 200] example_subject 5 1000 ''IRR'' = Inr d \<and>
     0 \<le> cd_amountMinor d \<and> cd_amountMinor d \<le> 1000 \<and> cd_matched d"
proof -
  have r: "\<forall>r\<in>set [example_rule ''a'' None 200]. rule_row_ok r"
    by (simp add: example_rule_def rule_row_ok_def)
  have "\<exists>r\<in>set [example_rule ''a'' None 200]. applicable example_subject 5 r"
    by (simp add: example_rule_simps)
  with computeCommission_bounds [OF r, of 1000 example_subject 5 "''IRR''"] show ?thesis by auto
qed

text \<open>C33. The price on record is the price charged. Whatever happens to the rules table between creation
  and settlement (rules created, changed, ended, any number of times, in any order), charging by the
  outcome and rule recorded when the obligation was priced gives exactly the decision taken then:
  rate, amount and rule.\<close>

theorem charge_is_price_on_record:
  assumes "rules_ok s" and "decide i s = Inr (d, s1)" and "rule_history s s'"
  shows "chargeFor i (Some (cd_outcome d)) (cd_ruleId d) s' = Inr (d, s')"
  using assms by (rule chargeFor_recorded)

definition example_pricing :: pricing_input where
  "example_pricing = \<lparr>pi_organizationId = ''ORG_A'', pi_transactionType = MARKETPLACE_ORDER,
     pi_businessLine = Some LINE_PARTS, pi_occurredAt = 5, pi_grossAmountMinor = 1000, pi_currency = ''IRR''\<rparr>"

theorem charge_is_price_on_record_witness:
  "\<exists>d. decide example_pricing (empty_db\<lparr>rules := [example_rule ''a'' None 200], linePricingFrom := Some 0\<rparr>) =
       Inr (d, empty_db\<lparr>rules := [example_rule ''a'' None 200], linePricingFrom := Some 0\<rparr>) \<and>
     cd_amountMinor d = 20 \<and>
     chargeFor example_pricing (Some (cd_outcome d)) (cd_ruleId d)
       (empty_db\<lparr>rules := [example_rule ''a'' None 200], linePricingFrom := Some 0\<rparr>) =
       Inr (d, empty_db\<lparr>rules := [example_rule ''a'' None 200], linePricingFrom := Some 0\<rparr>)"
proof -
  let ?s = "empty_db\<lparr>rules := [example_rule ''a'' None 200], linePricingFrom := Some 0\<rparr>"
  let ?d = "\<lparr>cd_ruleId = Some ''a'', cd_rateBasisPoints = 200, cd_amountMinor = 20, cd_matched = True,
     cd_outcome = RULE_APPLIED\<rparr>"
  have ok: "rules_ok ?s"
    by (simp add: rules_ok_def example_rule_def rule_row_ok_def no_overlap_def)
  have d: "decide example_pricing ?s = Inr (?d, ?s)"
    by (simp add: decide_def read_linePricingFrom_def action_simps Let_def pricingSubjectAt_def subject_of_def
        candidateRules_def example_pricing_def computeCommission_def example_rule_simps priceWithRule_def
        commissionFor_eq clampCommission_def)
  from charge_is_price_on_record [OF ok d rh_refl] d show ?thesis by simp
qed

text \<open>C36. No change reaches the past. Changing or ending a rule, at a moment the database clock reads,
  leaves the price of every subject at every earlier instant as it was.\<close>

theorem updateRule_keeps_the_past:
  assumes "rules_ok s" and "updateRule rt i dto s = Inr (r, s')" and "t < clock_timestamp rt (ticks s)"
  shows "computeCommission (rules s') subject t gross cur = computeCommission (rules s) subject t gross cur"
  using assms by (rule updateRule_past)

theorem updateRule_keeps_the_past_witness:
  "\<exists>r s'. updateRule (example_request ''ORG_A'' [] \<lparr>clock_timestamp := (\<lambda>_. 10)\<rparr>) ''a''
       \<lparr>ur_status = Some R_INACTIVE, ur_validTo = None, ur_label = None\<rparr>
       (empty_db\<lparr>rules := [example_rule ''a'' None 200]\<rparr>) = Inr (r, s') \<and> r_validTo r = Some 10 \<and>
     computeCommission (rules s') example_subject 5 1000 ''IRR'' =
     computeCommission [example_rule ''a'' None 200] example_subject 5 1000 ''IRR''"
proof -
  let ?s = "empty_db\<lparr>rules := [example_rule ''a'' None 200]\<rparr>"
  let ?rt = "example_request ''ORG_A'' [] \<lparr>clock_timestamp := (\<lambda>_. 10)\<rparr>"
  let ?dto = "\<lparr>ur_status = Some R_INACTIVE, ur_validTo = None, ur_label = None\<rparr>"
  have ok: "rules_ok ?s"
    by (simp add: rules_ok_def example_rule_def rule_row_ok_def no_overlap_def)
  have "\<not> isl (updateRule ?rt ''a'' ?dto ?s)"
    by (simp add: updateRule_def transaction_def action_simps example_rule_def example_request_def Let_def
        effectiveDatedChange_def nextValidTo_def apply_change_def rule_row_ok_def no_overlap_def
        recordRuleChange_def getOrganizationId_def actor_name_def enqueue_def validateEconomicPayload_def
        commissionRuleTerms_def commissionRuleTermsV2_def nullable_def rate_schema_def resolvePartitionKey_def
        allocateStreamSeqSql_def ECONOMIC_TOPIC_def toStreamSeq_def MAX_STREAM_SEQ_def buildOutboxRow_def next_tick_def
        insert_outbox_def empty_db_def commit_ok_def)
  then obtain r s' where u: "updateRule ?rt ''a'' ?dto ?s = Inr (r, s')"
    by (cases "updateRule ?rt ''a'' ?dto ?s") auto
  from updateRule_Inr [OF u] have "r_validTo r = Some 10"
    by (auto simp: example_rule_def effectiveDatedChange_def nextValidTo_def apply_change_def Let_def)
  with updateRule_keeps_the_past [OF ok u, of 5 example_subject 1000 "''IRR''"] u show ?thesis by auto
qed

text \<open>C37. At any instant at most one active rule of one scope is in force, however the table came to be
  what it is: after any history of created and changed rules from an empty table, two rules of the
  same scope that apply at the same instant are one and the same.\<close>

theorem one_rule_per_scope_and_instant:
  assumes "rule_history empty_db s" and "q \<in> set (rules s)" and "r \<in> set (rules s)" and "same_scope q r"
    and "applicable subject t q" and "applicable subject t r"
  shows "q = r"
proof -
  have "rules_ok s" using rule_history_terms [OF assms(1)] by (simp add: rules_ok_def)
  then have "\<not> clash q r" using assms(2,3) by (simp add: rules_ok_def no_overlap_clash)
  then have "r_id q = r_id r"
    using assms(4-6) by (auto simp: clash_def applicable_def window_overlap_def split: option.splits)
  with \<open>rules_ok s\<close> assms(2,3) show ?thesis by (auto simp: rules_ok_def dest: distinct_map_eq)
qed

theorem one_rule_per_scope_and_instant_witness:
  "\<exists>r s. createRule (example_request ''ORG_A'' []) \<lparr>cr_organizationId = None, cr_businessLine = LINE_PARTS,
       cr_transactionType = None, cr_rateBasisPoints = 200, cr_minAmountMinor = None, cr_maxAmountMinor = None,
       cr_validFrom = None, cr_validTo = None, cr_label = None\<rparr> empty_db = Inr (r, s) \<and>
     (\<forall>q\<in>set (rules s). applicable example_subject 9 q \<longrightarrow> applicable example_subject 9 r \<longrightarrow> same_scope q r \<longrightarrow> q = r)"
proof -
  let ?rt = "example_request ''ORG_A'' []"
  let ?dto = "\<lparr>cr_organizationId = None, cr_businessLine = LINE_PARTS,
       cr_transactionType = None, cr_rateBasisPoints = 200, cr_minAmountMinor = None, cr_maxAmountMinor = None,
       cr_validFrom = None, cr_validTo = None, cr_label = None\<rparr>"
  have "\<not> isl (createRule ?rt ?dto empty_db)"
    by (simp add: createRule_def transaction_def action_simps example_request_def Let_def parse_bound_def
        rule_row_ok_def no_overlap_def recordRuleChange_def getOrganizationId_def actor_name_def enqueue_def
        validateEconomicPayload_def commissionRuleTerms_def commissionRuleTermsV2_def nullable_def rate_schema_def
        resolvePartitionKey_def allocateStreamSeqSql_def ECONOMIC_TOPIC_def toStreamSeq_def MAX_STREAM_SEQ_def
        buildOutboxRow_def next_tick_def insert_outbox_def empty_db_def commit_ok_def)
  then obtain r s where u: "createRule ?rt ?dto empty_db = Inr (r, s)"
    by (cases "createRule ?rt ?dto empty_db") auto
  have h: "rule_history empty_db s" using rh_create [OF rh_refl u] .
  have "r \<in> set (rules s)" using createRule_Inr [OF u] by simp
  with u one_rule_per_scope_and_instant [OF h] show ?thesis by blast
qed

end
