(* ===== verification/Transaction_Laws.thy ===== *)
theory Transaction_Laws
  imports Transaction Wallet_Laws Commission_Laws
begin

text \<open>
  What the obligations promise: \<open>txns_ok\<close> (unique ids and source facts, every row within its checks),
  what each operation does to the row it names, and that the four invariants of the service (books,
  streams, rules, obligations) are kept by every operation.
\<close>

section \<open>The invariant\<close>

definition sources_unique :: "obligation list \<Rightarrow> bool" where
  "sources_unique ts \<longleftrightarrow>
     (\<forall>t\<in>set ts. \<forall>u\<in>set ts. source_fact t \<noteq> None \<longrightarrow> source_fact t = source_fact u \<longrightarrow> t_id t = t_id u)"

definition txns_ok :: "db \<Rightarrow> bool" where
  "txns_ok s \<longleftrightarrow> distinct (map t_id (txns s)) \<and> list_all transaction_row_ok (txns s) \<and> sources_unique (txns s)"

lemma txns_ok_empty: "txns_ok empty_db"
  by (simp add: txns_ok_def sources_unique_def)

lemma txns_ok_cong: "txns s' = txns s \<Longrightarrow> txns_ok s' = txns_ok s"
  by (simp add: txns_ok_def)

lemma keeps_txns_unchanged: "unchanged txns m \<Longrightarrow> keeps txns_ok m"
  by (erule keeps_unchanged) (metis txns_ok_cong)

text \<open>What no update of a row changes: who owes whom how much for what, and where it came from.\<close>

definition terms_of :: "obligation \<Rightarrow>
    string \<times> string \<times> string option \<times> transaction_type \<times> business_line option \<times> int \<times> string \<times>
    string option \<times> string option \<times> string option \<times> string option \<times> string" where
  "terms_of t = (t_id t, t_organizationId t, t_counterpartyOrganizationId t, t_transactionType t, t_businessLine t,
     t_grossAmountMinor t, t_currency t, t_sourceType t, t_sourceReference t, t_idempotencyKey t, t_causationId t,
     t_createdBy t)"

lemma terms_ofD:
  assumes "terms_of u = terms_of t"
  shows "t_id u = t_id t" "t_organizationId u = t_organizationId t"
    "t_counterpartyOrganizationId u = t_counterpartyOrganizationId t" "t_transactionType u = t_transactionType t"
    "t_businessLine u = t_businessLine t" "t_grossAmountMinor u = t_grossAmountMinor t" "t_currency u = t_currency t"
    "t_sourceType u = t_sourceType t" "t_sourceReference u = t_sourceReference t" "source_fact u = source_fact t"
  using assms by (auto simp: terms_of_def source_fact_def split: option.splits)

section \<open>Rows\<close>

lemma check_new_transaction_Inr:
  "check_new_transaction t s = Inr (u, s') \<Longrightarrow> s' = s \<and> transaction_row_ok t \<and>
     (\<forall>h\<in>set (holds s). h_reference h \<noteq> t_id t)"
  by (auto simp: check_new_transaction_def action_Inr list_all_iff)

lemma insert_legs_Inr:
  "insert_legs ls s = Inr (u, s') \<Longrightarrow> s' = s\<lparr>legs := legs s @ ls\<rparr>"
  by (auto simp: insert_legs_def action_Inr)

lemma create_transaction_Inr:
  assumes "create_transaction rt t ls s = Inr (u, s')"
  shows "transaction_row_ok (stamp_insert rt (ticks s) t) \<and> \<not> transaction_taken s t \<and>
    (\<forall>h\<in>set (holds s). h_reference h \<noteq> t_id t) \<and>
    s' = s\<lparr>ticks := Suc (ticks s), txns := txns s @ [stamp_insert rt (ticks s) t], legs := legs s @ ls\<rparr>"
  using assms
  by (cases "ls = []")
    (auto simp: create_transaction_def action_Inr next_tick_Inr transaction_taken_def stamp_insert_def
      dest!: check_new_transaction_Inr insert_legs_Inr)

lemma createForSource_Inr:
  assumes "createForSource rt t ls s = Inr (written, s')"
  shows "transaction_row_ok (stamp_insert rt (ticks s) t) \<and> (\<forall>h\<in>set (holds s). h_reference h \<noteq> t_id t) \<and>
    (if written then \<not> transaction_taken s t \<and>
       s' = s\<lparr>ticks := Suc (ticks s), txns := txns s @ [stamp_insert rt (ticks s) t], legs := legs s @ ls\<rparr>
     else transaction_taken s t \<and> s' = s\<lparr>ticks := Suc (ticks s)\<rparr>)"
  using assms
  by (cases "ls = []")
    (auto simp: createForSource_def action_Inr next_tick_Inr transaction_taken_def stamp_insert_def
      dest!: check_new_transaction_Inr insert_legs_Inr split: if_splits)

lemma terms_stamp [simp]:
  "terms_of (stamp_insert rt n t) = terms_of t" "terms_of (stamp_update rt n old new) = terms_of new"
  "t_id (stamp_insert rt n t) = t_id t" "t_id (stamp_update rt n old new) = t_id new"
  "t_status (stamp_insert rt n t) = t_status t" "t_status (stamp_update rt n old new) = t_status new"
  "terms_of (t\<lparr>t_status := st\<rparr>) = terms_of t"
  by (simp_all add: terms_of_def stamp_insert_def stamp_update_def)

lemma txns_ok_insert:
  assumes "txns_ok s" and "transaction_row_ok r" and "\<not> transaction_taken s t" and "terms_of r = terms_of t"
    and "txns s' = txns s @ [r]"
  shows "txns_ok s'"
proof -
  note d = terms_ofD [OF assms(4)]
  have old: "distinct (map t_id (txns s))" "sources_unique (txns s)" "list_all transaction_row_ok (txns s)"
    using assms(1) by (simp_all add: txns_ok_def)
  have "t_id r \<notin> t_id ` set (txns s)" using assms(3) d(1) by (auto simp: transaction_taken_def)
  moreover have new: "source_fact r \<noteq> None \<longrightarrow> source_fact u \<noteq> source_fact r" if "u \<in> set (txns s)" for u
    using assms(3) that unfolding transaction_taken_def d(10) by blast
  ultimately have "distinct (map t_id (txns s'))" using old(1) assms(5) by simp
  moreover have "sources_unique (txns s')"
    unfolding sources_unique_def assms(5)
  proof (intro ballI impI)
    fix t u assume "t \<in> set (txns s @ [r])" "u \<in> set (txns s @ [r])" and f: "source_fact t \<noteq> None" "source_fact t = source_fact u"
    then consider "t \<in> set (txns s)" "u \<in> set (txns s)" | "t = r" "u = r" | "t = r" "u \<in> set (txns s)"
      | "u = r" "t \<in> set (txns s)" by auto
    then show "t_id t = t_id u"
    proof cases
      case 1
      then show ?thesis using f old(2) unfolding sources_unique_def by blast
    next
      case 3
      then show ?thesis using f new [of u] by simp
    next
      case 4
      then show ?thesis using f new [of t] by simp
    qed simp
  qed
  ultimately show ?thesis using old(3) assms(2,5) by (simp add: txns_ok_def)
qed

text \<open>The update a transition makes of one row.\<close>

definition moved_row ::
  "'a runtime_scheme \<Rightarrow> nat \<Rightarrow> string \<Rightarrow> transaction_status \<Rightarrow> transaction_status \<Rightarrow> (obligation \<Rightarrow> obligation) \<Rightarrow> obligation \<Rightarrow> obligation"
where
  "moved_row rt n i a b extra t =
     (if t_id t = i \<and> t_status t = a then stamp_update rt n t ((extra t)\<lparr>t_status := b\<rparr>) else t)"

lemma transition_Inr:
  assumes "transition rt i a b extra s = Inr (c, s')"
  shows "s' = s\<lparr>ticks := Suc (ticks s), txns := map (moved_row rt (ticks s) i a b extra) (txns s)\<rparr> \<and>
    c = length (filter (\<lambda>t. t_id t = i \<and> t_status t = a) (txns s)) \<and>
    (\<forall>t\<in>set (txns s). t_id t = i \<and> t_status t = a \<longrightarrow> transaction_row_ok (moved_row rt (ticks s) i a b extra t))"
proof -
  have "moved_row rt (ticks s) i a b extra =
      (\<lambda>t. if t_id t = i \<and> t_status t = a then stamp_update rt (ticks s) t ((extra t)\<lparr>t_status := b\<rparr>) else t)"
    by (simp add: moved_row_def fun_eq_iff)
  with assms show ?thesis
    by (auto simp: transition_def action_Inr next_tick_Inr Let_def list_all_iff)
qed

definition keeps_terms :: "(obligation \<Rightarrow> obligation) \<Rightarrow> bool" where
  "keeps_terms extra \<longleftrightarrow> (\<forall>t. terms_of (extra t) = terms_of t)"

lemma moved_row_terms: "keeps_terms extra \<Longrightarrow> terms_of (moved_row rt n i a b extra t) = terms_of t"
  by (simp add: moved_row_def keeps_terms_def)

lemma txns_ok_moved:
  assumes ok: "txns_ok s" and kt: "keeps_terms extra"
    and row: "\<forall>t\<in>set (txns s). t_id t = i \<and> t_status t = a \<longrightarrow> transaction_row_ok (moved_row rt n i a b extra t)"
    and eq: "txns s' = map (moved_row rt n i a b extra) (txns s)"
  shows "txns_ok s'"
proof -
  let ?f = "moved_row rt n i a b extra"
  have id: "t_id (?f t) = t_id t" "source_fact (?f t) = source_fact t" for t
    by (rule terms_ofD [OF moved_row_terms [OF kt]])+
  have "map t_id (txns s') = map t_id (txns s)" using eq id by simp
  moreover have "list_all transaction_row_ok (txns s')"
    using ok row eq by (auto simp: txns_ok_def list_all_iff moved_row_def)
  moreover have "sources_unique (txns s')" using ok eq id by (auto simp: txns_ok_def sources_unique_def)
  ultimately show ?thesis using ok by (simp add: txns_ok_def)
qed

lemma keeps_txns_create [keeps_rules]: "keeps txns_ok (create_transaction rt t ls)"
proof (rule keepsI)
  fix s x s' assume ok: "txns_ok s" and r: "create_transaction rt t ls s = Inr (x, s')"
  note c = create_transaction_Inr [OF r]
  show "txns_ok s'" by (rule txns_ok_insert [OF ok _ _ _, of "stamp_insert rt (ticks s) t" t]) (use c in simp_all)
qed

lemma keeps_txns_createForSource [keeps_rules]: "keeps txns_ok (createForSource rt t ls)"
proof (rule keepsI)
  fix s w s' assume ok: "txns_ok s" and r: "createForSource rt t ls s = Inr (w, s')"
  note c = createForSource_Inr [OF r]
  show "txns_ok s'"
  proof (cases w)
    case True
    show ?thesis by (rule txns_ok_insert [OF ok _ _ _, of "stamp_insert rt (ticks s) t" t]) (use c True in simp_all)
  next
    case False
    with c ok show ?thesis by (simp add: txns_ok_def)
  qed
qed

lemma keeps_txns_transition [keeps_rules]:
  assumes "keeps_terms extra"
  shows "keeps txns_ok (transition rt i a b extra)"
proof (rule keepsI)
  fix s c s' assume ok: "txns_ok s" and r: "transition rt i a b extra s = Inr (c, s')"
  note t = transition_Inr [OF r]
  show "txns_ok s'"
    by (rule txns_ok_moved [OF ok assms, of i a rt "ticks s" b]) (use t in simp_all)
qed

end
