(* ===== verification/Transaction_Invariants.thy ===== *)
theory Transaction_Invariants
  imports Transaction_Laws
begin

text \<open>
  What the operations on obligations leave alone, and that every one of them keeps the four invariants
  of the service: the books, the event streams, the commission rules and the obligations themselves.
\<close>

section \<open>Frames\<close>

text \<open>A part of the store that reads neither the obligations nor their legs.\<close>

definition txnless :: "(db \<Rightarrow> 'p) \<Rightarrow> bool" where
  "txnless f \<longleftrightarrow> tickless f \<and> (\<forall>s xs. f (s\<lparr>txns := xs\<rparr>) = f s) \<and> (\<forall>s xs. f (s\<lparr>legs := xs\<rparr>) = f s)"

lemma txnless_parts [simp]:
  "txnless ledger_part" "txnless wallet_part" "txnless charge_part" "txnless outbox_part" "txnless fixed_part"
  "txnless rules"
  by (simp_all add: txnless_def) (simp_all add: part_defs)

lemma txnless_pair [simp]: "txnless f \<Longrightarrow> txnless g \<Longrightarrow> txnless (\<lambda>s. (f s, g s))"
  by (simp add: txnless_def)

lemma txnless_tickless [simp]: "txnless f \<Longrightarrow> tickless f"
  by (simp add: txnless_def)

lemma unchanged_txn_rows [unchanged_rules]:
  assumes "txnless f"
  shows "unchanged f (create_transaction rt t ls)" "unchanged f (createForSource rt t ls)"
    "unchanged f (transition rt i a b extra)"
proof -
  have u: "f (s\<lparr>txns := xs\<rparr>) = f s" "f (s\<lparr>legs := ys\<rparr>) = f s" "tickless f" for s xs ys
    using assms by (simp_all add: txnless_def)
  show "unchanged f (create_transaction rt t ls)" "unchanged f (createForSource rt t ls)"
    "unchanged f (transition rt i a b extra)"
    unfolding create_transaction_def createForSource_def transition_def check_new_transaction_def insert_legs_def
      Let_def
    by (intro unchanged_rules u)+
qed

lemma unchanged_txn_reads [unchanged_rules]:
  "unchanged f (lockForUpdate i)" "unchanged f (findByIdForParty i)" "unchanged f (heldProven i)"
  "unchanged f (findBySource org st sr)" "unchanged f (get_transaction rt i)"
  unfolding lockForUpdate_def findByIdForParty_def heldProven_def findBySource_def get_transaction_def
  by (intro unchanged_rules)+

lemma unchanged_pricing [unchanged_rules]:
  "unchanged f (decide p)" "unchanged f (pricingOf p)" "unchanged f (chargeFor p oc ri)"
  unfolding decide_def pricingOf_def chargeFor_def candidateRules_def read_linePricingFrom_def Let_def
  by (auto intro!: unchanged_rules split: option.splits commission_outcome.splits)

lemma unchanged_legsFor [unchanged_rules]: "tickless f \<Longrightarrow> unchanged f (legsFor rt i org cp g c)"
  unfolding legsFor_def Let_def by (intro unchanged_rules)

lemma unchanged_announce [unchanged_rules]:
  "outboxless f \<Longrightarrow> unchanged f (announce rt t act fs ts by' at cid)"
  unfolding announce_def by (intro unchanged_rules)

lemma unchanged_authorizeAct [unchanged_rules]: "tickless f \<Longrightarrow> unchanged f (authorizeAct rt t cmd)"
  unfolding authorizeAct_def by (intro unchanged_rules)

lemma unchanged_transaction [unchanged_rules]: "unchanged f m \<Longrightarrow> unchanged f (transaction m)"
  unfolding transaction_def by (intro unchanged_rules)

lemma unchanged_move [unchanged_rules]:
  "txnless f \<Longrightarrow> outboxless f \<Longrightarrow> unchanged f (move rt i cmd by' extra hdis)"
  unfolding move_def move_within_def by (intro unchanged_rules) simp_all

lemma unchanged_recordAuthorisedObligation [unchanged_rules]:
  "txnless f \<Longrightarrow> outboxless f \<Longrightarrow> unchanged f (recordAuthorisedObligation rt a)"
  unfolding recordAuthorisedObligation_def Let_def by (intro unchanged_rules) simp_all

lemmas move_commands = authoriseSettlement_def dispute_def resolveDispute_def cancel_def

lemma unchanged_move_commands [unchanged_rules]:
  assumes "txnless f" and "outboxless f"
  shows "unchanged f (authoriseSettlement rt i k)" "unchanged f (dispute rt i r)"
    "unchanged f (resolveDispute rt i r d)" "unchanged f (cancel rt i r)"
  unfolding move_commands Let_def by (intro unchanged_rules assms)+


section \<open>Every operation keeps its invariants\<close>

text \<open>What the commands change of the row they move.\<close>

lemma keeps_terms_extra [simp]:
  "keeps_terms (\<lambda>t. t)"
  "keeps_terms (\<lambda>t. t\<lparr>t_settlementAuthorisedAt := b', t_settlementAuthorisedBy := b, t_settlementAuthorisedService := c,
     t_settlementAuthorisationKey := d\<rparr>)"
  "keeps_terms (\<lambda>t. t\<lparr>t_disputedAt := b', t_disputedBy := b, t_disputeReason := c\<rparr>)"
  "keeps_terms (\<lambda>t. t\<lparr>t_disputeResolvedAt := b', t_disputeResolvedBy := b, t_disputeResolution := c\<rparr>)"
  "keeps_terms (\<lambda>t. t\<lparr>t_failureReason := a, t_cancelledAt := b', t_cancelledBy := c\<rparr>)"
  "keeps_terms (\<lambda>t. t\<lparr>t_failureReason := a, t_refundedAt := b', t_refundedBy := c\<rparr>)"
  "keeps_terms (\<lambda>t. t\<lparr>t_commissionAmountMinor := x, t_netAmountMinor := y, t_settledAt := b'\<rparr>)"
  by (simp_all add: keeps_terms_def terms_of_def)

text \<open>An invariant that does not read the clock's count survives the outside reads and the reads of rows.\<close>

lemma keeps_tickless [keeps_rules]:
  assumes "tickless I"
  shows "keeps I (prefixed_ulid rt pre)" "keeps I (hostDate rt)" "keeps I (databaseNow rt)" "keeps I next_tick"
    "keeps I (legsFor rt i org cp g c)" "keeps I (authorizeAct rt t cmd)"
    "keeps I (reconfirmFinancialAuthority rt fa)" "keeps I (settlementBooks rt payer)"
  by (rule keeps_unchanged [of I]; (intro unchanged_rules assms)?; simp)+

lemma keeps_reads [keeps_rules]:
  "keeps I (lockForUpdate i)" "keeps I (findByIdForParty i)" "keeps I (heldProven i)"
  "keeps I (findBySource org st sr)" "keeps I (get_transaction rt i)" "keeps I (pricingOf p)"
  "keeps I (chargeFor p oc ri)" "keeps I (findActiveHold w org r ty)" "keeps I (findHoldById h)"
  "keeps I (findByOrganizationUnscoped org cur)" "keeps I (lock ids)"
  unfolding findActiveHold_def findHoldById_def findByOrganizationUnscoped_def
  by (rule keeps_unchanged [of I]; (intro unchanged_rules)?; simp)+

lemma keeps_transaction [keeps_rules]: "keeps I m \<Longrightarrow> keeps I (transaction m)"
  unfolding transaction_def by (intro keeps_rules)

lemma tickless_invariants [simp]: "tickless streams_ok" "tickless txns_ok" "tickless rules_ok" "tickless books_ok"
proof -
  show "tickless streams_ok" "tickless txns_ok" "tickless rules_ok"
    by (simp_all add: tickless_def streams_ok_def stream_of_def next_seq_of_def txns_ok_def rules_ok_def)
  show "tickless books_ok"
    unfolding tickless_def by (intro allI books_ok_cong) (simp_all add: part_defs)
qed

lemma keeps_txns_wallet [keeps_rules]:
  "keeps txns_ok (resolveCounterpartyWallet rt org cur)" "keeps txns_ok (open_within rt org cur)"
  "keeps txns_ok (credit rt w amount cp jt desc otid by')" "keeps txns_ok (placeHold rt w amount ref rty tid by')"
  "keeps txns_ok (refundHold rt w i rty tid note by')" "keeps txns_ok (markHoldReleased rt h jid tid by')"
  "keeps txns_ok (enqueue rt aid org' p cid)" "keeps txns_ok (announce rt t act fs ts by' at cid)"
  by (rule keeps_unchanged [of business_part], intro unchanged_rules; simp add: business_part_def txn_part_def txns_ok_def)+

lemma keeps_streams_txn_rows [keeps_rules]:
  "keeps streams_ok (create_transaction rt t ls)" "keeps streams_ok (createForSource rt t ls)"
  "keeps streams_ok (transition rt i a b extra)"
  by (rule keeps_streams_unchanged, intro unchanged_rules; simp)+

lemma keeps_streams_announce [keeps_rules]: "keeps streams_ok (announce rt t act fs ts by' at cid)"
  unfolding announce_def by (intro keeps_rules)

lemma keeps_move:
  assumes "I \<in> {txns_ok, streams_ok, rules_ok, books_ok}" and "\<And>at. keeps_terms (extra at)"
  shows "keeps I (move rt i cmd by' extra hdis)"
proof -
  have "keeps books_ok (move rt i cmd by' extra hdis)"
    by (rule keeps_books_unchanged, intro unchanged_rules; simp)
  moreover have "keeps rules_ok (move rt i cmd by' extra hdis)"
    by (rule keeps_rules_unchanged, intro unchanged_rules; simp)
  moreover have "keeps txns_ok (move rt i cmd by' extra hdis)"
    unfolding move_def move_within_def by (intro keeps_rules assms(2)) simp_all
  moreover have "keeps streams_ok (move rt i cmd by' extra hdis)"
    unfolding move_def move_within_def by (intro keeps_rules) simp_all
  ultimately show ?thesis using assms(1) by auto
qed

lemma keeps_move_commands [keeps_rules]:
  assumes "I \<in> {txns_ok, streams_ok, rules_ok, books_ok}"
  shows "keeps I (authoriseSettlement rt i k)" "keeps I (dispute rt i r)" "keeps I (resolveDispute rt i r d)"
    "keeps I (cancel rt i r)"
  unfolding move_commands Let_def by (intro keeps_move assms; simp)+

lemma keeps_recordAuthorisedObligation:
  assumes "I \<in> {txns_ok, streams_ok, rules_ok, books_ok}"
  shows "keeps I (recordAuthorisedObligation rt a)"
proof -
  have "keeps books_ok (recordAuthorisedObligation rt a)"
    by (rule keeps_books_unchanged, intro unchanged_rules; simp)
  moreover have "keeps rules_ok (recordAuthorisedObligation rt a)"
    by (rule keeps_rules_unchanged, intro unchanged_rules; simp)
  moreover have "keeps txns_ok (recordAuthorisedObligation rt a)"
    unfolding recordAuthorisedObligation_def Let_def by (intro keeps_rules) simp_all
  moreover have "keeps streams_ok (recordAuthorisedObligation rt a)"
    unfolding recordAuthorisedObligation_def Let_def by (intro keeps_rules) simp_all
  ultimately show ?thesis using assms(1) by auto
qed

text \<open>The wallet a transaction works on is the locked row itself.\<close>

lemma locked_rows_one:
  assumes "books_ok s" and "w \<in> set (wallets s)" and "locked_rows s [w_id w] = locked # rest"
  shows "locked = w"
proof -
  have "locked \<in> set (wallets s)" "w_id locked = w_id w"
    using locked_rows_set [of s "[w_id w]"] assms(3) by auto
  with assms(1,2) show ?thesis by (auto simp: books_ok_def wallet_ok_def wallets_unique_def dest: distinct_map_eq)
qed

lemma locked_rows_mem: "locked_rows s ids = locked # rest \<Longrightarrow> locked \<in> set (wallets s) \<and> w_id locked \<in> set ids"
  using locked_rows_set [of s ids] by auto

lemma keeps_books_placeHold:
  "books_ok s \<Longrightarrow> w \<in> set (wallets s) \<Longrightarrow> placeHold rt w amount ref rty tid by' s = Inr (r, s') \<Longrightarrow> books_ok s'"
  using placeHold_Inr placeHold_replay by blast

lemma keeps_books_refundHold:
  "books_ok s \<Longrightarrow> w \<in> set (wallets s) \<Longrightarrow> refundHold rt w i rty tid note by' s = Inr (r, s') \<Longrightarrow> books_ok s'"
proof (cases r)
  case (Some p)
  assume "books_ok s" "w \<in> set (wallets s)" "refundHold rt w i rty tid note by' s = Inr (r, s')"
  with Some show "books_ok s'" by (cases p) (auto dest: refundHold_Inr)
qed (auto dest: refundHold_noop)

text \<open>Lock, then act on the locked row.\<close>

lemma keeps_books_locked:
  assumes "\<And>w s x s'. books_ok s \<Longrightarrow> w \<in> set (wallets s) \<Longrightarrow> w_id w = i \<Longrightarrow> k w s = Inr (x, s') \<Longrightarrow> books_ok s'"
  shows "keeps books_ok (bindM (lock [i]) (\<lambda>rows. case rows of [] \<Rightarrow> throwM e | w # _ \<Rightarrow> k w))"
  by (rule keepsI) (auto simp: action_Inr lock_Inr dest!: locked_rows_mem intro: assms)


lemma keeps_books_open_within [keeps_rules]: "keeps books_ok (open_within rt org cur)"
  by (rule keepsI) (auto dest: open_within_Inr)

lemma unchanged_part:
  "unchanged g m \<Longrightarrow> (\<And>s s'. g s' = g s \<Longrightarrow> f s' = f s) \<Longrightarrow> unchanged f m"
  unfolding unchanged_def by blast

lemma unchanged_rules_wallet [unchanged_rules]:
  "unchanged rules (open_within rt org cur)" "unchanged rules (resolveCounterpartyWallet rt org cur)"
  "unchanged rules (credit rt w amount cp jt desc otid by')" "unchanged rules (placeHold rt w amount ref rty tid by')"
  "unchanged rules (refundHold rt w i rty tid note by')" "unchanged rules (markHoldReleased rt h jid tid by')"
  by (rule unchanged_part [of business_part], intro unchanged_rules; simp add: business_part_def)+

lemma keeps_findByOrganization [keeps_rules]: "keeps I (findByOrganization rt org cur)"
  unfolding findByOrganization_def by (intro keeps_rules)

lemma keeps_open_wallet: "keeps I (open_within rt org cur) \<Longrightarrow> keeps I (open_wallet rt org cur)"
proof (rule keepsI)
  fix s w s'
  assume k: "keeps I (open_within rt org cur)" and i: "I s" and r: "open_wallet rt org cur s = Inr (w, s')"
  let ?read = "\<lambda>c. bindM (findByOrganization rt org cur) (\<lambda>raced.
      case raced of Some w \<Rightarrow> returnM w | None \<Rightarrow> throwM (UniqueViolation c))"
  have read: "keeps I (?read c)" for c by (intro keeps_rules)
  from r consider "transaction (open_within rt org cur) s = Inr (w, s')" | c where "?read c s = Inr (w, s')"
    unfolding open_wallet_def by (cases "transaction (open_within rt org cur) s") (auto split: failure.splits)
  then show "I s'"
  proof cases
    case 1
    then show ?thesis by (rule keepsD [OF keeps_transaction [OF k] i])
  next
    case (2 c)
    then show ?thesis by (rule keepsD [OF read i])
  qed
qed

lemma keeps_getOrOpen [keeps_rules]:
  assumes "\<And>org. keeps I (open_within rt org cur)"
  shows "keeps I (getOrOpen rt cur)"
  unfolding getOrOpen_def by (intro keeps_rules keeps_open_wallet assms)

text \<open>Creating an obligation, with its hold or without.\<close>

lemma keeps_books_txn_rows [keeps_rules]:
  "keeps books_ok (create_transaction rt t ls)" "keeps books_ok (createForSource rt t ls)"
  "keeps books_ok (transition rt i a b extra)" "keeps books_ok (announce rt t' act fs ts by' at cid)"
  "keeps books_ok (enqueue rt aid org p cid)"
  by (rule keeps_books_unchanged, intro unchanged_rules; simp)+

lemma keeps_create_hold:
  assumes "I \<in> {txns_ok, streams_ok, rules_ok, books_ok}"
  shows "keeps I (create_hold rt i gross actor pw)"
proof -
  have "keeps books_ok (create_hold rt i gross actor pw)"
  proof (cases pw)
    case (Some wallet)
    have "books_ok s2" if "books_ok s" "w \<in> set (wallets s)"
      "thenM (placeHold rt w gross i TRANSACTION i actor)
         (bindM (liftM (nextStatus CREATED HOLD_PLACED No_Facts)) (\<lambda>target.
          thenM (transition rt i CREATED target (\<lambda>t. t)) (returnM ()))) s = Inr (x, s2)" for w s x s2
    proof -
      from that obtain r s1 target c where p: "placeHold rt w gross i TRANSACTION i actor s = Inr (r, s1)"
        and t: "transition rt i CREATED target (\<lambda>t. t) s1 = Inr (c, s2)"
        by (auto simp: action_Inr)
      have "books_ok s1" by (rule keeps_books_placeHold [OF that(1,2) p])
      then show ?thesis using t by (rule keepsD [OF keeps_books_txn_rows(3)])
    qed
    then have "keeps books_ok (create_hold rt i gross actor (Some wallet))"
      unfolding create_hold_def option.case by (rule keeps_books_locked)
    with Some show ?thesis by simp
  qed (simp add: create_hold_def)
  moreover have "keeps rules_ok (create_hold rt i gross actor pw)"
    unfolding create_hold_def by (rule keeps_rules_unchanged, intro unchanged_rules; simp)
  moreover have "keeps txns_ok (create_hold rt i gross actor pw)"
    unfolding create_hold_def by (intro keeps_rules; simp)
  moreover have "keeps streams_ok (create_hold rt i gross actor pw)"
    unfolding create_hold_def by (intro keeps_rules)
  ultimately show ?thesis using assms by auto
qed


lemma keeps_rules_txn_rows [keeps_rules]:
  "keeps rules_ok (create_transaction rt t ls)" "keeps rules_ok (transition rt i a b extra)"
  "keeps rules_ok (announce rt t' act fs ts by' at cid)" "keeps rules_ok (refundHold rt w h rty tid note by'')"
  "keeps rules_ok (open_within rt org cur)"
  by (rule keeps_rules_unchanged, intro unchanged_rules; simp)+

lemma keeps_create_within:
  assumes "I \<in> {txns_ok, streams_ok, rules_ok, books_ok}"
  shows "keeps I (create_within rt dto org gross pw)"
proof -
  have "tickless I" "\<And>t ls. keeps I (create_transaction rt t ls)"
      "\<And>t act fs ts by' at cid. keeps I (announce rt t act fs ts by' at cid)"
    using assms by (auto intro: keeps_rules)
  then show ?thesis
    unfolding create_within_def Let_def by (intro keeps_rules keeps_create_hold assms)
qed

text \<open>The request as a whole: its two transactions, and the error it may end in.\<close>

lemma request_keeps_create:
  assumes "I \<in> {txns_ok, streams_ok, rules_ok, books_ok}"
  shows "request_keeps I (create rt dto)"
proof -
  have "\<And>org. keeps I (open_within rt org (currency_of dto))" using assms by (auto intro: keeps_rules)
  then have wallet: "request_keeps I (if ct_holdFunds dto
        then atomically (bindM (getOrOpen rt (currency_of dto)) (\<lambda>w. returnM (Some w))) else liftR (Inr None))"
    by (auto intro!: keeps_rules)
  show ?thesis
    unfolding create_def
  proof (intro request_keeps_bind request_keeps_lift, clarify)
    fix org gross
    show "request_keeps I (bindR (if ct_holdFunds dto
        then atomically (bindM (getOrOpen rt (currency_of dto)) (\<lambda>w. returnM (Some w))) else liftR (Inr None)) (\<lambda>payerWallet.
     rethrowR (atomically (transaction (create_within rt dto org gross payerWallet))) (duplicateSourceOr org dto)))"
      by (intro request_keeps_bind wallet request_keeps_rethrow request_keeps_atomically keeps_transaction
          keeps_create_within assms)
  qed
qed

text \<open>A refund, from the locked wallet on.\<close>

lemma keeps_refund_others:
  assumes "I \<in> {txns_ok, streams_ok, rules_ok}"
  shows "keeps I (refund_within rt i reason)"
proof -
  have "tickless I" "\<And>a b at. keeps I (transition rt i a b
      (\<lambda>u. u\<lparr>t_failureReason := Some reason, t_refundedAt := Some at, t_refundedBy := Some (actor_name rt)\<rparr>))"
      "\<And>t act fs ts by' at cid. keeps I (announce rt t act fs ts by' at cid)"
      "\<And>w h note by'. keeps I (refundHold (runUnscoped rt) w h TRANSACTION i note by')"
    using assms by (auto intro: keeps_rules intro!: keeps_txns_transition)
  then show ?thesis unfolding refund_within_def apply_refund_def refund_hold_def Let_def by (intro keeps_rules)
qed

lemma refund_within_steps:
  assumes "refund_within rt i reason s = Inr (x, s')"
  obtains t fa s1 target wallet locked rest hold u1 u2 s2 s3 n at c s5 u s6 where
    "txn_of s i = Some t" "authorizeAct rt t CMD_REFUND s = Inr (fa, s1)"
    "nextStatus (t_status t) REFUND No_Facts = Inr target"
    "find_wallet s1 (t_organizationId t) (t_currency t) = Some wallet"
    "locked_rows s1 [w_id wallet] = locked # rest"
    "findActiveHold (w_id wallet) (t_organizationId t) i TRANSACTION s1 = Inr (hold, s1)"
    "(\<exists>h\<in>set (transaction_holds s (t_id t) (t_organizationId t)). h_status h = H_ACTIVE) \<longrightarrow> hold \<noteq> None"
    "reconfirmFinancialAuthority rt fa s1 = Inr (u1, s2)"
    "refund_hold rt locked i reason hold s2 = Inr (u2, s3)"
    "transition rt i (t_status t) target (\<lambda>u. u\<lparr>t_failureReason := Some reason, t_refundedAt := Some at,
        t_refundedBy := Some (actor_name rt)\<rparr>) (s3\<lparr>ticks := n\<rparr>) = Inr (c, s5)" "c \<noteq> 0"
    "announce rt t ACT_REFUND (Some (t_status t)) target (actor_name rt) at None s5 = Inr (u, s6)"
    "get_transaction rt i s6 = Inr (x, s')"
proof -
  from assms obtain t where t: "txn_of s i = Some t"
    by (auto simp: refund_within_def Let_def action_Inr lockForUpdate_def)
  with assms obtain fa s1 target wallet locked rest hold s1' where
    a: "authorizeAct rt t CMD_REFUND s = Inr (fa, s1)" "nextStatus (t_status t) REFUND No_Facts = Inr target"
      "find_wallet s1 (t_organizationId t) (t_currency t) = Some wallet"
      "locked_rows s1 [w_id wallet] = locked # rest"
    and h: "findActiveHold (w_id wallet) (t_organizationId t) i TRANSACTION s1 = Inr (hold, s1')"
    and r: "apply_refund rt i \<lparr>lt_row = t,
        lt_settlementAuthorised = transaction_settlement_authorised s (t_id t) (t_settlementAuthorisedAt t \<noteq> None),
        lt_settlementBarred = transaction_settlement_barred s (t_id t),
        lt_fundsHeld = (\<exists>h\<in>set (transaction_holds s (t_id t) (t_organizationId t)). h_status h = H_ACTIVE)\<rparr>
        fa target locked hold reason s1' = Inr (x, s')"
    unfolding refund_within_def lockForUpdate_def findByOrganizationUnscoped_def
    by (auto simp: bindM_Inr option_case_throw_Inr list_case_throw_Inr liftM_Inr lock_Inr)
  have "s1' = s1" using h by (simp add: findActiveHold_def)
  then have h: "findActiveHold (w_id wallet) (t_organizationId t) i TRANSACTION s1 = Inr (hold, s1)" using h by simp
  from r \<open>s1' = s1\<close> obtain u1 u2 s2 s3 c s5 u s6 where
    f: "(\<exists>h\<in>set (transaction_holds s (t_id t) (t_organizationId t)). h_status h = H_ACTIVE) \<longrightarrow> hold \<noteq> None"
    and r': "reconfirmFinancialAuthority rt fa s1 = Inr (u1, s2)" "refund_hold rt locked i reason hold s2 = Inr (u2, s3)"
      "transition rt i (t_status t) target (\<lambda>u. u\<lparr>t_failureReason := Some reason,
         t_refundedAt := Some (new_Date rt (ticks s3)), t_refundedBy := Some (actor_name rt)\<rparr>)
         (s3\<lparr>ticks := Suc (ticks s3)\<rparr>) = Inr (c, s5)" "c \<noteq> 0"
      "announce rt t ACT_REFUND (Some (t_status t)) target (actor_name rt) (new_Date rt (ticks s3)) None s5 = Inr (u, s6)"
      "get_transaction rt i s6 = Inr (x, s')"
    by (auto simp: apply_refund_def Let_def action_Inr hostDate_Inr)
  show ?thesis by (rule that [OF t a h f r'])
qed

lemma keeps_books_refund: "keeps books_ok (refund_within rt i reason)"
proof (rule keepsI)
  fix s x s' assume ok: "books_ok s" and r: "refund_within rt i reason s = Inr (x, s')"
  obtain t fa s1 target wallet locked rest hold u1 u2 s2 s3 n at c s5 u s6 where
    au: "authorizeAct rt t CMD_REFUND s = Inr (fa, s1)"
    and "find_wallet s1 (t_organizationId t) (t_currency t) = Some wallet"
    and lk: "locked_rows s1 [w_id wallet] = locked # rest"
    and rc: "reconfirmFinancialAuthority rt fa s1 = Inr (u1, s2)"
    and rf: "refund_hold rt locked i reason hold s2 = Inr (u2, s3)"
    and tr: "transition rt i (t_status t) target (\<lambda>u. u\<lparr>t_failureReason := Some reason,
        t_refundedAt := Some at, t_refundedBy := Some (actor_name rt)\<rparr>) (s3\<lparr>ticks := n\<rparr>) = Inr (c, s5)"
    and an: "announce rt t ACT_REFUND (Some (t_status t)) target (actor_name rt) at None s5 = Inr (u, s6)"
    and ge: "get_transaction rt i s6 = Inr (x, s')"
    by (rule refund_within_steps [OF r]) blast
  have k: "keeps books_ok (authorizeAct rt t CMD_REFUND)" "keeps books_ok (reconfirmFinancialAuthority rt fa)"
    "keeps books_ok (get_transaction rt i)" by (intro keeps_rules; simp)+
  have 1: "books_ok s1" by (rule keepsD [OF k(1) ok au])
  have 2: "books_ok s2" by (rule keepsD [OF k(2) 1 rc])
  have "wallets s2 = wallets s1"
    using unchangedD [OF unchanged_access(2) [of wallet_part] rc] by (simp add: wallet_part_def)
  then have "locked \<in> set (wallets s2)" using locked_rows_mem [OF lk] by simp
  then have 3: "books_ok s3"
    using rf 2 by (cases hold) (auto simp: refund_hold_def action_Inr dest: keeps_books_refundHold)
  then have "books_ok (s3\<lparr>ticks := n\<rparr>)" using tickless_invariants(4) by (simp add: tickless_def)
  from keepsD [OF keeps_books_txn_rows(3) this tr] have 5: "books_ok s5" .
  have 6: "books_ok s6" by (rule keepsD [OF keeps_books_txn_rows(4) 5 an])
  show "books_ok s'" by (rule keepsD [OF k(3) 6 ge])
qed

lemma keeps_refund:
  "I \<in> {txns_ok, streams_ok, rules_ok, books_ok} \<Longrightarrow> keeps I (refund rt i reason)"
  unfolding refund_def
  using keeps_refund_others keeps_books_refund by (blast intro: keeps_transaction)

end
