(* ===== verification/Settlement.thy ===== *)
theory Settlement
  imports Transaction
begin

text \<open>
  Settlement: \<^verbatim>\<open>settlement/settlement.service.ts\<close>, one ACID transaction from the locked obligation to
  the balanced journal, the released hold, the two recomputed wallets, the commission and the
  settlement rows, the move to SETTLED and the event.

  The refusal for want of a rule (\<open>NoActiveRuleRefusal\<close>) is a value of \<open>settleWithin\<close>: its only
  catcher, \<open>settle\<close>, rolls the transaction back to the savepoint \<open>settleWithin\<close> opened with, so the
  store it was raised in is dropped, but for the count of outside reads.
\<close>

section \<open>Rows\<close>

definition insert_settlement :: "settlement \<Rightarrow> unit tx" where
  "insert_settlement x =
     bindM (getsM (\<lambda>s. \<exists>y\<in>set (settlements s). s_id y = s_id x \<or> s_transactionId y = s_transactionId x \<or>
                         s_journalId y = s_journalId x)) (\<lambda>taken.
     thenM (assertM (\<not> taken) (UniqueViolation ''settlement''))
    (thenM (assertM (0 < s_grossAmountMinor x \<and> 0 \<le> s_commissionAmountMinor x \<and> 0 \<le> s_netAmountMinor x \<and>
                     s_netAmountMinor x = s_grossAmountMinor x - s_commissionAmountMinor x)
             (ConstraintViolation ''ck_settlement_amounts''))
    (thenM (assertM (s_payerOrganizationId x \<noteq> s_payeeOrganizationId x)
             (ConstraintViolation ''ck_settlement_distinct_parties''))
           (modifyM (\<lambda>s. s\<lparr>settlements := settlements s @ [x]\<rparr>)))))"

section \<open>The charge\<close>

definition COMMISSION_BEARING_LINES :: "business_line list" where
  "COMMISSION_BEARING_LINES =
     [LINE_PARTS, LINE_INSURANCE, LINE_MAINTENANCE, LINE_LOGISTICS, LINE_PROCUREMENT, LINE_CONSTRUCTION,
      LINE_MARKETPLACE_SERVICE]"

definition requiresRule :: "'a runtime_scheme \<Rightarrow> business_line option \<Rightarrow> bool" where
  "requiresRule rt line \<longleftrightarrow>
     ECONOMIC_SETTLEMENT_REQUIRE_COMMISSION_RULE rt \<and>
     (case line of None \<Rightarrow> False | Some l \<Rightarrow> l \<in> set COMMISSION_BEARING_LINES)"

record refusal_subject =
  rs_transactionId :: string
  rs_organizationId :: string
  rs_payeeOrganizationId :: string
  rs_transactionType :: transaction_type
  rs_businessLine :: business_line

definition charge ::
  "'a runtime_scheme \<Rightarrow> obligation \<Rightarrow> string \<Rightarrow> (refusal_subject + commission_decision) tx"
where
  "charge rt t payee =
     bindM (chargeFor \<lparr>pi_organizationId = payee, pi_transactionType = t_transactionType t,
              pi_businessLine = t_businessLine t, pi_occurredAt = t_occurredAt t,
              pi_grossAmountMinor = t_grossAmountMinor t, pi_currency = t_currency t\<rparr>
              (t_pricingOutcome t) (t_pricingRuleId t)) (\<lambda>recorded.
     if cd_matched recorded \<or> \<not> requiresRule rt (t_businessLine t) then returnM (Inr recorded)
     else case t_businessLine t of
       None \<Rightarrow> returnM (Inr recorded)
     | Some line \<Rightarrow>
         bindM (decideAtSettlement rt payee (t_transactionType t) line (t_grossAmountMinor t) (t_currency t)) (\<lambda>now.
         if cd_matched now then returnM (Inr now)
         else returnM (Inl \<lparr>rs_transactionId = t_id t, rs_organizationId = t_organizationId t,
                rs_payeeOrganizationId = payee, rs_transactionType = t_transactionType t,
                rs_businessLine = line\<rparr>)))"

definition recordRefusal :: "'a runtime_scheme \<Rightarrow> refusal_subject \<Rightarrow> string \<Rightarrow> unit tx" where
  "recordRefusal rt subject refusedBy =
     bindM (databaseNow rt) (\<lambda>refusedAt.
     enqueue rt (rs_transactionId subject) (rs_organizationId subject)
       (SettlementRefused (rs_transactionId subject) (rs_organizationId subject) (rs_organizationId subject)
          (rs_payeeOrganizationId subject) (rs_transactionType subject) (rs_businessLine subject)
          ''NO_ACTIVE_RULE'' refusedBy refusedAt) None)"

section \<open>The journal\<close>

definition postSettlementJournal ::
  "'a runtime_scheme \<Rightarrow> obligation \<Rightarrow> string \<Rightarrow> bool \<Rightarrow> int \<Rightarrow> int \<Rightarrow> string \<Rightarrow> int \<Rightarrow> settlement_books option \<Rightarrow>
     posted_journal tx"
where
  "postSettlementJournal rt t payee payerHasEscrow commissionMinor netAmountMinor settledBy settledAt books =
     (let cur = t_currency t in
      bindM (resolveAccount rt (if payerHasEscrow then ESCROW else WALLET) (t_organizationId t) cur settledBy) (\<lambda>source.
      bindM (resolveAccount rt WALLET payee cur settledBy) (\<lambda>payeeAccount.
      let es0 = [leg source DEBIT (t_grossAmountMinor t) cur];
          es1 = (if netAmountMinor > 0 then es0 @ [leg payeeAccount CREDIT netAmountMinor cur] else es0) in
      bindM (if commissionMinor > 0
             then bindM (resolveAccount rt COMMISSION_REVENUE (t_organizationId t) cur settledBy) (\<lambda>revenue.
                  returnM (es1 @ [leg revenue CREDIT commissionMinor cur]))
             else returnM es1) (\<lambda>es.
      post rt \<lparr>dj_journalType = SETTLEMENT, dj_description = ''Settlement of '' @ t_id t,
          dj_organizationId = t_organizationId t, dj_transactionId = Some (t_id t), dj_entries = es,
          dj_postedAt = Some settledAt, dj_reverses = None\<rparr> settledBy books))))"

definition requireWallet :: "string \<Rightarrow> string \<Rightarrow> wallet tx" where
  "requireWallet org cur =
     bindM (findByOrganizationUnscoped org cur) (\<lambda>found.
     case found of
       None \<Rightarrow> throwM (RastaError BUSINESS_RULE_VIOLATION ''The paying organization has no wallet in this currency'')
     | Some w \<Rightarrow> returnM w)"

section \<open>settle\<close>

record settlement_result =
  res_settlementId :: string
  res_transactionId :: string
  res_journalId :: string
  res_grossAmountMinor :: int
  res_commissionAmountMinor :: int
  res_netAmountMinor :: int
  res_currency :: string
  res_commissionMatched :: bool
  res_commissionOutcome :: commission_outcome
  res_payeeOrganizationId :: string
  res_settledAt :: int

text \<open>
  Everything up to the charge: what is settled, between which locked wallets, from which hold, on
  whose authority. Nothing of it moves money.
\<close>

record prepared_settlement =
  ps_transaction :: obligation
  ps_target :: transaction_status
  ps_authority :: financial_authority
  ps_books :: "settlement_books option"
  ps_payee :: string
  ps_payerWallet :: wallet
  ps_payeeWallet :: wallet
  ps_hold :: "wallet_hold option"

definition lock_parties :: "'a runtime_scheme \<Rightarrow> string \<Rightarrow> string \<Rightarrow> string \<Rightarrow> (wallet \<times> wallet) tx" where
  "lock_parties rt payerOrg payeeOrg cur =
     bindM (requireWallet payerOrg cur) (\<lambda>payerWallet.
     bindM (resolveCounterpartyWallet rt payeeOrg cur) (\<lambda>payeeWallet.
     bindM (lock [w_id payerWallet, w_id payeeWallet]) (\<lambda>locked.
     case (find (\<lambda>w. w_id w = w_id payerWallet) locked, find (\<lambda>w. w_id w = w_id payeeWallet) locked) of
       (Some payer, Some payee) \<Rightarrow> returnM (payer, payee)
     | _ \<Rightarrow> throwM (RastaError INTERNAL_ERROR ''A wallet vanished while locking it''))))"

text \<open>The funds: the active hold at the whole amount, or without one an active wallet that covers it.\<close>

definition ready_funds :: "locked_transaction \<Rightarrow> wallet \<Rightarrow> wallet_hold option tx" where
  "ready_funds lt payer =
     (let t = lt_row lt in
      bindM (findActiveHold (w_id payer) (t_organizationId t) (t_id t) TRANSACTION) (\<lambda>hold.
      thenM (liftM (assertSettlementReady
          \<lparr>settlementAuthorised = lt_settlementAuthorised lt, fundsHeld = lt_fundsHeld lt \<or> hold \<noteq> None,
           settlementBarred = lt_settlementBarred lt\<rparr> (t_sourceType t)))
     (thenM (case hold of
          None \<Rightarrow>
            thenM (assertM (w_status payer = W_ACTIVE)
              (RastaError BUSINESS_RULE_VIOLATION ''The paying wallet is not active''))
           (liftM (assertSufficient (balancesFrom (w_availableBalanceMinor payer) (w_pendingBalanceMinor payer))
              (t_grossAmountMinor t)))
        | Some h \<Rightarrow>
            assertM (h_amountMinor h = t_grossAmountMinor t)
              (RastaError BUSINESS_RULE_VIOLATION ''The held amount does not match the transaction amount''))
     (returnM hold))))"

definition prepare_settlement :: "'a runtime_scheme \<Rightarrow> string \<Rightarrow> prepared_settlement tx" where
  "prepare_settlement rt transactionId =
     bindM (lockForUpdate transactionId) (\<lambda>found.
     case found of
       None \<Rightarrow> throwM (RastaError NOT_FOUND ''Transaction'')
     | Some lt \<Rightarrow>
         let t = lt_row lt in
         bindM (liftM (nextStatus (t_status t) SETTLE No_Facts)) (\<lambda>target.
         bindM (settlementBooks rt (t_organizationId t)) (\<lambda>(authority, books).
         thenM (assertM (truthy (t_counterpartyOrganizationId t))
                 (RastaError BUSINESS_RULE_VIOLATION ''This transaction has no counterparty to settle to''))
        (let payeeOrg = the (t_counterpartyOrganizationId t) in
         bindM (lock_parties rt (t_organizationId t) payeeOrg (t_currency t)) (\<lambda>(payer, payee).
         bindM (ready_funds lt payer) (\<lambda>hold.
         returnM \<lparr>ps_transaction = t, ps_target = target, ps_authority = authority, ps_books = books,
            ps_payee = payeeOrg, ps_payerWallet = payer, ps_payeeWallet = payee, ps_hold = hold\<rparr>))))))"

text \<open>The journal, the released hold and the two recomputed wallets.\<close>

definition move_settled_funds ::
  "'a runtime_scheme \<Rightarrow> prepared_settlement \<Rightarrow> commission_decision \<Rightarrow> int \<Rightarrow> string \<Rightarrow> int \<Rightarrow> posted_journal tx"
where
  "move_settled_funds rt p decision netAmountMinor settledBy settledAt =
     bindM (postSettlementJournal rt (ps_transaction p) (ps_payee p) (ps_hold p \<noteq> None) (cd_amountMinor decision)
              netAmountMinor settledBy settledAt (ps_books p)) (\<lambda>journal.
     thenM (case ps_hold p of
              None \<Rightarrow> returnM ()
            | Some h \<Rightarrow> markHoldReleased rt h (pj_id journal) (t_id (ps_transaction p)) settledBy)
    (thenM (recomputeFromLedger (ps_payerWallet p))
    (thenM (recomputeFromLedger (ps_payeeWallet p))
    (returnM journal))))"

text \<open>The commission and the settlement rows, the move of the obligation and the event.\<close>

definition record_settled ::
  "'a runtime_scheme \<Rightarrow> prepared_settlement \<Rightarrow> commission_decision \<Rightarrow> int \<Rightarrow> string \<Rightarrow> int \<Rightarrow> string \<Rightarrow> string \<Rightarrow>
     settlement_result tx"
where
  "record_settled rt p decision netAmountMinor settledBy settledAt journalId actingOrganizationId =
     (let t = ps_transaction p in
      thenM (record_commission rt (t_id t) (ps_payee p) (t_businessLine t) decision (t_grossAmountMinor t)
               (t_currency t) journalId settledAt)
     (bindM (prefixed_ulid rt ''STL'') (\<lambda>settlementId.
      thenM (insert_settlement \<lparr>s_id = settlementId, s_organizationId = t_organizationId t, s_transactionId = t_id t,
               s_journalId = journalId, s_payerOrganizationId = t_organizationId t,
               s_payeeOrganizationId = ps_payee p, s_grossAmountMinor = t_grossAmountMinor t,
               s_commissionAmountMinor = cd_amountMinor decision, s_netAmountMinor = netAmountMinor,
               s_currency = t_currency t, s_settledAt = settledAt, s_settledBy = settledBy,
               s_actingOrganizationId = actingOrganizationId\<rparr>)
     (bindM (transition rt (t_id t) (t_status t) (ps_target p)
               (\<lambda>u. u\<lparr>t_commissionAmountMinor := cd_amountMinor decision, t_netAmountMinor := netAmountMinor,
                     t_settledAt := Some settledAt\<rparr>)) (\<lambda>moved.
      thenM (assertM (moved \<noteq> 0) (RastaError OPTIMISTIC_LOCK_FAILED ''Transaction''))
     (thenM (enqueue rt settlementId (t_organizationId t)
               (SettlementCompleted settlementId (t_id t) (t_organizationId t) (t_organizationId t) (ps_payee p)
                  journalId (formatMinor (t_grossAmountMinor t)) (formatMinor (cd_amountMinor decision))
                  (formatMinor netAmountMinor) (t_currency t) settledAt) None)
      (returnM \<lparr>res_settlementId = settlementId, res_transactionId = t_id t, res_journalId = journalId,
          res_grossAmountMinor = t_grossAmountMinor t, res_commissionAmountMinor = cd_amountMinor decision,
          res_netAmountMinor = netAmountMinor, res_currency = t_currency t,
          res_commissionMatched = cd_matched decision, res_commissionOutcome = cd_outcome decision,
          res_payeeOrganizationId = ps_payee p, res_settledAt = settledAt\<rparr>)))))))"

text \<open>Everything from the decided charge on.\<close>

definition apply_settlement ::
  "'a runtime_scheme \<Rightarrow> prepared_settlement \<Rightarrow> commission_decision \<Rightarrow> string \<Rightarrow>
     (settlement_result \<times> financial_authority) tx"
where
  "apply_settlement rt p decision settledBy =
     (let netAmountMinor = t_grossAmountMinor (ps_transaction p) - cd_amountMinor decision in
      thenM (assertM (\<not> netAmountMinor < 0) (RastaError BUSINESS_RULE_VIOLATION ''Commission exceeds the transaction amount''))
     (bindM (reconfirmFinancialAuthority rt (ps_authority p)) (\<lambda>authority.
      bindM (hostDate rt) (\<lambda>settledAt.
      bindM (move_settled_funds rt p decision netAmountMinor settledBy settledAt) (\<lambda>journal.
      bindM (record_settled rt p decision netAmountMinor settledBy settledAt (pj_id journal)
               (fa_actingOrganizationId authority)) (\<lambda>result.
      returnM (result, authority)))))))"

definition settleWithin ::
  "'a runtime_scheme \<Rightarrow> string \<Rightarrow> string \<Rightarrow> (refusal_subject + (settlement_result \<times> financial_authority)) tx"
where
  "settleWithin rt transactionId settledBy =
     bindM (prepare_settlement rt transactionId) (\<lambda>p.
     bindM (charge rt (ps_transaction p) (ps_payee p)) (\<lambda>charged.
     case charged of
       Inl refusal \<Rightarrow> returnM (Inl refusal)
     | Inr decision \<Rightarrow> bindM (apply_settlement rt p decision settledBy) (\<lambda>r. returnM (Inr r))))"

text \<open>The transaction: settled, or rolled back to its savepoint with the refusal on record.\<close>

definition settle_transaction ::
  "'a runtime_scheme \<Rightarrow> string \<Rightarrow> string \<Rightarrow> (refusal_subject + (settlement_result \<times> financial_authority)) tx"
where
  "settle_transaction rt transactionId settledBy = (\<lambda>s.
     case settleWithin rt transactionId settledBy s of
       Inl e \<Rightarrow> Inl e
     | Inr (Inl refusal, s') \<Rightarrow>
         thenM (recordRefusal rt refusal settledBy) (returnM (Inl refusal)) (s\<lparr>ticks := ticks s'\<rparr>)
     | Inr (Inr r, s') \<Rightarrow> Inr (Inr r, s'))"

definition NoActiveRuleRefusal :: failure where
  "NoActiveRuleRefusal = RastaError NO_ACTIVE_RULE ''NO_ACTIVE_RULE_MESSAGE''"

definition settle :: "'a runtime_scheme \<Rightarrow> string \<Rightarrow> string \<Rightarrow> (db, settlement_result) request" where
  "settle rt transactionId settledBy =
     bindR (atomically (transaction (settle_transaction rt transactionId settledBy))) (\<lambda>outcome.
     case outcome of
       Inl refusal \<Rightarrow> liftR (Inl NoActiveRuleRefusal)
     | Inr (result, authority) \<Rightarrow> liftR (Inr result))"

end
