(* ===== verification/Settlement_Laws.thy ===== *)
theory Settlement_Laws
  imports Transaction_Invariants Settlement
begin

text \<open>
  What a settlement promises: the balances its journal moves, the hold it releases and the wallets it
  recomputes, the charge it may make, the rows it records, and the four together.
\<close>

section \<open>The journal\<close>

lemma keyed_iff: "ledger_ok s \<Longrightarrow> keyed s i k \<Longrightarrow> keyed s i k' \<longleftrightarrow> k' = k"
  by (meson keyed_fun ledger_ok_def)

lemma post_law:
  "\<lbrakk> ledger_ok s; post rt d pb books s = Inr (r, s') \<rbrakk> \<Longrightarrow>
     ledger_ok s' \<and> (\<forall>k. bal_at s' k = bal_at s k + (\<Sum>(i, v)\<leftarrow>draft_legs d. if keyed s i k then v else 0)) \<and>
     (\<Sum>(i, v)\<leftarrow>draft_legs d. v) = 0"
  by (rule led.posting_law)

text \<open>What a settlement moves: the gross leaves the payer, the net reaches the payee, the rest is revenue.\<close>

definition settled_delta ::
  "'a runtime_scheme \<Rightarrow> string \<Rightarrow> string \<Rightarrow> string \<Rightarrow> bool \<Rightarrow> int \<Rightarrow> int \<Rightarrow> string \<times> purpose \<times> string \<Rightarrow> int"
where
  "settled_delta rt payer payee cur escrow gross fee k =
     (if k = (payer, if escrow then ESCROW else WALLET, cur) then - gross else 0) +
     (if k = (payee, WALLET, cur) then gross - fee else 0) +
     (if k = (ECONOMIC_PLATFORM_ORGANIZATION_ID rt, COMMISSION_REVENUE, cur) then fee else 0)"

lemma ownerOf_revenue [simp]: "ownerOf rt COMMISSION_REVENUE org = ECONOMIC_PLATFORM_ORGANIZATION_ID rt"
  by (simp add: ownerOf_def isPlatformPurpose_def TENANT_OWNED_def)

lemma postSettlementJournal_law:
  assumes ok: "ledger_ok s" and fee: "0 \<le> fee" "fee \<le> t_grossAmountMinor t"
    and ps: "postSettlementJournal rt t payee escrow fee (t_grossAmountMinor t - fee) by' at books s = Inr (pj, s')"
  shows "ledger_ok s' \<and> wallet_part s' = wallet_part s \<and>
    (\<forall>k. bal_at s' k = bal_at s k +
       settled_delta rt (t_organizationId t) payee (t_currency t) escrow (t_grossAmountMinor t) fee k)"
proof -
  let ?cur = "t_currency t" and ?payer = "t_organizationId t" and ?g = "t_grossAmountMinor t"
  let ?p = "if escrow then ESCROW else WALLET"
  let ?base = "\<lambda>a1 a2. if ?g - fee > 0 then [leg a1 DEBIT ?g ?cur] @ [leg a2 CREDIT (?g - fee) ?cur] else [leg a1 DEBIT ?g ?cur]"
  from ps obtain a1 s1 a2 s2 es s3 where
    r1: "resolveAccount rt ?p ?payer ?cur by' s = Inr (a1, s1)"
    and r2: "resolveAccount rt WALLET payee ?cur by' s1 = Inr (a2, s2)"
    and r3: "(if fee > 0 then bindM (resolveAccount rt COMMISSION_REVENUE ?payer ?cur by') (\<lambda>revenue.
         returnM (?base a1 a2 @ [leg revenue CREDIT fee ?cur])) else returnM (?base a1 a2)) s2 = Inr (es, s3)"
    and po: "post rt \<lparr>dj_journalType = SETTLEMENT, dj_description = ''Settlement of '' @ t_id t,
          dj_organizationId = ?payer, dj_transactionId = Some (t_id t), dj_entries = es,
          dj_postedAt = Some at, dj_reverses = None\<rparr> by' books s3 = Inr (pj, s')"
    unfolding postSettlementJournal_def Let_def bindM_Inr by blast
  have l1: "ledger_ok s1" "keyed s1 (a_id a1) (?payer, ?p, ?cur)" "\<forall>k. bal_at s1 k = bal_at s k"
    using resolveAccount_law [OF ok r1] by (simp_all split: if_splits)
  have l2: "ledger_ok s2" "keyed s2 (a_id a2) (payee, WALLET, ?cur)" "\<forall>k. bal_at s2 k = bal_at s1 k"
    "\<forall>i k. keyed s1 i k \<longrightarrow> keyed s2 i k"
    using resolveAccount_law [OF l1(1) r2] by simp_all
  have l3: "ledger_ok s3 \<and> (\<forall>k. bal_at s3 k = bal_at s2 k) \<and> (\<forall>i k. keyed s2 i k \<longrightarrow> keyed s3 i k) \<and>
      wallet_part s3 = wallet_part s2 \<and>
      (if fee > 0 then \<exists>a3. es = ?base a1 a2 @ [leg a3 CREDIT fee ?cur] \<and>
         keyed s3 (a_id a3) (ECONOMIC_PLATFORM_ORGANIZATION_ID rt, COMMISSION_REVENUE, ?cur) else es = ?base a1 a2)"
  proof (cases "fee > 0")
    case True
    with r3 obtain a3 where a3: "resolveAccount rt COMMISSION_REVENUE ?payer ?cur by' s2 = Inr (a3, s3)"
      "es = ?base a1 a2 @ [leg a3 CREDIT fee ?cur]" by (auto simp: action_Inr)
    show ?thesis
      using resolveAccount_law [OF l2(1) a3(1)] unchangedD [OF unchanged_resolveAccount [of wallet_part] a3(1)] a3(2) True
      by auto
  qed (use r3 l2(1) in simp)
  note post = post_law [OF conjunct1 [OF l3] po]
  have key: "keyed s3 (a_id a1) k \<longleftrightarrow> k = (?payer, ?p, ?cur)" "keyed s3 (a_id a2) k \<longleftrightarrow> k = (payee, WALLET, ?cur)" for k
    using keyed_iff l1(2) l2(2,4) l3 by blast+
  have wp: "wallet_part s' = wallet_part s"
    using unchangedD [OF unchanged_resolveAccount [of wallet_part] r1] unchangedD [OF unchanged_resolveAccount [of wallet_part] r2]
      l3 unchangedD [OF unchanged_post [of wallet_part] po] by simp
  have sum: "(\<Sum>(i, v)\<leftarrow>map (\<lambda>e. (d_accountId e, - d_signed e)) es. if keyed s3 i k then v else 0) =
      settled_delta rt ?payer payee ?cur escrow ?g fee k" for k
  proof (cases "fee > 0")
    case True
    with l3 obtain a3 where a3: "es = ?base a1 a2 @ [leg a3 CREDIT fee ?cur]"
      "keyed s3 (a_id a3) (ECONOMIC_PLATFORM_ORGANIZATION_ID rt, COMMISSION_REVENUE, ?cur)" by auto
    then have k3: "keyed s3 (a_id a3) k \<longleftrightarrow> k = (ECONOMIC_PLATFORM_ORGANIZATION_ID rt, COMMISSION_REVENUE, ?cur)"
      using keyed_iff l3 by blast
    show ?thesis using fee by (cases "?g - fee > 0") (simp_all add: a3(1) key k3 settled_delta_def)
  next
    case False
    with l3 have "es = ?base a1 a2" by simp
    then show ?thesis using fee False by (cases "?g - fee > 0") (simp_all add: key settled_delta_def)
  qed
  have "bal_at s' k = bal_at s k + settled_delta rt ?payer payee ?cur escrow ?g fee k" for k
  proof -
    from post have "bal_at s' k = bal_at s3 k + (\<Sum>(i, v)\<leftarrow>draft_legs \<lparr>dj_journalType = SETTLEMENT,
          dj_description = ''Settlement of '' @ t_id t, dj_organizationId = ?payer, dj_transactionId = Some (t_id t),
          dj_entries = es, dj_postedAt = Some at, dj_reverses = None\<rparr>. if keyed s3 i k then v else 0)" by blast
    then have "bal_at s' k = bal_at s3 k + settled_delta rt ?payer payee ?cur escrow ?g fee k"
      unfolding draft_legs_def journal_draft.simps sum .
    moreover have "bal_at s3 k = bal_at s k" using l1(3) l2(3) l3 by metis
    ultimately show ?thesis by simp
  qed
  with post wp show ?thesis by blast
qed


section \<open>The released hold and the wallets\<close>

lemma markHoldReleased_Inr:
  assumes "markHoldReleased rt h jid tid by' s = Inr (u, s')"
  shows "\<exists>at. ledger_part s' = ledger_part s \<and> wallets s' = wallets s \<and>
    holds s' = map (\<lambda>g. if h_id g = h_id h \<and> h_status g = H_ACTIVE
         then g\<lparr>h_status := H_RELEASED, h_resolvedJournalId := Some jid, h_resolvedAt := Some at,
                h_resolvedBy := Some by', h_resolutionNote := Some ''Released by settlement''\<rparr> else g) (holds s)"
proof -
  from assms obtain c s1 where
    rh: "resolveHold (h_id h) H_RELEASED jid (new_Date rt (ticks s)) by' (Some ''Released by settlement'')
      (s\<lparr>ticks := Suc (ticks s)\<rparr>) = Inr (c, s1)"
    and en: "enqueue rt (h_id h) (h_organizationId h)
       (FundsReleased (h_id h) (h_walletId h) (h_organizationId h) tid
          (h_reference h) (formatMinor (h_amountMinor h)) (h_currency h) H_RELEASED (new_Date rt (ticks s))) None s1 = Inr (u, s')"
    by (auto simp: markHoldReleased_def action_Inr hostDate_Inr)
  show ?thesis
    using resolveHold_Inr [OF rh] same_dataD [OF enqueue_same_data [OF en]]
    by (intro exI [of _ "new_Date rt (ticks s)"]) (simp add: ledger_part_def)
qed

lemma resynced_two:
  assumes un: "wallets_unique s" and w: "w1 \<in> set (wallets s)" "w2 \<in> set (wallets s)" and ne: "w_id w1 \<noteq> w_id w2"
    and eq: "wallets s' = map (\<lambda>v. if w_id v = w_id w2 then set_balances b2 v else v)
      (map (\<lambda>v. if w_id v = w_id w1 then set_balances b1 v else v) (wallets s))"
    and b1: "b1 = ledger_balances s' (w_organizationId w1) (w_currency w1)" "isConsistent b1" "within_limit b1"
    and b2: "b2 = ledger_balances s' (w_organizationId w2) (w_currency w2)" "isConsistent b2" "within_limit b2"
  shows "resynced s {wallet_key w1, wallet_key w2} s'"
  unfolding resynced_def
proof (intro exI conjI ballI)
  let ?f = "\<lambda>v. if w_id v = w_id w2 then set_balances b2 v else if w_id v = w_id w1 then set_balances b1 v else v"
  show "wallets s' = map ?f (wallets s)" using eq ne by auto
  fix v assume v: "v \<in> set (wallets s)"
  show "w_id (?f v) = w_id v" "wallet_key (?f v) = wallet_key v" by simp_all
  show "if wallet_key v \<in> {wallet_key w1, wallet_key w2} then wallet_synced s' (?f v) else ?f v = v"
    using wallets_by_id [OF un v w(1)] wallets_by_id [OF un v w(2)] ne b1 b2
    by (auto simp: wallet_synced_def wallet_key_def)
qed

lemma move_settled_funds_law:
  assumes ok: "books_ok s" and pr: "ps_payerWallet p \<in> set (wallets s)" "ps_payeeWallet p \<in> set (wallets s)"
    and key: "wallet_key (ps_payerWallet p) = (t_organizationId (ps_transaction p), t_currency (ps_transaction p))"
      "wallet_key (ps_payeeWallet p) = (ps_payee p, t_currency (ps_transaction p))"
    and ne: "ps_payee p \<noteq> t_organizationId (ps_transaction p)"
    and fee: "0 \<le> cd_amountMinor d" "cd_amountMinor d \<le> t_grossAmountMinor (ps_transaction p)"
    and hold: "\<And>h. ps_hold p = Some h \<Longrightarrow> h \<in> set (holds s) \<and> h_status h = H_ACTIVE \<and>
        h_walletId h = w_id (ps_payerWallet p) \<and> h_amountMinor h = t_grossAmountMinor (ps_transaction p)"
    and m: "move_settled_funds rt p d (t_grossAmountMinor (ps_transaction p) - cd_amountMinor d) by' at s = Inr (pj, s')"
  shows "books_ok s' \<and>
    (\<forall>k. bal_at s' k = bal_at s k + settled_delta rt (t_organizationId (ps_transaction p)) (ps_payee p)
       (t_currency (ps_transaction p)) (ps_hold p \<noteq> None) (t_grossAmountMinor (ps_transaction p)) (cd_amountMinor d) k) \<and>
    (case ps_hold p of
       None \<Rightarrow> holds s' = holds s
     | Some h \<Rightarrow> \<forall>g\<in>set (holds s'). (h_id g = h_id h \<longrightarrow> h_status g = H_RELEASED \<and> h_resolvedJournalId g = Some (pj_id pj)) \<and>
         (h_id g \<noteq> h_id h \<longrightarrow> g \<in> set (holds s)))"
proof -
  let ?t = "ps_transaction p" and ?w1 = "ps_payerWallet p" and ?w2 = "ps_payeeWallet p"
  let ?delta = "settled_delta rt (t_organizationId ?t) (ps_payee p) (t_currency ?t) (ps_hold p \<noteq> None)
      (t_grossAmountMinor ?t) (cd_amountMinor d)"
  from m obtain s1 u s2 b1 s3 b2 where
    ps: "postSettlementJournal rt ?t (ps_payee p) (ps_hold p \<noteq> None) (cd_amountMinor d)
           (t_grossAmountMinor ?t - cd_amountMinor d) by' at (ps_books p) s = Inr (pj, s1)"
    and re: "(case ps_hold p of None \<Rightarrow> returnM () | Some h \<Rightarrow> markHoldReleased rt h (pj_id pj) (t_id ?t) by') s1 = Inr (u, s2)"
    and rc1: "recomputeFromLedger ?w1 s2 = Inr (b1, s3)" and rc2: "recomputeFromLedger ?w2 s3 = Inr (b2, s')"
    by (auto simp: move_settled_funds_def action_Inr)
  have led: "ledger_ok s" and un: "wallets_unique s" and ho: "holds_ok s"
    using ok by (simp_all add: books_ok_def wallet_ok_def)
  note j = postSettlementJournal_law [OF led fee ps]
  have w1: "wallets s1 = wallets s" "holds s1 = holds s" using j by (simp_all add: wallet_part_def)
  have r: "ledger_part s2 = ledger_part s1 \<and> wallets s2 = wallets s \<and> holds_ok s2 \<and>
      (\<forall>i. activeHoldTotal s2 i = activeHoldTotal s i +
         (if i = w_id ?w1 \<and> ps_hold p \<noteq> None then - t_grossAmountMinor ?t else 0)) \<and>
      (case ps_hold p of
         None \<Rightarrow> holds s2 = holds s
       | Some h \<Rightarrow> \<forall>g\<in>set (holds s2). (h_id g = h_id h \<longrightarrow> h_status g = H_RELEASED \<and> h_resolvedJournalId g = Some (pj_id pj)) \<and>
         (h_id g \<noteq> h_id h \<longrightarrow> g \<in> set (holds s)))"
  proof (cases "ps_hold p")
    case None
    then show ?thesis using re w1 ho by (auto simp: holds_ok_def activeHoldTotal_def)
  next
    case (Some h)
    note h = hold [OF Some]
    from re Some have "markHoldReleased rt h (pj_id pj) (t_id ?t) by' s1 = Inr (u, s2)" by simp
    from markHoldReleased_Inr [OF this] w1 obtain at' where
      m: "ledger_part s2 = ledger_part s1" "wallets s2 = wallets s"
        "holds s2 = map (\<lambda>g. if h_id g = h_id h \<and> h_status g = H_ACTIVE
         then g\<lparr>h_status := H_RELEASED, h_resolvedJournalId := Some (pj_id pj), h_resolvedAt := Some at',
                h_resolvedBy := Some by', h_resolutionNote := Some ''Released by settlement''\<rparr> else g) (holds s)"
      by auto
    have "\<forall>g\<in>set (holds s). h_id g = h_id h \<longrightarrow> g = h"
      using ho h by (auto simp: holds_ok_def dest: distinct_map_eq)
    then have rows: "\<forall>g\<in>set (holds s2). (h_id g = h_id h \<longrightarrow> h_status g = H_RELEASED \<and> h_resolvedJournalId g = Some (pj_id pj)) \<and>
         (h_id g \<noteq> h_id h \<longrightarrow> g \<in> set (holds s))" using m(3) h by auto
    have "activeHoldTotal s2 i = activeHoldTotal s i - (if i = h_walletId h then h_amountMinor h else 0)" for i
      using h by (intro resolve_total [OF ho _ _ _ m(3)]) auto
    with m(1,2) rows h Some holds_ok_resolved [OF ho m(2,3)] show ?thesis by simp
  qed
  note c1 = recomputeFromLedger_Inr [OF rc1] and c2 = recomputeFromLedger_Inr [OF rc2]
  have lp: "ledger_part s' = ledger_part s1" using r c1 c2 by (simp add: ledger_part_def)
  have hs: "holds s' = holds s2" using c1 c2 by simp
  have ws: "wallets s' = map (\<lambda>v. if w_id v = w_id ?w2 then set_balances b2 v else v)
      (map (\<lambda>v. if w_id v = w_id ?w1 then set_balances b1 v else v) (wallets s))" using r c1 c2 by simp
  have lb: "ledger_balances s2 o' c' = ledger_balances s' o' c'" "ledger_balances s3 o' c' = ledger_balances s' o' c'" for o' c'
    using r c1 c2 lp by (simp_all add: ledger_balances_def purpose_balance_def account_credit_def ledger_part_def)
  have nid: "w_id ?w1 \<noteq> w_id ?w2" using wallets_by_id [OF un pr] key ne by auto
  have re2: "resynced s {wallet_key ?w1, wallet_key ?w2} s'"
  proof (rule resynced_two [OF un pr nid ws])
    show "b1 = ledger_balances s' (w_organizationId ?w1) (w_currency ?w1)" using c1 lb(1) by metis
    show "b2 = ledger_balances s' (w_organizationId ?w2) (w_currency ?w2)" using c2 lb(2) by metis
  qed (use c1 c2 in blast)+
  have led': "ledger_ok s'" using j lp ledger_ok_cong by blast
  have bal: "bal_at s' k = bal_at s k + ?delta k" for k using j lp bal_at_cong by metis
  have ho': "holds_ok s'"
    using holds_ok_recomputed [of s3 s' "w_id ?w2" b2] holds_ok_recomputed [of s2 s3 "w_id ?w1" b1] r c1 c2 by simp
  have tot: "activeHoldTotal s' i = activeHoldTotal s2 i" for i using hs by (simp add: activeHoldTotal_def)
  have "books_ok s'"
  proof (rule books_ok_resynced [OF ok led' re2, where d = ?delta])
    show "{wallet_key ?w1, wallet_key ?w2} \<subseteq> wallet_key ` set (wallets s)" using pr by simp
    show "purpose_balance s' org q cur = purpose_balance s org q cur +
        (if (org, cur) \<in> {wallet_key ?w1, wallet_key ?w2} then ?delta (org, q, cur) else 0)"
      if "q \<in> {WALLET, ESCROW}" for org q cur
      unfolding purpose_balance_bal_at bal using that key by (auto simp: settled_delta_def)
    show "activeHoldTotal s' (w_id v) = activeHoldTotal s (w_id v) +
        (if wallet_key v \<in> {wallet_key ?w1, wallet_key ?w2} then ?delta (w_organizationId v, ESCROW, w_currency v) else 0)"
      if v: "v \<in> set (wallets s)" for v
      using r tot wallets_by_id [OF un v pr(1)] key ne by (auto simp: settled_delta_def wallet_key_def)
  qed (rule ho')
  with bal r hs show ?thesis by (simp split: option.splits)
qed


section \<open>The preparation\<close>

lemma findActiveHold_Some:
  assumes "findActiveHold w org ref ty s = Inr (h, s')"
  shows "s' = s \<and> (\<forall>x. h = Some x \<longrightarrow> x \<in> set (holds s) \<and> h_status x = H_ACTIVE \<and> h_walletId x = w \<and>
    h_organizationId x = org \<and> h_reference x = ref \<and> h_referenceType x = ty)"
  using assms by (auto simp: findActiveHold_def dest!: find_SomeD)

lemma settle_edge: "nextStatus st SETTLE No_Facts = Inr target \<Longrightarrow> st = PENDING_SETTLEMENT \<and> target = SETTLED"
  by (cases st) (simp_all add: nextStatus_def)

lemma find_wallet_SomeD: "find_wallet s org cur = Some w \<Longrightarrow> w \<in> set (wallets s) \<and> wallet_key w = (org, cur)"
  by (auto simp: find_wallet_def wallet_key_def dest: find_SomeD)

lemma txn_of_SomeD: "txn_of s i = Some t \<Longrightarrow> t \<in> set (txns s) \<and> t_id t = i"
  by (auto simp: txn_of_def dest: find_SomeD)

lemma locked_rows_find:
  assumes "wallets_unique s" and "find (\<lambda>w. w_id w = w_id v) (locked_rows s ids) = Some u" and "v \<in> set (wallets s)"
  shows "u = v"
proof -
  from find_SomeD [OF assms(2)] have "u \<in> set (wallets s)" "w_id u = w_id v"
    using locked_rows_set [of s ids] by auto
  with assms(1,3) show ?thesis by (auto simp: wallets_unique_def dest: distinct_map_eq)
qed

lemma lock_parties_Inr:
  assumes ok: "books_ok s" and lp: "lock_parties rt payerOrg payeeOrg cur s = Inr ((payer, payee), s')"
  shows "books_ok s' \<and> payer \<in> set (wallets s') \<and> payee \<in> set (wallets s') \<and> wallet_key payer = (payerOrg, cur) \<and>
    wallet_key payee = (payeeOrg, cur) \<and> (\<forall>k. bal_at s' k = bal_at s k) \<and> business_part s' = business_part s"
proof -
  from lp obtain w1 w2 where
    w1: "find_wallet s payerOrg cur = Some w1" and w2: "resolveCounterpartyWallet rt payeeOrg cur s = Inr (w2, s')"
    and f: "find (\<lambda>w. w_id w = w_id w1) (locked_rows s' [w_id w1, w_id w2]) = Some payer"
      "find (\<lambda>w. w_id w = w_id w2) (locked_rows s' [w_id w1, w_id w2]) = Some payee"
    by (auto simp: lock_parties_def requireWallet_def findByOrganizationUnscoped_def action_Inr lock_Inr split: option.splits)
  note r = resolveCounterpartyWallet_Inr [OF ok w2]
  have m: "w1 \<in> set (wallets s')" "wallet_key w1 = (payerOrg, cur)" using find_wallet_SomeD [OF w1] r by auto
  have un: "wallets_unique s'" using r by (simp add: books_ok_def wallet_ok_def)
  have "payer = w1" "payee = w2" using locked_rows_find [OF un f(1) m(1)] locked_rows_find [OF un f(2)] r by auto
  moreover have "business_part s' = business_part s"
    by (rule unchangedD [OF unchanged_business_wallet(2) w2])
  ultimately show ?thesis using r m by simp
qed

lemma ready_funds_Inr:
  assumes "ready_funds lt payer s = Inr (hold, s')"
  shows "s' = s \<and>
    (case hold of
       None \<Rightarrow> w_status payer = W_ACTIVE \<and> 0 < t_grossAmountMinor (lt_row lt) \<and>
         t_grossAmountMinor (lt_row lt) \<le> w_availableBalanceMinor payer
     | Some h \<Rightarrow> h \<in> set (holds s) \<and> h_status h = H_ACTIVE \<and> h_walletId h = w_id payer \<and>
         h_organizationId h = t_organizationId (lt_row lt) \<and> h_reference h = t_id (lt_row lt) \<and>
         h_referenceType h = TRANSACTION \<and> h_amountMinor h = t_grossAmountMinor (lt_row lt)) \<and>
    \<not> lt_settlementBarred lt \<and> (lt_settlementAuthorised lt \<or> \<not> lt_fundsHeld lt \<and> hold = None)"
proof -
  from assms obtain s1 where f: "findActiveHold (w_id payer) (t_organizationId (lt_row lt)) (t_id (lt_row lt)) TRANSACTION s = Inr (hold, s1)"
    and r: "assertSettlementReady
          \<lparr>settlementAuthorised = lt_settlementAuthorised lt, fundsHeld = lt_fundsHeld lt \<or> hold \<noteq> None,
           settlementBarred = lt_settlementBarred lt\<rparr> (t_sourceType (lt_row lt)) = Inr ()"
    and c: "(case hold of
          None \<Rightarrow>
            thenM (assertM (w_status payer = W_ACTIVE)
              (RastaError BUSINESS_RULE_VIOLATION ''The paying wallet is not active''))
           (liftM (assertSufficient (balancesFrom (w_availableBalanceMinor payer) (w_pendingBalanceMinor payer))
              (t_grossAmountMinor (lt_row lt))))
        | Some h \<Rightarrow>
            assertM (h_amountMinor h = t_grossAmountMinor (lt_row lt))
              (RastaError BUSINESS_RULE_VIOLATION ''The held amount does not match the transaction amount'')) s1 = Inr ((), s')"
    unfolding ready_funds_def Let_def bindM_Inr thenM_Inr liftM_Inr returnM_run by auto
  note h = findActiveHold_Some [OF f]
  from r have "\<not> lt_settlementBarred lt \<and> (lt_settlementAuthorised lt \<or> \<not> lt_fundsHeld lt \<and> hold = None)"
    by (auto simp: assertSettlementReady_def isSettlementReady_def split: if_splits)
  moreover have "s' = s \<and> (case hold of
       None \<Rightarrow> w_status payer = W_ACTIVE \<and> 0 < t_grossAmountMinor (lt_row lt) \<and>
         t_grossAmountMinor (lt_row lt) \<le> w_availableBalanceMinor payer
     | Some h \<Rightarrow> h_amountMinor h = t_grossAmountMinor (lt_row lt))"
    using c h by (cases hold) (auto simp: action_Inr assertSufficient_def bindE_Inr balancesFrom_def)
  ultimately show ?thesis using h by (auto split: option.splits)
qed

text \<open>What a prepared settlement is entitled to assume.\<close>

lemma prepare_settlement_Inr:
  assumes ok: "books_ok s" and tx: "txns_ok s" and pr: "prepare_settlement rt i s = Inr (p, s')"
  shows "txn_of s i = Some (ps_transaction p) \<and> t_status (ps_transaction p) = PENDING_SETTLEMENT \<and> ps_target p = SETTLED \<and>
    t_counterpartyOrganizationId (ps_transaction p) = Some (ps_payee p) \<and>
    ps_payee p \<noteq> t_organizationId (ps_transaction p) \<and> 0 < t_grossAmountMinor (ps_transaction p) \<and>
    (\<exists>s1. settlementBooks rt (t_organizationId (ps_transaction p)) s = Inr ((ps_authority p, ps_books p), s1)) \<and>
    \<not> transaction_settlement_barred s i \<and>
    books_ok s' \<and> (\<forall>k. bal_at s' k = bal_at s k) \<and> business_part s' = business_part s \<and>
    ps_payerWallet p \<in> set (wallets s') \<and> ps_payeeWallet p \<in> set (wallets s') \<and>
    wallet_key (ps_payerWallet p) = (t_organizationId (ps_transaction p), t_currency (ps_transaction p)) \<and>
    wallet_key (ps_payeeWallet p) = (ps_payee p, t_currency (ps_transaction p)) \<and>
    (case ps_hold p of
       None \<Rightarrow> w_status (ps_payerWallet p) = W_ACTIVE \<and>
         t_grossAmountMinor (ps_transaction p) \<le> w_availableBalanceMinor (ps_payerWallet p)
     | Some h \<Rightarrow> h \<in> set (holds s') \<and> h_status h = H_ACTIVE \<and> h_walletId h = w_id (ps_payerWallet p) \<and>
         h_reference h = i \<and> h_referenceType h = TRANSACTION \<and> h_amountMinor h = t_grossAmountMinor (ps_transaction p) \<and>
         transaction_settlement_authorised s i (t_settlementAuthorisedAt (ps_transaction p) \<noteq> None))"
proof -
  from pr obtain t where t: "txn_of s i = Some t"
    by (auto simp: prepare_settlement_def Let_def action_Inr lockForUpdate_def)
  let ?lt = "\<lparr>lt_row = t,
        lt_settlementAuthorised = transaction_settlement_authorised s (t_id t) (t_settlementAuthorisedAt t \<noteq> None),
        lt_settlementBarred = transaction_settlement_barred s (t_id t),
        lt_fundsHeld = (\<exists>h\<in>set (transaction_holds s (t_id t) (t_organizationId t)). h_status h = H_ACTIVE)\<rparr>"
  from pr t obtain target au bo s1 payer payee s2 hold where
    n: "nextStatus (t_status t) SETTLE No_Facts = Inr target"
    and sb: "settlementBooks rt (t_organizationId t) s = Inr ((au, bo), s1)"
    and tr: "truthy (t_counterpartyOrganizationId t)"
    and lp: "lock_parties rt (t_organizationId t) (the (t_counterpartyOrganizationId t)) (t_currency t) s1 = Inr ((payer, payee), s2)"
    and rf: "ready_funds ?lt payer s2 = Inr (hold, s')"
    and p: "p = \<lparr>ps_transaction = t, ps_target = target, ps_authority = au, ps_books = bo,
            ps_payee = the (t_counterpartyOrganizationId t), ps_payerWallet = payer, ps_payeeWallet = payee, ps_hold = hold\<rparr>"
    by (auto simp: prepare_settlement_def Let_def action_Inr lockForUpdate_def split: prod.splits)
  have k: "keeps books_ok (settlementBooks rt (t_organizationId t))" by (intro keeps_rules) simp
  have ok1: "books_ok s1" by (rule keepsD [OF k ok sb])
  have u: "ledger_part s1 = ledger_part s" "business_part s1 = business_part s"
    by (rule unchangedD [OF unchanged_access(3) sb]; simp)+
  note L = lock_parties_Inr [OF ok1 lp] and R = ready_funds_Inr [OF rf] and T = txn_of_SomeD [OF t]
  have row: "transaction_row_ok t" using tx T by (simp add: txns_ok_def list_all_iff)
  have b: "bal_at s2 k = bal_at s k" for k using L bal_at_cong [OF u(1)] by metis
  show ?thesis
    using L R T row tr settle_edge [OF n] t sb p b u(2)
    by (auto simp: truthy_def transaction_row_ok_def split: option.splits)
qed


section \<open>The charge\<close>

lemma chargeFor_bounds:
  assumes ok: "rules_ok s" and g: "0 \<le> pi_grossAmountMinor pi" and c: "chargeFor pi oc ri s = Inr (d, s')"
  shows "s' = s \<and> 0 \<le> cd_amountMinor d \<and> cd_amountMinor d \<le> pi_grossAmountMinor pi \<and>
    (\<not> cd_matched d \<longrightarrow> cd_amountMinor d = 0)"
proof (cases oc)
  case None
  with c have "decide pi s = Inr (d, s')" by (simp add: chargeFor_def)
  from decide_Inr [OF this] obtain subject where s: "s' = s"
    and d: "computeCommission (rules s) subject (pi_occurredAt pi) (pi_grossAmountMinor pi) (pi_currency pi) = Inr d" by blast
  have "\<forall>r\<in>set (rules s). rule_row_ok r" using ok by (simp add: rules_ok_def)
  from computeCommission_Inr [OF d this g] s show ?thesis by (auto simp: NO_ACTIVE_RULE_DECISION_def)
next
  case (Some o')
  show ?thesis
  proof (cases o')
    case OUTCOME_NO_ACTIVE_RULE
    with Some c g show ?thesis by (auto simp: chargeFor_def NO_ACTIVE_RULE_DECISION_def)
  next
    case RULE_APPLIED
    with Some c obtain r where r: "find (\<lambda>r. r_id r = the ri) (rules s) = Some r"
      and p: "priceWithRule r (pi_grossAmountMinor pi) (pi_currency pi) = Inr d" and s: "s' = s"
      by (auto simp: chargeFor_def action_Inr split: option.splits if_splits)
    have "rule_row_ok r" using find_SomeD [OF r] ok by (auto simp: rules_ok_def)
    from priceWithRule_Inr [OF p this] s show ?thesis by simp
  qed
qed

text \<open>
  What is charged is never below zero nor above the gross; where a rule is required, a charge without
  a rule is refused, and only after the rule in force now has been looked for as well.
\<close>

lemma charge_Inr:
  assumes ok: "rules_ok s" and g: "0 \<le> t_grossAmountMinor t" and c: "charge rt t payee s = Inr (r, s')"
  shows "(\<exists>n. s' = s\<lparr>ticks := n\<rparr>) \<and>
    (case r of
       Inr d \<Rightarrow> 0 \<le> cd_amountMinor d \<and> cd_amountMinor d \<le> t_grossAmountMinor t \<and>
         (requiresRule rt (t_businessLine t) \<longrightarrow> cd_matched d) \<and> (\<not> cd_matched d \<longrightarrow> cd_amountMinor d = 0)
     | Inl refusal \<Rightarrow> requiresRule rt (t_businessLine t) \<and> rs_transactionId refusal = t_id t \<and>
         rs_organizationId refusal = t_organizationId t \<and>
         (\<exists>line. t_businessLine t = Some line \<and>
            (\<forall>r\<in>set (rules s). \<not> applicable \<lparr>su_organizationId = payee, su_businessLine = Some line,
               su_transactionType = t_transactionType t\<rparr> (clock_timestamp rt (ticks s)) r)))"
proof -
  let ?pi = "\<lparr>pi_organizationId = payee, pi_transactionType = t_transactionType t,
              pi_businessLine = t_businessLine t, pi_occurredAt = t_occurredAt t,
              pi_grossAmountMinor = t_grossAmountMinor t, pi_currency = t_currency t\<rparr>"
  from c obtain d0 s0 where d0: "chargeFor ?pi (t_pricingOutcome t) (t_pricingRuleId t) s = Inr (d0, s0)"
    and r: "(if cd_matched d0 \<or> \<not> requiresRule rt (t_businessLine t) then returnM (Inr d0)
     else case t_businessLine t of
       None \<Rightarrow> returnM (Inr d0)
     | Some line \<Rightarrow>
         bindM (decideAtSettlement rt payee (t_transactionType t) line (t_grossAmountMinor t) (t_currency t)) (\<lambda>now.
         if cd_matched now then returnM (Inr now)
         else returnM (Inl \<lparr>rs_transactionId = t_id t, rs_organizationId = t_organizationId t,
                rs_payeeOrganizationId = payee, rs_transactionType = t_transactionType t,
                rs_businessLine = line\<rparr>))) s0 = Inr (r, s')"
    by (auto simp: charge_def action_Inr)
  have b: "s0 = s" "0 \<le> cd_amountMinor d0" "cd_amountMinor d0 \<le> t_grossAmountMinor t" "\<not> cd_matched d0 \<longrightarrow> cd_amountMinor d0 = 0"
    using chargeFor_bounds [OF ok _ d0] g by simp_all
  have tk: "\<exists>n. s = s\<lparr>ticks := n\<rparr>" by (rule exI [of _ "ticks s"]) simp
  show ?thesis
  proof (cases "cd_matched d0 \<or> \<not> requiresRule rt (t_businessLine t)")
    case True
    with r b have "r = Inr d0" "s' = s" by simp_all
    with b tk True show ?thesis by (simp, blast)
  next
    case False
    then obtain line where l: "t_businessLine t = Some line" by (auto simp: requiresRule_def split: option.splits)
    let ?su = "\<lparr>su_organizationId = payee, su_businessLine = Some line, su_transactionType = t_transactionType t\<rparr>"
    from r False l b(1) obtain now s2 where
      now: "decideAtSettlement rt payee (t_transactionType t) line (t_grossAmountMinor t) (t_currency t) s = Inr (now, s2)"
      and r': "(if cd_matched now then returnM (Inr now)
         else returnM (Inl \<lparr>rs_transactionId = t_id t, rs_organizationId = t_organizationId t,
                rs_payeeOrganizationId = payee, rs_transactionType = t_transactionType t,
                rs_businessLine = line\<rparr>)) s2 = Inr (r, s')"
      by (auto simp: action_Inr)
    let ?s1 = "s\<lparr>ticks := Suc (ticks s)\<rparr>"
    from now obtain rs where cr: "candidateRules ?su ?s1 = Inr (rs, s2)"
      and cc: "computeCommission rs ?su (clock_timestamp rt (ticks s)) (t_grossAmountMinor t) (t_currency t) = Inr now"
      by (auto simp: decideAtSettlement_def Let_def action_Inr databaseNow_Inr)
    note C = candidateRules_Inr [OF cr]
    have rows: "\<forall>r\<in>set rs. rule_row_ok r" using C ok by (auto simp: rules_ok_def)
    note N = computeCommission_Inr [OF cc rows g]
    have app: "(\<exists>r\<in>set rs. applicable ?su at r) \<longleftrightarrow> (\<exists>r\<in>set (rules s). applicable ?su at r)" for at
    proof -
      have "set (filter (applicable ?su at) rs) = set (filter (applicable ?su at) (rules s))"
        using C by simp
      then show ?thesis by (auto simp: set_eq_iff)
    qed
    have "s2 = s\<lparr>ticks := Suc (ticks s)\<rparr>" using C by simp
    with r' N app False l show ?thesis
      by (auto simp: NO_ACTIVE_RULE_DECISION_def split: if_splits)
  qed
qed


section \<open>The record\<close>

lemma insert_settlement_Inr:
  "insert_settlement x s = Inr (u, s') \<Longrightarrow>
     s' = s\<lparr>settlements := settlements s @ [x]\<rparr> \<and> (\<forall>y\<in>set (settlements s). s_transactionId y \<noteq> s_transactionId x)"
  by (auto simp: insert_settlement_def action_Inr)

lemma insert_commission_Inr:
  "insert_commission c s = Inr (u, s') \<Longrightarrow>
     s' = s\<lparr>commissions := commissions s @ [c]\<rparr> \<and> (\<forall>d\<in>set (commissions s). c_transactionId d \<noteq> c_transactionId c)"
  by (auto simp: insert_commission_def action_Inr)

lemma record_commission_Inr:
  assumes "record_commission rt tid org line d g cur jid at s = Inr (i, s')"
  shows "\<exists>c. commissions s' = commissions s @ [c] \<and> c_transactionId c = tid \<and> c_amountMinor c = cd_amountMinor d \<and>
    c_ruleId c = cd_ruleId d \<and> c_outcome c = cd_outcome d \<and> c_journalId c = jid \<and> c_organizationId c = org \<and>
    c_grossAmountMinor c = g \<and>
    settlements s' = settlements s \<and> (txn_part s', ledger_part s', wallet_part s', rules s', fixed_part s') =
      (txn_part s, ledger_part s, wallet_part s, rules s, fixed_part s)"
proof -
  let ?c = "\<lparr>c_id = ''CMS_'' @ ulid rt (ticks s), c_organizationId = org, c_transactionId = tid,
         c_ruleId = cd_ruleId d, c_businessLine = line, c_outcome = cd_outcome d,
         c_rateBasisPoints = cd_rateBasisPoints d, c_grossAmountMinor = g,
         c_amountMinor = cd_amountMinor d, c_currency = cur, c_journalId = jid, c_appliedAt = at\<rparr>"
  from assms obtain s1 p where ic: "insert_commission ?c (s\<lparr>ticks := Suc (ticks s)\<rparr>) = Inr ((), s1)"
    and en: "enqueue rt (''CMS_'' @ ulid rt (ticks s)) org p None s1 = Inr ((), s')"
    by (auto simp: record_commission_def action_Inr prefixed_ulid_Inr)
  show ?thesis
    using insert_commission_Inr [OF ic] same_dataD [OF enqueue_same_data [OF en]]
    by (intro exI [of _ ?c]) (simp add: part_defs)
qed

lemma record_settled_Inr:
  assumes r: "record_settled rt p d net by' at jid org s = Inr (res, s')"
  shows "\<exists>c x n extra. commissions s' = commissions s @ [c] \<and> c_transactionId c = t_id (ps_transaction p) \<and>
      c_amountMinor c = cd_amountMinor d \<and> c_ruleId c = cd_ruleId d \<and> c_outcome c = cd_outcome d \<and> c_journalId c = jid \<and>
    settlements s' = settlements s @ [x] \<and> s_transactionId x = t_id (ps_transaction p) \<and> s_journalId x = jid \<and>
      s_organizationId x = t_organizationId (ps_transaction p) \<and>
      s_payerOrganizationId x = t_organizationId (ps_transaction p) \<and> s_payeeOrganizationId x = ps_payee p \<and>
      s_grossAmountMinor x = t_grossAmountMinor (ps_transaction p) \<and> s_commissionAmountMinor x = cd_amountMinor d \<and>
      s_netAmountMinor x = net \<and> s_actingOrganizationId x = org \<and>
      (\<forall>y\<in>set (settlements s). s_transactionId y \<noteq> t_id (ps_transaction p)) \<and>
    txns s' = map (moved_row rt n (t_id (ps_transaction p)) (t_status (ps_transaction p)) (ps_target p) extra) (txns s) \<and>
      extra = (\<lambda>u. u\<lparr>t_commissionAmountMinor := cd_amountMinor d, t_netAmountMinor := net, t_settledAt := Some at\<rparr>) \<and>
      (\<exists>t\<in>set (txns s). t_id t = t_id (ps_transaction p) \<and> t_status t = t_status (ps_transaction p)) \<and>
      (\<forall>u\<in>set (txns s). t_id u = t_id (ps_transaction p) \<and> t_status u = t_status (ps_transaction p) \<longrightarrow>
         transaction_row_ok (moved_row rt n (t_id (ps_transaction p)) (t_status (ps_transaction p)) (ps_target p) extra u)) \<and>
    (legs s', ledger_part s', wallet_part s', rules s', fixed_part s') =
      (legs s, ledger_part s, wallet_part s, rules s, fixed_part s) \<and>
    res_transactionId res = t_id (ps_transaction p) \<and> res_journalId res = jid \<and> res_settlementId res = s_id x \<and>
    res_grossAmountMinor res = t_grossAmountMinor (ps_transaction p) \<and> res_commissionAmountMinor res = cd_amountMinor d \<and>
    res_netAmountMinor res = net \<and> res_commissionMatched res = cd_matched d \<and> res_payeeOrganizationId res = ps_payee p"
proof -
  let ?t = "ps_transaction p"
  let ?extra = "\<lambda>u :: obligation. u\<lparr>t_commissionAmountMinor := cd_amountMinor d, t_netAmountMinor := net, t_settledAt := Some at\<rparr>"
  from r obtain i s1 u s2 m s3 pl where
    rc: "record_commission rt (t_id ?t) (ps_payee p) (t_businessLine ?t) d (t_grossAmountMinor ?t) (t_currency ?t) jid at s = Inr (i, s1)"
    and ins: "insert_settlement \<lparr>s_id = ''STL_'' @ ulid rt (ticks s1), s_organizationId = t_organizationId ?t, s_transactionId = t_id ?t,
               s_journalId = jid, s_payerOrganizationId = t_organizationId ?t,
               s_payeeOrganizationId = ps_payee p, s_grossAmountMinor = t_grossAmountMinor ?t,
               s_commissionAmountMinor = cd_amountMinor d, s_netAmountMinor = net,
               s_currency = t_currency ?t, s_settledAt = at, s_settledBy = by',
               s_actingOrganizationId = org\<rparr> (s1\<lparr>ticks := Suc (ticks s1)\<rparr>) = Inr (u, s2)"
    and tr: "transition rt (t_id ?t) (t_status ?t) (ps_target p) ?extra s2 = Inr (m, s3)" "m \<noteq> 0"
    and en: "enqueue rt (''STL_'' @ ulid rt (ticks s1)) (t_organizationId ?t) pl None s3 = Inr ((), s')"
    and res: "res_transactionId res = t_id ?t \<and> res_journalId res = jid \<and> res_settlementId res = ''STL_'' @ ulid rt (ticks s1) \<and>
      res_grossAmountMinor res = t_grossAmountMinor ?t \<and> res_commissionAmountMinor res = cd_amountMinor d \<and>
      res_netAmountMinor res = net \<and> res_commissionMatched res = cd_matched d \<and> res_payeeOrganizationId res = ps_payee p"
    by (auto simp: record_settled_def Let_def action_Inr prefixed_ulid_Inr)
  obtain c where c: "commissions s1 = commissions s @ [c]" "c_transactionId c = t_id ?t" "c_amountMinor c = cd_amountMinor d"
    "c_ruleId c = cd_ruleId d" "c_outcome c = cd_outcome d" "c_journalId c = jid" "settlements s1 = settlements s"
    "(txn_part s1, ledger_part s1, wallet_part s1, rules s1, fixed_part s1) = (txn_part s, ledger_part s, wallet_part s, rules s, fixed_part s)"
    using record_commission_Inr [OF rc] by blast
  note x = insert_settlement_Inr [OF ins] and t = transition_Inr [OF tr(1)] and e = same_dataD [OF enqueue_same_data [OF en]]
  have row: "\<exists>t\<in>set (txns s2). t_id t = t_id ?t \<and> t_status t = t_status ?t"
    using t tr(2) by (auto simp: filter_empty_conv)
  have tx: "txns s2 = txns s" "legs s2 = legs s" using x c(8) by (simp_all add: txn_part_def)
  have parts: "(legs s', ledger_part s', wallet_part s', rules s', fixed_part s') =
      (legs s, ledger_part s, wallet_part s, rules s, fixed_part s)"
    using x t e tx c(8) by (simp add: part_defs)
  show ?thesis
    using c x t e tx parts row res
    by (intro exI [of _ c] exI [of _ "\<lparr>s_id = ''STL_'' @ ulid rt (ticks s1), s_organizationId = t_organizationId ?t, s_transactionId = t_id ?t,
               s_journalId = jid, s_payerOrganizationId = t_organizationId ?t,
               s_payeeOrganizationId = ps_payee p, s_grossAmountMinor = t_grossAmountMinor ?t,
               s_commissionAmountMinor = cd_amountMinor d, s_netAmountMinor = net,
               s_currency = t_currency ?t, s_settledAt = at, s_settledBy = by',
               s_actingOrganizationId = org\<rparr>"] exI [of _ "ticks s2"] exI [of _ ?extra]) simp
qed


section \<open>The settlement as a whole\<close>

lemma unchanged_move_settled: "unchanged business_part (move_settled_funds rt p d net by' at)"
  unfolding move_settled_funds_def postSettlementJournal_def Let_def
  by (intro unchanged_rules; simp)

text \<open>One settlement, as the tables show it before and after.\<close>

definition settled_once :: "'a runtime_scheme \<Rightarrow> db \<Rightarrow> obligation \<Rightarrow> settlement \<Rightarrow> db \<Rightarrow> bool" where
  "settled_once rt s t x s' \<longleftrightarrow>
     settlements s' = settlements s @ [x] \<and> (\<forall>y\<in>set (settlements s). s_transactionId y \<noteq> t_id t) \<and>
     s_transactionId x = t_id t \<and> s_organizationId x = t_organizationId t \<and> s_payerOrganizationId x = t_organizationId t \<and>
     t_counterpartyOrganizationId t = Some (s_payeeOrganizationId x) \<and> s_payeeOrganizationId x \<noteq> t_organizationId t \<and>
     s_grossAmountMinor x = t_grossAmountMinor t \<and>
     0 \<le> s_commissionAmountMinor x \<and> 0 \<le> s_netAmountMinor x \<and>
     s_netAmountMinor x + s_commissionAmountMinor x = t_grossAmountMinor t \<and>
     (\<exists>c. commissions s' = commissions s @ [c] \<and> c_transactionId c = t_id t \<and>
        c_amountMinor c = s_commissionAmountMinor x \<and> c_journalId c = s_journalId x) \<and>
     (\<exists>escrow. \<forall>k. bal_at s' k = bal_at s k + settled_delta rt (t_organizationId t) (s_payeeOrganizationId x)
        (t_currency t) escrow (t_grossAmountMinor t) (s_commissionAmountMinor x) k)"

lemma moved_row_other: "t_id u \<noteq> i \<or> t_status u \<noteq> a \<Longrightarrow> moved_row rt n i a b extra u = u"
  by (auto simp: moved_row_def)

lemma settleWithin_settled:
  assumes ok: "books_ok s" and tx: "txns_ok s" and ru: "rules_ok s"
    and se: "settleWithin rt i by' s = Inr (Inr (res, fa), s')"
  shows "\<exists>t x n extra. txn_of s i = Some t \<and> t_status t = PENDING_SETTLEMENT \<and> settled_once rt s t x s' \<and>
    s_id x = res_settlementId res \<and> s_journalId x = res_journalId res \<and>
    s_commissionAmountMinor x = res_commissionAmountMinor res \<and>
    (requiresRule rt (t_businessLine t) \<longrightarrow> res_commissionMatched res) \<and>
    \<not> transaction_settlement_barred s i \<and>
    (\<exists>au bo s1. settlementBooks rt (t_organizationId t) s = Inr ((au, bo), s1)) \<and>
    txns s' = map (moved_row rt n i PENDING_SETTLEMENT SETTLED extra) (txns s) \<and> keeps_terms extra \<and>
    (\<forall>u\<in>set (txns s). t_id u = i \<longrightarrow> u = t) \<and>
    books_ok s' \<and> txns_ok s' \<and> rules s' = rules s \<and> fixed_part s' = fixed_part s \<and> legs s' = legs s"
proof -
  from se obtain p s1 ch s2 where
    pr: "prepare_settlement rt i s = Inr (p, s1)" and ch0: "charge rt (ps_transaction p) (ps_payee p) s1 = Inr (ch, s2)"
    and ap0: "(case ch of Inl refusal \<Rightarrow> returnM (Inl refusal)
       | Inr decision \<Rightarrow> bindM (apply_settlement rt p decision by') (\<lambda>r. returnM (Inr r))) s2 = Inr (Inr (res, fa), s')"
    by (auto simp: settleWithin_def action_Inr)
  from ap0 obtain d where d: "ch = Inr d" and ap: "apply_settlement rt p d by' s2 = Inr ((res, fa), s')"
    by (cases ch) (auto simp: action_Inr)
  from ch0 d have ch: "charge rt (ps_transaction p) (ps_payee p) s1 = Inr (Inr d, s2)" by simp
  let ?t = "ps_transaction p" and ?net = "t_grossAmountMinor (ps_transaction p) - cd_amountMinor d"
  note P = prepare_settlement_Inr [OF ok tx pr]
  from ap obtain fa1 s3 j s4 where
    rf: "reconfirmFinancialAuthority rt (ps_authority p) s2 = Inr (fa1, s3)"
    and mo: "move_settled_funds rt p d ?net by' (new_Date rt (ticks s3)) (s3\<lparr>ticks := Suc (ticks s3)\<rparr>) = Inr (j, s4)"
    and rs: "record_settled rt p d ?net by' (new_Date rt (ticks s3)) (pj_id j) (fa_actingOrganizationId fa1) s4 = Inr (res, s')"
    by (auto simp: apply_settlement_def Let_def action_Inr hostDate_Inr)
  have bp: "business_part s1 = business_part s" using P by blast
  then have ru1: "rules_ok s1" using ru rules_ok_cong [of s1 s] by (simp add: business_part_def)
  note C = charge_Inr [OF ru1 _ ch]
  have g: "0 \<le> t_grossAmountMinor ?t" using P by linarith
  have fee: "0 \<le> cd_amountMinor d" "cd_amountMinor d \<le> t_grossAmountMinor ?t"
    "requiresRule rt (t_businessLine ?t) \<longrightarrow> cd_matched d" and s2: "\<exists>n. s2 = s1\<lparr>ticks := n\<rparr>"
    using C [OF g] by simp_all
  let ?s3 = "s3\<lparr>ticks := Suc (ticks s3)\<rparr>"
  have q: "f ?s3 = f s1" if "tickless f" for f :: "db \<Rightarrow> 'p"
    using unchangedD [OF unchanged_access(2) [OF that] rf] s2 that by (auto simp: tickless_def)
  have q3: "ledger_part ?s3 = ledger_part s1" "wallet_part ?s3 = wallet_part s1" "txn_part ?s3 = txn_part s1"
    "rules ?s3 = rules s1" "charge_part ?s3 = charge_part s1" "fixed_part ?s3 = fixed_part s1"
    by (rule q; simp)+
  have ok3: "books_ok ?s3" using P books_ok_cong [OF q3(1,2)] by blast
  have M: "books_ok s4 \<and> (\<forall>k. bal_at s4 k = bal_at ?s3 k + settled_delta rt (t_organizationId ?t) (ps_payee p)
       (t_currency ?t) (ps_hold p \<noteq> None) (t_grossAmountMinor ?t) (cd_amountMinor d) k)"
    using move_settled_funds_law [OF ok3 _ _ _ _ _ fee(1,2) _ mo] P q3(2)
    by (auto simp: wallet_part_def split: option.splits)
  have b4: "bal_at s4 k = bal_at s k + settled_delta rt (t_organizationId ?t) (ps_payee p)
       (t_currency ?t) (ps_hold p \<noteq> None) (t_grossAmountMinor ?t) (cd_amountMinor d) k" for k
    using M P bal_at_cong [OF q3(1)] by metis
  have u4: "business_part s4 = business_part ?s3" by (rule unchangedD [OF unchanged_move_settled mo])
  have "business_part ?s3 = business_part s" using q3 bp by (simp add: business_part_def)
  with u4 have s4: "txns s4 = txns s" "legs s4 = legs s" "rules s4 = rules s" "fixed_part s4 = fixed_part s"
    "settlements s4 = settlements s" "commissions s4 = commissions s"
    by (simp_all add: business_part_def txn_part_def charge_part_def)
  let ?extra = "\<lambda>u :: obligation. u\<lparr>t_commissionAmountMinor := cd_amountMinor d, t_netAmountMinor := ?net,
      t_settledAt := Some (new_Date rt (ticks s3))\<rparr>"
  have id: "t_id ?t = i" "?t \<in> set (txns s)" using P txn_of_SomeD by blast+
  have one: "\<forall>u\<in>set (txns s). t_id u = i \<longrightarrow> u = ?t"
    using tx id by (auto simp: txns_ok_def dest: distinct_map_eq)
  have st: "t_status ?t = PENDING_SETTLEMENT" "ps_target p = SETTLED" using P by blast+
  obtain c x n where c: "commissions s' = commissions s @ [c]" "c_transactionId c = i" "c_amountMinor c = cd_amountMinor d"
      "c_journalId c = pj_id j"
    and x: "settlements s' = settlements s @ [x]" "s_transactionId x = i" "s_journalId x = pj_id j"
      "s_organizationId x = t_organizationId ?t" "s_payerOrganizationId x = t_organizationId ?t"
      "s_payeeOrganizationId x = ps_payee p" "s_grossAmountMinor x = t_grossAmountMinor ?t"
      "s_commissionAmountMinor x = cd_amountMinor d" "s_netAmountMinor x = ?net"
      "\<forall>y\<in>set (settlements s). s_transactionId y \<noteq> i"
    and m: "txns s' = map (moved_row rt n i PENDING_SETTLEMENT SETTLED ?extra) (txns s)"
      "\<forall>u\<in>set (txns s). t_id u = i \<and> t_status u = PENDING_SETTLEMENT \<longrightarrow>
         transaction_row_ok (moved_row rt n i PENDING_SETTLEMENT SETTLED ?extra u)"
    and parts: "legs s' = legs s" "ledger_part s' = ledger_part s4" "wallet_part s' = wallet_part s4" "rules s' = rules s"
      "fixed_part s' = fixed_part s"
    and res: "res_journalId res = pj_id j" "res_settlementId res = s_id x" "res_commissionAmountMinor res = cd_amountMinor d"
      "res_commissionMatched res = cd_matched d"
    using record_settled_Inr [OF rs] unfolding id(1) st s4 by auto
  have "books_ok s'" using M books_ok_cong [OF parts(2,3)] by blast
  moreover have "txns_ok s'" by (rule txns_ok_moved [OF tx _ m(2,1)]) simp
  moreover have "bal_at s' k = bal_at s k + settled_delta rt (t_organizationId ?t) (ps_payee p)
       (t_currency ?t) (ps_hold p \<noteq> None) (t_grossAmountMinor ?t) (cd_amountMinor d) k" for k
    using b4 bal_at_cong [OF parts(2)] by simp
  then have "settled_once rt s ?t x s'"
    using c x P fee(1,2) id(1) by (auto simp: settled_once_def intro!: exI [of _ "ps_hold p \<noteq> None"])
  moreover have "keeps_terms ?extra" by simp
  moreover have "\<exists>au bo s1. settlementBooks rt (t_organizationId ?t) s = Inr ((au, bo), s1)"
    "\<not> transaction_settlement_barred s i" "txn_of s i = Some ?t" using P by blast+
  moreover have "s_id x = res_settlementId res" "s_journalId x = res_journalId res"
    "s_commissionAmountMinor x = res_commissionAmountMinor res" "requiresRule rt (t_businessLine ?t) \<longrightarrow> res_commissionMatched res"
    using x res fee(3) by simp_all
  ultimately show ?thesis using st one m(1) parts by blast
qed

end
