(* ===== verification/Service.thy ===== *)
theory Service
  imports Settlement_Laws
begin

text \<open>
  The service as one state machine: its operations as steps on the store, the invariant they all keep,
  and the states they can reach.
\<close>

section \<open>Settled obligations have their settlement\<close>

definition settled_status :: "transaction_status \<Rightarrow> bool" where
  "settled_status st \<longleftrightarrow> st \<in> {SETTLED, PARTIALLY_REVERSED, REVERSED}"

text \<open>
  A settlement row stands for an obligation of the same payer and amount that is settled, at most one
  row for each; and no obligation is settled without one.
\<close>

definition settled_ok :: "db \<Rightarrow> bool" where
  "settled_ok s \<longleftrightarrow>
     distinct (map s_transactionId (settlements s)) \<and>
     (\<forall>x\<in>set (settlements s). \<exists>t\<in>set (txns s). t_id t = s_transactionId x \<and> t_status t = SETTLED \<and>
        t_organizationId t = s_organizationId x \<and> t_grossAmountMinor t = s_grossAmountMinor x) \<and>
     (\<forall>t\<in>set (txns s). settled_status (t_status t) \<longrightarrow>
        (\<exists>x\<in>set (settlements s). s_transactionId x = t_id t \<and> s_organizationId x = t_organizationId t))"

lemma settled_ok_empty: "settled_ok empty_db"
  by (simp add: settled_ok_def)

lemma settled_ok_cong: "txns s' = txns s \<Longrightarrow> settlements s' = settlements s \<Longrightarrow> settled_ok s' = settled_ok s"
  by (simp add: settled_ok_def)

lemma keeps_settled_business: "unchanged business_part m \<Longrightarrow> keeps settled_ok m"
  by (rule keeps_unchanged [of business_part], assumption)
    (simp add: business_part_def txn_part_def charge_part_def settled_ok_def)

lemma settled_ok_insert:
  assumes "settled_ok s" and "t_status r = CREATED \<or> t_status r = PENDING_SETTLEMENT"
    and "txns s' = txns s @ [r]" and "settlements s' = settlements s"
  shows "settled_ok s'"
  unfolding settled_ok_def assms(3,4)
proof (intro conjI ballI impI)
  show "distinct (map s_transactionId (settlements s))" using assms(1) by (simp add: settled_ok_def)
next
  fix x assume "x \<in> set (settlements s)"
  with assms(1) show "\<exists>t\<in>set (txns s @ [r]). t_id t = s_transactionId x \<and> t_status t = SETTLED \<and>
        t_organizationId t = s_organizationId x \<and> t_grossAmountMinor t = s_grossAmountMinor x"
    unfolding settled_ok_def by fastforce
next
  fix t assume "t \<in> set (txns s @ [r])" "settled_status (t_status t)"
  with assms(2) have "t \<in> set (txns s)" by (auto simp: settled_status_def)
  with \<open>settled_status (t_status t)\<close> assms(1)
  show "\<exists>x\<in>set (settlements s). s_transactionId x = t_id t \<and> s_organizationId x = t_organizationId t"
    unfolding settled_ok_def by blast
qed

text \<open>A move that neither leaves nor enters a settled status.\<close>

lemma settled_ok_moved:
  assumes ok: "settled_ok s" and kt: "keeps_terms extra" and ab: "\<not> settled_status a" "\<not> settled_status b"
    and tx: "txns s' = map (moved_row rt n i a b extra) (txns s)" and st: "settlements s' = settlements s"
  shows "settled_ok s'"
  unfolding settled_ok_def st
proof (intro conjI ballI impI)
  let ?f = "moved_row rt n i a b extra"
  have eq: "t_id (?f t) = t_id t" "t_organizationId (?f t) = t_organizationId t" "t_grossAmountMinor (?f t) = t_grossAmountMinor t"
    for t by (rule terms_ofD [OF moved_row_terms [OF kt]])+
  have stat: "settled_status (t_status (?f t)) \<longleftrightarrow> settled_status (t_status t)"
    "t_status t = SETTLED \<Longrightarrow> t_status (?f t) = SETTLED" for t
    using ab by (auto simp: moved_row_def settled_status_def)
  show "distinct (map s_transactionId (settlements s))" using ok by (simp add: settled_ok_def)
  {
    fix x assume "x \<in> set (settlements s)"
    with ok obtain t where "t \<in> set (txns s)" "t_id t = s_transactionId x" "t_status t = SETTLED"
      "t_organizationId t = s_organizationId x" "t_grossAmountMinor t = s_grossAmountMinor x"
      unfolding settled_ok_def by blast
    then show "\<exists>t\<in>set (txns s'). t_id t = s_transactionId x \<and> t_status t = SETTLED \<and>
        t_organizationId t = s_organizationId x \<and> t_grossAmountMinor t = s_grossAmountMinor x"
      using tx eq stat(2) by (intro bexI [of _ "?f t"]) auto
  next
    fix t assume "t \<in> set (txns s')" "settled_status (t_status t)"
    with tx obtain u where "u \<in> set (txns s)" "t = ?f u" by auto
    with \<open>settled_status (t_status t)\<close> ok stat(1) eq
    show "\<exists>x\<in>set (settlements s). s_transactionId x = t_id t \<and> s_organizationId x = t_organizationId t"
      unfolding settled_ok_def by metis
  }
qed

lemma keeps_settled_rows [keeps_rules]:
  "t_status t = CREATED \<or> t_status t = PENDING_SETTLEMENT \<Longrightarrow> keeps settled_ok (create_transaction rt t ls)"
  "t_status t = CREATED \<or> t_status t = PENDING_SETTLEMENT \<Longrightarrow> keeps settled_ok (createForSource rt t ls)"
proof -
  assume t: "t_status t = CREATED \<or> t_status t = PENDING_SETTLEMENT"
  show "keeps settled_ok (create_transaction rt t ls)"
    by (rule keepsI, drule create_transaction_Inr) (rule settled_ok_insert, assumption, use t in auto)
  show "keeps settled_ok (createForSource rt t ls)"
  proof (rule keepsI)
    fix s w s' assume ok: "settled_ok s" and r: "createForSource rt t ls s = Inr (w, s')"
    note c = createForSource_Inr [OF r]
    show "settled_ok s'"
    proof (cases w)
      case True
      show ?thesis by (rule settled_ok_insert [OF ok]) (use c t True in auto)
    next
      case False
      with c have "txns s' = txns s" "settlements s' = settlements s" by auto
      with ok settled_ok_cong show ?thesis by blast
    qed
  qed
qed

lemma keeps_settled_transition:
  "keeps_terms extra \<Longrightarrow> \<not> settled_status a \<Longrightarrow> \<not> settled_status b \<Longrightarrow> keeps settled_ok (transition rt i a b extra)"
proof (rule keepsI)
  fix s c s'
  assume "keeps_terms extra" "\<not> settled_status a" "\<not> settled_status b" "settled_ok s"
    and r: "transition rt i a b extra s = Inr (c, s')"
  with transition_Inr [OF r] show "settled_ok s'" by (auto intro: settled_ok_moved)
qed

text \<open>No command of a party, and no placed hold, leaves or enters a settled status.\<close>

lemma unsettled_edge:
  assumes "nextStatus a ev fs = Inr b" and "ev \<in> {HOLD_PLACED, AUTHORISE_SETTLEMENT, DISPUTE, RESOLVE_DISPUTE, CANCEL, REFUND}"
  shows "\<not> settled_status a \<and> \<not> settled_status b"
  using assms
  by (cases a; cases ev) (auto simp: nextStatus_def settled_status_def resolvedStatus_def split: facts.splits if_splits)

lemma keeps_lift_bind: "(\<And>x. r = Inr x \<Longrightarrow> keeps I (k x)) \<Longrightarrow> keeps I (bindM (liftM r) k)"
  by (rule keepsI) (auto simp: bindM_Inr liftM_Inr dest: keepsD)

lemma keeps_settled_others [keeps_rules]:
  "keeps settled_ok (resolveCounterpartyWallet rt org cur)" "keeps settled_ok (open_within rt org cur)"
  "keeps settled_ok (credit rt w amount cp jt desc otid by')" "keeps settled_ok (placeHold rt w amount ref rty tid by')"
  "keeps settled_ok (refundHold rt w h rty tid note by')" "keeps settled_ok (enqueue rt aid org' p cid)"
  "keeps settled_ok (announce rt t act fs ts by' at cid)"
  by (rule keeps_settled_business, intro unchanged_rules; simp)+

lemma tickless_settled [simp]: "tickless settled_ok"
  by (simp add: tickless_def settled_ok_def)

lemma move_event_unsettled:
  "move_event cmd \<in> {HOLD_PLACED, AUTHORISE_SETTLEMENT, DISPUTE, RESOLVE_DISPUTE, CANCEL, REFUND}"
  by (cases cmd) simp_all

lemma keeps_settled_move:
  assumes "\<And>at. keeps_terms (extra at)"
  shows "keeps settled_ok (move rt i cmd by' extra hdis)"
  unfolding move_def move_within_def
proof (intro keeps_transaction keeps_bind keeps_reads keeps_option keeps_throw)
  fix x t
  show "keeps settled_ok (thenM (authorizeAct rt (lt_row t) (command_of cmd))
        (bindM (liftM (nextStatus (t_status (lt_row t)) (move_event cmd) (Authority (lock_authority t)))) (\<lambda>target.
         thenM (assertM (hdis = None \<or> t_disputeId (lt_row t) = hdis)
                 (RastaError INVALID_STATE_TRANSITION ''The transaction no longer holds the dispute this decision is about''))
        (bindM (databaseNow rt) (\<lambda>at.
         bindM (transition rt i (t_status (lt_row t)) target (extra at)) (\<lambda>moved.
         thenM (assertM (moved \<noteq> 0) (RastaError OPTIMISTIC_LOCK_FAILED ''Transaction''))
        (thenM (announce rt (lt_row t) (action_of cmd) (Some (t_status (lt_row t))) target by' at None)
               (get_transaction rt i))))))))"
    by (intro keeps_then keeps_lift_bind keeps_rules keeps_settled_transition assms tickless_settled)
      (use unsettled_edge [OF _ move_event_unsettled] in blast)+
qed


lemma keeps_settled_create_hold: "keeps settled_ok (create_hold rt i gross actor pw)"
proof -
  have "keeps settled_ok (bindM (liftM (nextStatus CREATED HOLD_PLACED No_Facts)) (\<lambda>target.
               thenM (transition rt i CREATED target (\<lambda>t. t)) (returnM ())))"
    by (intro keeps_lift_bind keeps_then keeps_return keeps_settled_transition)
      (use unsettled_edge in \<open>simp, blast, blast\<close>)
  note step = this
  show ?thesis unfolding create_hold_def by (intro step keeps_rules)
qed

lemma keeps_settled_create_within: "keeps settled_ok (create_within rt dto org gross pw)"
  unfolding create_within_def Let_def
  by (intro keeps_rules keeps_settled_create_hold) (simp_all add: new_obligation_def)

lemma keeps_settled_recordAuthorised: "keeps settled_ok (recordAuthorisedObligation rt a)"
  unfolding recordAuthorisedObligation_def Let_def
  by (intro keeps_rules) (simp_all add: new_obligation_def)

lemma keeps_settled_refund: "keeps settled_ok (refund rt i reason)"
proof -
  have "keeps settled_ok (apply_refund rt i t fa target locked hold reason)"
    if "nextStatus (t_status (lt_row t)) REFUND No_Facts = Inr target" for t fa target locked hold
    unfolding apply_refund_def refund_hold_def Let_def
    by (intro keeps_rules keeps_settled_transition) (use unsettled_edge [OF that] in simp_all)
  then show ?thesis
    unfolding refund_def refund_within_def
    by (intro keeps_transaction keeps_lift_bind keeps_rules) simp_all
qed

section \<open>Settling keeps everything\<close>

lemma keeps_sum [keeps_rules]:
  "(\<And>a. r = Inl a \<Longrightarrow> keeps I (f a)) \<Longrightarrow> (\<And>b. r = Inr b \<Longrightarrow> keeps I (g b)) \<Longrightarrow>
    keeps I (case r of Inl a \<Rightarrow> f a | Inr b \<Rightarrow> g b)"
  by (cases r) simp_all

lemma keeps_streams_inserts [keeps_rules]:
  "keeps streams_ok (insert_commission c)" "keeps streams_ok (insert_settlement x)"
  "keeps streams_ok (decideAtSettlement rt org ty line g cur)"
  unfolding insert_commission_def insert_settlement_def decideAtSettlement_def candidateRules_def Let_def
  by (rule keeps_streams_unchanged, intro unchanged_rules; simp add: outbox_part_def)+

lemma keeps_streams_settleWithin: "keeps streams_ok (settleWithin rt i by')"
proof -
  have p: "keeps streams_ok (prepare_settlement rt i)"
    unfolding prepare_settlement_def lock_parties_def ready_funds_def requireWallet_def Let_def
    by (intro keeps_rules) simp_all
  have c: "keeps streams_ok (charge rt t payee)" for t payee
    unfolding charge_def by (intro keeps_rules)
  have m: "keeps streams_ok (move_settled_funds rt p d net by' at)" for p d net at
    unfolding move_settled_funds_def postSettlementJournal_def Let_def by (intro keeps_rules)
  have r: "keeps streams_ok (record_settled rt p d net by' at jid org)" for p d net at jid org
    unfolding record_settled_def record_commission_def Let_def by (intro keeps_rules) simp_all
  show ?thesis
    unfolding settleWithin_def apply_settlement_def Let_def
    by (intro keeps_rules p c m r) simp_all
qed

definition service_ok :: "db \<Rightarrow> bool" where
  "service_ok s \<longleftrightarrow> books_ok s \<and> streams_ok s \<and> rules_ok s \<and> txns_ok s \<and> settled_ok s"

lemma service_ok_empty: "service_ok empty_db"
  by (simp add: service_ok_def books_ok_empty streams_ok_empty txns_ok_empty settled_ok_empty rules_ok_def)

lemma keeps_service:
  assumes "\<And>I. I \<in> {txns_ok, streams_ok, rules_ok, books_ok} \<Longrightarrow> keeps I m" and "keeps settled_ok m"
  shows "keeps service_ok m"
proof (rule keepsI)
  fix s x s' assume ok: "service_ok s" and r: "m s = Inr (x, s')"
  have "keeps txns_ok m" "keeps streams_ok m" "keeps rules_ok m" "keeps books_ok m" using assms(1) by simp_all
  with assms(2) ok r show "service_ok s'" unfolding service_ok_def by (blast dest: keepsD)
qed

lemma settled_ok_settled:
  assumes ok: "settled_ok s" and t: "t \<in> set (txns s)" "t_id t = i" "t_status t = PENDING_SETTLEMENT"
    and one: "\<forall>u\<in>set (txns s). t_id u = i \<longrightarrow> u = t" and kt: "keeps_terms extra"
    and so: "settled_once rt s t x s'"
    and tx: "txns s' = map (moved_row rt n i PENDING_SETTLEMENT SETTLED extra) (txns s)"
  shows "settled_ok s'"
proof -
  let ?f = "moved_row rt n i PENDING_SETTLEMENT SETTLED extra"
  have eq: "t_id (?f u) = t_id u" "t_organizationId (?f u) = t_organizationId u" "t_grossAmountMinor (?f u) = t_grossAmountMinor u"
    for u by (rule terms_ofD [OF moved_row_terms [OF kt]])+
  have same: "?f u = u" if "u \<in> set (txns s)" "u \<noteq> t" for u
    using that one by (auto intro: moved_row_other)
  have new: "t_status (?f t) = SETTLED" using t by (simp add: moved_row_def)
  have st: "settlements s' = settlements s @ [x]" "\<forall>y\<in>set (settlements s). s_transactionId y \<noteq> i"
      "s_transactionId x = i" "s_organizationId x = t_organizationId t" "s_grossAmountMinor x = t_grossAmountMinor t"
    using so t(2) by (auto simp: settled_once_def)
  have d: "distinct (map s_transactionId (settlements s'))"
    using ok st by (auto simp: settled_ok_def)
  moreover have "\<exists>u\<in>set (txns s'). t_id u = s_transactionId y \<and> t_status u = SETTLED \<and>
        t_organizationId u = s_organizationId y \<and> t_grossAmountMinor u = s_grossAmountMinor y"
    if y: "y \<in> set (settlements s')" for y
  proof (cases "y = x")
    case True
    then show ?thesis using t st new eq tx by (intro bexI [of _ "?f t"]) auto
  next
    case False
    with y st have "y \<in> set (settlements s)" by simp
    with ok obtain u where u: "u \<in> set (txns s)" "t_id u = s_transactionId y" "t_status u = SETTLED"
      "t_organizationId u = s_organizationId y" "t_grossAmountMinor u = s_grossAmountMinor y"
      unfolding settled_ok_def by blast
    have "?f u = u" using u t(3) by (intro same) auto
    then have "u \<in> set (txns s')" using u(1) tx by (metis image_eqI set_map)
    with u show ?thesis by blast
  qed
  moreover have "\<exists>y\<in>set (settlements s'). s_transactionId y = t_id u \<and> s_organizationId y = t_organizationId u"
    if u: "u \<in> set (txns s')" "settled_status (t_status u)" for u
  proof -
    from u tx obtain v where v: "v \<in> set (txns s)" "u = ?f v" by auto
    show ?thesis
    proof (cases "v = t")
      case True
      then show ?thesis using v st t eq by auto
    next
      case False
      with v same u(2) have "settled_status (t_status v)" "u = v" by simp_all
      with ok v(1) st(1) show ?thesis unfolding settled_ok_def by auto
    qed
  qed
  ultimately show ?thesis unfolding settled_ok_def by blast
qed

lemma keeps_rules_enqueue [keeps_rules]: "keeps rules_ok (enqueue rt aid org p cid)"
  by (rule keeps_rules_unchanged, intro unchanged_rules; simp)

lemma keeps_service_enqueue: "keeps service_ok (enqueue rt aid org p cid)"
  by (rule keeps_service) (auto intro: keeps_rules)

lemma tickless_service [simp]: "tickless service_ok"
  using tickless_invariants tickless_settled by (simp add: tickless_def service_ok_def)

lemma keeps_service_settle_transaction: "keeps service_ok (settle_transaction rt i by')"
proof (rule keepsI)
  fix s r s' assume ok: "service_ok s" and st: "settle_transaction rt i by' s = Inr (r, s')"
  then consider refusal s1 where "settleWithin rt i by' s = Inr (Inl refusal, s1)"
        "thenM (recordRefusal rt refusal by') (returnM (Inl refusal)) (s\<lparr>ticks := ticks s1\<rparr>) = Inr (r, s')"
    | res fa where "settleWithin rt i by' s = Inr (Inr (res, fa), s')"
    by (auto simp: settle_transaction_def split: sum.splits)
  then show "service_ok s'"
  proof cases
    case 1
    have "keeps service_ok (thenM (recordRefusal rt refusal by') (returnM (Inl refusal :: refusal_subject + settlement_result \<times> financial_authority)))"
      unfolding recordRefusal_def by (intro keeps_rules keeps_service_enqueue) simp
    moreover have "service_ok (s\<lparr>ticks := ticks s1\<rparr>)" using ok tickless_service by (simp add: tickless_def)
    ultimately show ?thesis using 1(2) by (rule keepsD)
  next
    case 2
    have o: "books_ok s" "txns_ok s" "rules_ok s" "streams_ok s" "settled_ok s" using ok by (simp_all add: service_ok_def)
    from settleWithin_settled [OF o(1-3) 2] obtain t x n extra where
      t: "txn_of s i = Some t" "t_status t = PENDING_SETTLEMENT" "settled_once rt s t x s'"
        "txns s' = map (moved_row rt n i PENDING_SETTLEMENT SETTLED extra) (txns s)" "keeps_terms extra"
        "\<forall>u\<in>set (txns s). t_id u = i \<longrightarrow> u = t"
      and k: "books_ok s'" "txns_ok s'" "rules s' = rules s" by blast
    have "settled_ok s'"
      using txn_of_SomeD [OF t(1)] t by (intro settled_ok_settled [OF o(5), of t i extra rt x s' n]) auto
    moreover have "streams_ok s'" by (rule keepsD [OF keeps_streams_settleWithin o(4) 2])
    moreover have "rules_ok s'" using k(3) o(3) rules_ok_cong by blast
    ultimately show ?thesis using k by (simp add: service_ok_def)
  qed
qed


lemma request_keeps_settle: "request_keeps service_ok (settle rt i by')"
  unfolding settle_def
proof (intro request_keeps_bind request_keeps_atomically keeps_transaction keeps_service_settle_transaction)
  fix outcome :: "refusal_subject + settlement_result \<times> financial_authority"
  show "request_keeps service_ok (case outcome of Inl refusal \<Rightarrow> liftR (Inl NoActiveRuleRefusal)
     | Inr (result, authority) \<Rightarrow> liftR (Inr result))"
    by (auto intro: request_keeps_lift split: sum.splits)
qed

section \<open>The other operations\<close>

text \<open>A change of the rules table leaves everything but the rules and the outbox alone.\<close>

lemma unchanged_rule_change:
  assumes "tickless f" and "outboxless f" and "\<And>s rs. f (s\<lparr>rules := rs\<rparr>) = f s"
  shows "unchanged f (createRule rt dto)" "unchanged f (updateRule rt i u)"
  unfolding createRule_def updateRule_def recordRuleChange_def Let_def
  by (intro unchanged_rules assms; simp)+

lemma keeps_streams_rules [keeps_rules]:
  "keeps streams_ok (modifyM (\<lambda>s. s\<lparr>rules := g s\<rparr>))"
  by (rule keeps_streams_unchanged, rule unchanged_modify) (simp add: outbox_part_def)

lemma keeps_service_rule_change: "keeps service_ok (createRule rt dto)" "keeps service_ok (updateRule rt i u)"
proof -
  let ?f = "\<lambda>s. ((ledger_part s, wallet_part s), (txn_part s, charge_part s))"
  have f: "tickless ?f" "outboxless ?f" "\<And>s rs. ?f (s\<lparr>rules := rs\<rparr>) = ?f s" by (simp_all) (simp add: part_defs)
  have k: "keeps I m" if "unchanged ?f m" "\<And>s s'. ?f s' = ?f s \<Longrightarrow> I s \<Longrightarrow> I s'" for I and m :: "commission_rule tx"
    using that by (rule keeps_unchanged)
  have i: "books_ok s \<Longrightarrow> books_ok s'" "txns_ok s \<Longrightarrow> txns_ok s'" "settled_ok s \<Longrightarrow> settled_ok s'" if "?f s' = ?f s" for s s'
    using that books_ok_cong [of s' s] txns_ok_cong [of s' s] settled_ok_cong [of s' s]
    by (simp_all add: txn_part_def charge_part_def)
  note u = unchanged_rule_change [OF f]
  have "keeps streams_ok (createRule rt dto)" "keeps streams_ok (updateRule rt i u)"
    unfolding createRule_def updateRule_def recordRuleChange_def Let_def by (intro keeps_rules; simp)+
  then show "keeps service_ok (createRule rt dto)" "keeps service_ok (updateRule rt i u)"
    using k [OF u(1) i(1)] k [OF u(1) i(2)] k [OF u(1) i(3)] k [OF u(2) i(1)] k [OF u(2) i(2)] k [OF u(2) i(3)]
    by (auto intro!: keeps_service intro: keeps_rules)
qed

lemma keeps_service_getOrOpen: "keeps service_ok (getOrOpen rt cur)"
  by (rule keeps_service) (auto intro!: keeps_getOrOpen intro: keeps_rules)

lemma keeps_service_credit:
  assumes "service_ok s" and "w \<in> set (wallets s)" and "isPlatformPurpose cp"
    and cr: "credit rt w amount cp jt desc tid by' s = Inr ((jid, b), s')"
  shows "service_ok s'"
proof -
  have o: "books_ok s" "txns_ok s" "rules_ok s" "streams_ok s" "settled_ok s" using assms(1) by (simp_all add: service_ok_def)
  have "books_ok s'" using credit_Inr [OF o(1) assms(2,3) cr] by blast
  moreover have "streams_ok s'" by (rule keepsD [OF keeps_streams_wallet(2) o(4) cr])
  moreover have "txns_ok s'" by (rule keepsD [OF keeps_txns_wallet(3) o(2) cr])
  moreover have "settled_ok s'" by (rule keepsD [OF keeps_settled_others(3) o(5) cr])
  moreover have "rules_ok s'"
    using unchangedD [OF unchanged_rules_wallet(3) cr] o(3) rules_ok_cong by blast
  ultimately show ?thesis by (simp add: service_ok_def)
qed

text \<open>An account more, without entries, changes no balance.\<close>

lemma books_ok_account_step:
  assumes ok: "books_ok s" and st: "account_step s s'" and acc: "accounts_ok s'" and wp: "wallet_part s' = wallet_part s"
  shows "books_ok s'"
proof (rule books_ok_resynced [OF ok, where K = "{}" and d = "\<lambda>_. 0"])
  have led: "ledger_ok s" using ok by (simp add: books_ok_def)
  show "ledger_ok s'" by (rule ledger_ok_account_step [OF led st acc])
  have w: "wallets s' = wallets s" "holds s' = holds s" using wp by (simp_all add: wallet_part_def)
  show "resynced s {} s'" unfolding resynced_def w by (rule exI [of _ "\<lambda>v. v"]) simp
  show "holds_ok s'" using ok w by (simp add: books_ok_def wallet_ok_def holds_ok_def)
  show "activeHoldTotal s' (w_id v) = activeHoldTotal s (w_id v) + (if wallet_key v \<in> {} then 0 else 0)" for v
    using w by (simp add: activeHoldTotal_def)
  show "purpose_balance s' org p cur = purpose_balance s org p cur + (if (org, cur) \<in> {} then 0 else 0)" for org p cur
    using account_step_balance [OF led st acc] by simp
qed simp

lemma keeps_service_platform_accounts: "keeps service_ok (ensurePlatformAccounts rt cur)"
  unfolding ensurePlatformAccounts_def
proof (rule keeps_forM, rule keepsI)
  fix p s u s' assume ok: "service_ok s" and r: "ensurePlatformAccount rt cur p s = Inr (u, s')"
  let ?a = "\<lparr>a_id = ''ACC_'' @ ulid rt (ticks s), a_organizationId = ECONOMIC_PLATFORM_ORGANIZATION_ID rt,
      a_accountType = PURPOSE_TYPE p, a_accountCode = accountCodeFor p (ECONOMIC_PLATFORM_ORGANIZATION_ID rt) cur,
      a_purpose = p, a_currency = cur, a_title = Some (platform_title p), a_createdBy = SERVICE_NAME\<rparr>"
  from r obtain a where en: "ensureAccount ?a (s\<lparr>ticks := Suc (ticks s)\<rparr>) = Inr (a, s')"
    by (auto simp: ensurePlatformAccount_def Let_def action_Inr prefixed_ulid_Inr)
  have b: "books_ok s" using ok by (simp add: service_ok_def)
  then have "accounts_ok s" by (simp add: books_ok_def ledger_ok_def)
  with ensureAccount_Inr [OF en] have st: "account_step s s'" "accounts_ok s'" by simp_all
  have q: "f s' = f s" if "accountless f" for f
    using that unchangedD [OF unchanged_ensureAccount en, of f] by (simp add: accountless_def tickless_def)
  have "wallet_part s' = wallet_part s" "txn_part s' = txn_part s" "charge_part s' = charge_part s"
    "outbox_part s' = outbox_part s" "rules s' = rules s" by (rule q; simp)+
  then show "service_ok s'"
    using ok books_ok_account_step [OF b st] streams_ok_cong [of s' s] rules_ok_cong [of s' s]
      txns_ok_cong [of s' s] settled_ok_cong [of s' s]
    by (simp add: service_ok_def txn_part_def charge_part_def outbox_part_def)
qed

lemma keeps_service_commands:
  "keeps service_ok (authoriseSettlement rt i k)" "keeps service_ok (dispute rt i r)"
  "keeps service_ok (resolveDispute rt i r d)" "keeps service_ok (cancel rt i r)"
proof -
  have m: "keeps service_ok (move rt i cmd by' extra hdis)" if "\<And>at. keeps_terms (extra at)" for cmd by' extra hdis
    using that by (intro keeps_service keeps_move keeps_settled_move)
  show "keeps service_ok (authoriseSettlement rt i k)" "keeps service_ok (dispute rt i r)"
    "keeps service_ok (resolveDispute rt i r d)" "keeps service_ok (cancel rt i r)"
    unfolding move_commands Let_def by (intro m; simp)+
qed

lemma keeps_service_refund: "keeps service_ok (refund rt i r)"
  by (intro keeps_service keeps_refund keeps_settled_refund)

lemma keeps_service_recordAuthorised: "keeps service_ok (recordAuthorisedObligation rt a)"
  by (intro keeps_service keeps_recordAuthorisedObligation keeps_settled_recordAuthorised)

lemma request_keeps_service_create: "request_keeps service_ok (create rt dto)"
proof -
  have k: "request_keeps I (create rt dto)" if "I \<in> {txns_ok, streams_ok, rules_ok, books_ok}" for I
    by (rule request_keeps_create [OF that])
  have "request_keeps settled_ok (create rt dto)"
    unfolding create_def
  proof (intro request_keeps_bind request_keeps_lift, clarify)
    fix org gross
    show "request_keeps settled_ok (bindR (if ct_holdFunds dto
        then atomically (bindM (getOrOpen rt (currency_of dto)) (\<lambda>w. returnM (Some w))) else liftR (Inr None)) (\<lambda>payerWallet.
     rethrowR (atomically (transaction (create_within rt dto org gross payerWallet))) (duplicateSourceOr org dto)))"
      by (auto intro!: request_keeps_bind request_keeps_rethrow request_keeps_atomically request_keeps_lift
          keeps_transaction keeps_settled_create_within keeps_bind keeps_getOrOpen keeps_return
          intro: keeps_settled_others)
  qed
  then show ?thesis
    using k [of txns_ok] k [of streams_ok] k [of rules_ok] k [of books_ok]
    unfolding service_ok_def request_keeps_def by blast
qed


section \<open>Reachable states\<close>

text \<open>
  One committed step: an operation of the service, by any caller, at any time. What the payment and
  reward services do to the ledger is a \<open>credit\<close> on a wallet's row from a platform account.
\<close>

inductive service_step :: "db \<Rightarrow> db \<Rightarrow> bool" where
  step_platform: "ensurePlatformAccounts (rt :: runtime) cur s = Inr (u, s') \<Longrightarrow> service_step s s'"
| step_createRule: "createRule (rt :: runtime) dto s = Inr (r, s') \<Longrightarrow> service_step s s'"
| step_updateRule: "updateRule (rt :: runtime) i ch s = Inr (r, s') \<Longrightarrow> service_step s s'"
| step_wallet: "getOrOpen (rt :: runtime) cur s = Inr (w, s') \<Longrightarrow> service_step s s'"
| step_credit: "credit (rt :: runtime) w amount cp jt desc tid by' s = Inr ((jid, b), s') \<Longrightarrow>
    w \<in> set (wallets s) \<Longrightarrow> isPlatformPurpose cp \<Longrightarrow> service_step s s'"
| step_create: "create (rt :: runtime) tdto s = (o', s') \<Longrightarrow> service_step s s'"
| step_record: "transaction (recordAuthorisedObligation (rt :: runtime) a) s = Inr (x, s') \<Longrightarrow> service_step s s'"
| step_authorise: "authoriseSettlement (rt :: runtime) i key s = Inr (y, s') \<Longrightarrow> service_step s s'"
| step_dispute: "dispute (rt :: runtime) i reason s = Inr (y, s') \<Longrightarrow> service_step s s'"
| step_resolve: "resolveDispute (rt :: runtime) i reason d s = Inr (y, s') \<Longrightarrow> service_step s s'"
| step_cancel: "cancel (rt :: runtime) i reason s = Inr (y, s') \<Longrightarrow> service_step s s'"
| step_refund: "refund (rt :: runtime) i reason s = Inr (y, s') \<Longrightarrow> service_step s s'"
| step_settle: "settle (rt :: runtime) i by' s = (z, s') \<Longrightarrow> service_step s s'"

inductive reachable :: "db \<Rightarrow> bool" where
  reach_start: "reachable (empty_db\<lparr>linePricingFrom := cutover\<rparr>)"
| reach_step: "reachable s \<Longrightarrow> service_step s s' \<Longrightarrow> reachable s'"

lemma service_step_keeps: "service_step s s' \<Longrightarrow> service_ok s \<Longrightarrow> service_ok s'"
proof (induction rule: service_step.induct)
  case (step_credit rt w amount cp jt desc tid by' s jid b s')
  then show ?case by (blast intro: keeps_service_credit)
qed (blast intro: keepsD [OF keeps_service_platform_accounts] keepsD [OF keeps_service_rule_change(1)]
    keepsD [OF keeps_service_rule_change(2)] keepsD [OF keeps_service_getOrOpen]
    keepsD [OF keeps_transaction [OF keeps_service_recordAuthorised]]
    keepsD [OF keeps_service_commands(1)] keepsD [OF keeps_service_commands(2)] keepsD [OF keeps_service_commands(3)]
    keepsD [OF keeps_service_commands(4)] keepsD [OF keeps_service_refund]
    request_keepsD [OF request_keeps_service_create] request_keepsD [OF request_keeps_settle])+

lemma reachable_service_ok: "reachable s \<Longrightarrow> service_ok s"
proof (induction rule: reachable.induct)
  case (reach_start cutover)
  have "books_ok (empty_db\<lparr>linePricingFrom := cutover\<rparr>)"
    using books_ok_empty by (rule books_ok_cong [THEN iffD2, rotated 2]) (simp_all add: part_defs)
  then show ?case
    by (simp add: service_ok_def streams_ok_def stream_of_def next_seq_of_def rules_ok_def txns_ok_def
        sources_unique_def settled_ok_def)
qed (rule service_step_keeps)

end
