(* ===== verification/History.thy ===== *)
theory History
  imports Service
begin

text \<open>
  What the service never takes back, whatever is asked of it and by whom: the ledger only grows, and
  an obligation keeps its terms and moves only along the state machine.
\<close>

section \<open>Actions within a relation\<close>

text \<open>An action all of whose runs relate the store before to the store after by a preorder.\<close>

definition within :: "('s \<Rightarrow> 's \<Rightarrow> bool) \<Rightarrow> ('s, 'a) action \<Rightarrow> bool" where
  "within R m \<longleftrightarrow> (\<forall>s x s'. m s = Inr (x, s') \<longrightarrow> R s s')"

named_theorems within_rules \<open>one rule per combinator and operation\<close>

definition request_within :: "('s \<Rightarrow> 's \<Rightarrow> bool) \<Rightarrow> ('s, 'a) request \<Rightarrow> bool" where
  "request_within R q \<longleftrightarrow> (\<forall>s r s'. q s = (r, s') \<longrightarrow> R s s')"

lemma request_withinD: "request_within R q \<Longrightarrow> q s = (r, s') \<Longrightarrow> R s s'"
  by (simp add: request_within_def)

lemma request_within_rethrow: "request_within R q \<Longrightarrow> request_within R (rethrowR q h)"
  unfolding request_within_def rethrowR_def by (auto split: sum.splits prod.splits)

lemma withinI: "(\<And>s x s'. m s = Inr (x, s') \<Longrightarrow> R s s') \<Longrightarrow> within R m"
  by (simp add: within_def)

lemma withinD: "within R m \<Longrightarrow> m s = Inr (x, s') \<Longrightarrow> R s s'"
  by (simp add: within_def)

locale history =
  fixes R :: "'s \<Rightarrow> 's \<Rightarrow> bool"
  assumes refl: "R s s" and trans: "R s s1 \<Longrightarrow> R s1 s2 \<Longrightarrow> R s s2"
begin

lemma within_pure:
  "within R (returnM x)" "within R (throwM e)" "within R (getsM f)" "within R (assertM b e)" "within R (liftM r)"
  by (auto simp: within_def action_Inr refl)

lemma within_bind: "within R m \<Longrightarrow> (\<And>x. within R (k x)) \<Longrightarrow> within R (bindM m k)"
  unfolding within_def bindM_Inr by (blast intro: trans)

lemma within_then: "within R m \<Longrightarrow> within R n \<Longrightarrow> within R (thenM m n)"
  unfolding within_def thenM_Inr by (blast intro: trans)

lemma within_lift_bind: "(\<And>x. r = Inr x \<Longrightarrow> within R (k x)) \<Longrightarrow> within R (bindM (liftM r) k)"
  by (auto simp: within_def bindM_Inr liftM_Inr)

lemma within_forM: "(\<And>x. within R (f x)) \<Longrightarrow> within R (forM xs f)"
  by (induction xs) (simp_all add: within_pure within_then)

lemma within_transaction_body: "within R m \<Longrightarrow> within R (bindM m (\<lambda>x. bindM (getsM p) (\<lambda>ok. thenM (assertM ok e) (returnM x))))"
  by (intro within_bind within_then within_pure)

text \<open>A request moves within the relation when every transaction of it does.\<close>

lemma request_within_atomically: "within R m \<Longrightarrow> request_within R (atomically m)"
  by (auto simp: request_within_def atomically_def within_def refl split: sum.splits)

lemma request_within_lift: "request_within R (liftR r)"
  by (simp add: request_within_def liftR_def refl)

lemma request_within_bind: "request_within R q \<Longrightarrow> (\<And>x. request_within R (k x)) \<Longrightarrow> request_within R (bindR q k)"
  unfolding request_within_def bindR_def by (fastforce intro: trans split: sum.splits prod.splits)

lemma request_within_if: "request_within R p \<Longrightarrow> request_within R q \<Longrightarrow> request_within R (if b then p else q)"
  by simp

end

lemma within_if [within_rules]: "within R m \<Longrightarrow> within R n \<Longrightarrow> within R (if b then m else n)"
  by simp

lemma within_option [within_rules]:
  "within R m \<Longrightarrow> (\<And>y. x = Some y \<Longrightarrow> within R (f y)) \<Longrightarrow> within R (case x of None \<Rightarrow> m | Some y \<Rightarrow> f y)"
  by (cases x) simp_all

lemma within_prod [within_rules]: "(\<And>a b. within R (g a b)) \<Longrightarrow> within R (case x of (a, b) \<Rightarrow> g a b)"
  by (cases x) simp

lemma within_list [within_rules]:
  "within R m \<Longrightarrow> (\<And>y ys. within R (g y ys)) \<Longrightarrow> within R (case xs of [] \<Rightarrow> m | y # ys \<Rightarrow> g y ys)"
  by (cases xs) simp_all

lemma within_sum [within_rules]:
  "(\<And>a. within R (f a)) \<Longrightarrow> (\<And>b. within R (g b)) \<Longrightarrow> within R (case r of Inl a \<Rightarrow> f a | Inr b \<Rightarrow> g b)"
  by (cases r) simp_all

text \<open>
  The same for the store, whose clock may tick: what is a transaction, a request or the opening of a
  wallet made of moves within the relation is itself within it.
\<close>

lemma settle_transaction_Inr:
  assumes "settle_transaction rt i by' s = Inr (r, s')"
  obtains (refused) refusal s1 where "settleWithin rt i by' s = Inr (Inl refusal, s1)"
        "thenM (recordRefusal rt refusal by') (returnM (Inl refusal)) (s\<lparr>ticks := ticks s1\<rparr>) = Inr (r, s')"
    | (settled) res fa where "settleWithin rt i by' s = Inr (Inr (res, fa), s')"
  using assms by (auto simp: settle_transaction_def split: sum.splits)

locale store_history = history R for R :: "db \<Rightarrow> db \<Rightarrow> bool" +
  assumes clock: "R s (s\<lparr>ticks := n\<rparr>)"
begin

lemma within_transaction: "within R m \<Longrightarrow> within R (transaction m)"
  unfolding transaction_def by (rule within_transaction_body)

lemma within_open_wallet:
  assumes "within R (open_within rt org cur)"
  shows "within R (open_wallet rt org cur)"
proof (rule withinI)
  fix s w s' assume r: "open_wallet rt org cur s = Inr (w, s')"
  let ?read = "\<lambda>c. bindM (findByOrganization rt org cur) (\<lambda>raced.
      case raced of Some w \<Rightarrow> returnM w | None \<Rightarrow> throwM (UniqueViolation c))"
  have read: "within R (?read c)" for c
    unfolding findByOrganization_def by (intro within_rules within_bind within_then within_pure)
  from r consider "transaction (open_within rt org cur) s = Inr (w, s')" | c where "?read c s = Inr (w, s')"
    unfolding open_wallet_def by (cases "transaction (open_within rt org cur) s") (auto split: failure.splits)
  then show "R s s'"
  proof cases
    case 1
    then show ?thesis by (rule withinD [OF within_transaction [OF assms]])
  next
    case (2 c)
    then show ?thesis by (rule withinD [OF read])
  qed
qed

lemma within_getOrOpen:
  assumes "\<And>org. within R (open_within rt org cur)"
  shows "within R (getOrOpen rt cur)"
  unfolding getOrOpen_def findByOrganization_def
  by (intro within_rules within_bind within_then within_pure within_open_wallet assms)

lemma request_within_create:
  assumes "\<And>org cur. within R (open_within rt org cur)"
    and "\<And>org gross pw. within R (create_within rt dto org gross pw)"
  shows "request_within R (create rt dto)"
  unfolding create_def
proof (intro request_within_bind request_within_lift, clarify)
  fix org gross
  show "request_within R (bindR (if ct_holdFunds dto
        then atomically (bindM (getOrOpen rt (currency_of dto)) (\<lambda>w. returnM (Some w))) else liftR (Inr None)) (\<lambda>payerWallet.
     rethrowR (atomically (transaction (create_within rt dto org gross payerWallet))) (duplicateSourceOr org dto)))"
    by (intro request_within_bind request_within_lift request_within_if request_within_rethrow
      request_within_atomically within_transaction assms within_bind within_getOrOpen within_pure)
qed

lemma request_within_settle:
  assumes "within R (settleWithin rt i by')"
    and "within R (databaseNow rt)" and "\<And>aid org p cid. within R (enqueue rt aid org p cid)"
  shows "request_within R (settle rt i by')"
proof -
  have "within R (settle_transaction rt i by')"
  proof (rule withinI)
    fix s r s' assume "settle_transaction rt i by' s = Inr (r, s')"
    then show "R s s'"
    proof (cases rule: settle_transaction_Inr)
      case (refused refusal s1)
      have "within R (thenM (recordRefusal rt refusal by')
          (returnM (Inl refusal :: refusal_subject + settlement_result \<times> financial_authority)))"
        unfolding recordRefusal_def by (intro within_bind within_then within_pure assms)
      then have "R (s\<lparr>ticks := ticks s1\<rparr>) s'" using refused(2) by (rule withinD)
      then show ?thesis by (rule trans [OF clock])
    qed (rule withinD [OF assms(1)])
  qed
  then show ?thesis
    unfolding settle_def
    by (intro request_within_bind request_within_atomically within_transaction)
      (auto intro: request_within_lift split: sum.splits)
qed

end

section \<open>The ledger only grows\<close>

definition ledger_grows :: "db \<Rightarrow> db \<Rightarrow> bool" where
  "ledger_grows s s' \<longleftrightarrow>
     (\<exists>as. accounts s' = accounts s @ as) \<and> (\<exists>js. journals s' = journals s @ js) \<and> (\<exists>es. entries s' = entries s @ es)"

interpretation grows: store_history ledger_grows
proof
  fix s s1 s2 :: db and n
  show "ledger_grows s s" by (simp add: ledger_grows_def)
  show "ledger_grows s (s\<lparr>ticks := n\<rparr>)" by (simp add: ledger_grows_def)
  assume "ledger_grows s s1" "ledger_grows s1 s2"
  then show "ledger_grows s s2" by (auto simp: ledger_grows_def)
qed

lemma grows_unchanged: "unchanged ledger_part m \<Longrightarrow> within ledger_grows m"
  unfolding unchanged_def within_def ledger_grows_def ledger_part_def by fastforce

lemma grows_resolveAccount: "within ledger_grows (resolveAccount rt p org cur by')"
proof -
  have i: "within ledger_grows (insert_account a)" for a
    by (rule withinI) (auto simp: insert_account_def ledger_grows_def split: if_splits)
  have "within ledger_grows (prefixed_ulid rt pre)" for pre
    by (rule grows_unchanged, intro unchanged_rules, simp)
  then show ?thesis
    unfolding resolveAccount_def ensureAccount_def Let_def
    by (intro within_rules grows.within_bind grows.within_then grows.within_pure i)
qed

lemma grows_post: "within ledger_grows (post rt d by' books)"
  by (rule withinI, drule post_Inr) (auto simp: post_spec_def ledger_grows_def)


lemma grows_leaves:
  "within ledger_grows (prefixed_ulid rt pre)" "within ledger_grows (hostDate rt)" "within ledger_grows (databaseNow rt)"
  "within ledger_grows (create_wallet rt i org cur acc)" "within ledger_grows (recomputeFromLedger w)"
  "within ledger_grows (createHold h)" "within ledger_grows (resolveHold hid st jid at by' note)"
  "within ledger_grows (lock ids)" "within ledger_grows (enqueue rt aid org' p cid)"
  "within ledger_grows (create_transaction rt t ls)" "within ledger_grows (transition rt i' a b extra)"
  "within ledger_grows (announce rt t' act fs ts by'' at' cid')" "within ledger_grows (authorizeAct rt t'' cmd)"
  "within ledger_grows (reconfirmFinancialAuthority rt fa)" "within ledger_grows (settlementBooks rt payer)"
  "within ledger_grows (legsFor rt i'' org'' cp g c)" "within ledger_grows (pricingOf pi)"
  "within ledger_grows (chargeFor pi oc ri)" "within ledger_grows (lockForUpdate li)" "within ledger_grows (get_transaction rt gi)"
  by (rule grows_unchanged, intro unchanged_rules; simp add: ledger_part_def)+

lemmas grows_rules =
  grows.within_bind grows.within_then grows.within_pure within_rules grows_leaves grows_post grows_resolveAccount

lemma grows_wallet:
  "within ledger_grows (open_within rt org cur)" "within ledger_grows (resolveCounterpartyWallet rt org cur)"
  "within ledger_grows (credit rt w amount cp jt desc otid by')" "within ledger_grows (placeHold rt w amount ref rty tid by')"
  "within ledger_grows (refundHold rt w i rty tid note by')" "within ledger_grows (markHoldReleased rt h jid tid by')"
  unfolding open_within_def resolveCounterpartyWallet_def credit_def placeHold_def refundHold_def markHoldReleased_def
    wallet_reads Let_def
  by (intro grows_rules)+

lemma grows_create_within: "within ledger_grows (create_within rt dto org gross pw)"
  unfolding create_within_def create_hold_def Let_def by (intro grows_rules grows_wallet)

lemma grows_commands:
  "within ledger_grows (move rt i cmd by' extra hdis)" "within ledger_grows (refund rt i reason)"
  "within ledger_grows (recordAuthorisedObligation rt a)"
proof -
  show "within ledger_grows (move rt i cmd by' extra hdis)" "within ledger_grows (recordAuthorisedObligation rt a)"
    by (rule grows_unchanged, intro unchanged_rules; simp)+
  show "within ledger_grows (refund rt i reason)"
    unfolding refund_def refund_within_def apply_refund_def refund_hold_def wallet_reads Let_def
    by (intro grows.within_transaction grows_rules grows_wallet)
qed

lemma grows_move_commands:
  "within ledger_grows (authoriseSettlement rt i k)" "within ledger_grows (dispute rt i r)"
  "within ledger_grows (resolveDispute rt i r d)" "within ledger_grows (cancel rt i r)"
  unfolding move_commands Let_def by (rule grows_commands(1))+

lemma grows_inserts: "within ledger_grows (insert_commission c)" "within ledger_grows (insert_settlement x)"
  unfolding insert_commission_def insert_settlement_def
  by (rule grows_unchanged, intro unchanged_rules; simp add: ledger_part_def)+

lemma grows_settleWithin: "within ledger_grows (settleWithin rt i by')"
proof -
  have p: "within ledger_grows (prepare_settlement rt i)"
    unfolding prepare_settlement_def lock_parties_def ready_funds_def requireWallet_def wallet_reads Let_def
    by (intro grows_rules grows_wallet)
  have c: "within ledger_grows (charge rt t payee)" for t payee
    unfolding charge_def decideAtSettlement_def candidateRules_def Let_def by (intro grows_rules)
  have m: "within ledger_grows (move_settled_funds rt p d net by' at)" for p d net at
    unfolding move_settled_funds_def postSettlementJournal_def Let_def by (intro grows_rules grows_wallet)
  have r: "within ledger_grows (record_settled rt p d net by' at jid org)" for p d net at jid org
    unfolding record_settled_def record_commission_def Let_def by (intro grows_rules grows_inserts)
  show ?thesis
    unfolding settleWithin_def apply_settlement_def Let_def by (intro grows_rules p c m r)
qed

lemma grows_rule_change: "within ledger_grows (createRule rt dto)" "within ledger_grows (updateRule rt i u)"
  by (rule grows_unchanged, rule unchanged_rule_change; simp add: ledger_part_def)+

lemma grows_platform: "within ledger_grows (ensurePlatformAccounts rt cur)"
proof -
  have i: "within ledger_grows (insert_account a)" for a
    by (rule withinI) (auto simp: insert_account_def ledger_grows_def split: if_splits)
  show ?thesis
    unfolding ensurePlatformAccounts_def ensurePlatformAccount_def ensureAccount_def Let_def
    by (intro grows.within_forM grows_rules i)
qed

lemma step_grows: "service_step s s' \<Longrightarrow> ledger_grows s s'"
  by (induction rule: service_step.induct)
    (blast intro: withinD [OF grows_platform] withinD [OF grows_rule_change(1)] withinD [OF grows_rule_change(2)]
      withinD [OF grows.within_getOrOpen [OF grows_wallet(1)]] withinD [OF grows_wallet(3)] request_withinD [OF grows.request_within_create [OF grows_wallet(1) grows_create_within]]
      withinD [OF grows.within_transaction [OF grows_commands(3)]] withinD [OF grows_commands(2)]
      withinD [OF grows_move_commands(1)] withinD [OF grows_move_commands(2)] withinD [OF grows_move_commands(3)]
      withinD [OF grows_move_commands(4)] request_withinD [OF grows.request_within_settle [OF grows_settleWithin grows_leaves(3) grows_leaves(9)]])+

end
