(* ===== verification/Lifecycle.thy ===== *)
theory Lifecycle
  imports History
begin

text \<open>
  The obligations as the state machine sees them: every step of the service moves every obligation
  along accepted edges of \<open>nextStatus\<close>, keeps its terms, and starts new ones where the machine starts.
\<close>

lemma life_append: "life a es b \<Longrightarrow> life b fs c \<Longrightarrow> life a (es @ fs) c"
  by (induction rule: life.induct) (auto intro: life.intros)

text \<open>The same obligation, further along its life.\<close>

definition descends :: "obligation \<Rightarrow> obligation \<Rightarrow> bool" where
  "descends t u \<longleftrightarrow> terms_of u = terms_of t \<and> (\<exists>evs. life (t_status t) evs (t_status u))"

text \<open>A new obligation, however far along: it began CREATED, or authorised when it came as an event.\<close>

definition begun :: "obligation \<Rightarrow> bool" where
  "begun u \<longleftrightarrow> (\<exists>evs. life CREATED evs (t_status u) \<or> life PENDING_SETTLEMENT evs (t_status u))"

definition advances :: "db \<Rightarrow> db \<Rightarrow> bool" where
  "advances s s' \<longleftrightarrow>
     (\<forall>t\<in>set (txns s). \<exists>u\<in>set (txns s'). descends t u) \<and>
     (\<forall>u\<in>set (txns s'). (\<exists>t\<in>set (txns s). descends t u) \<or> begun u)"

lemma descends_refl [simp]: "descends t t"
  by (auto simp: descends_def intro: life.intros)

lemma descends_trans: "descends t u \<Longrightarrow> descends u v \<Longrightarrow> descends t v"
  by (auto simp: descends_def intro: life_append)

lemma begun_descends: "begun t \<Longrightarrow> descends t u \<Longrightarrow> begun u"
  unfolding begun_def descends_def by (blast intro: life_append)

lemma advances_same: "txns s' = txns s \<Longrightarrow> advances s s'"
  unfolding advances_def by (auto intro: descends_refl bexI)

interpretation advances: store_history advances
proof
  fix s s1 s2 :: db and n
  show "advances s s" unfolding advances_def by (blast intro: descends_refl)
  show "advances s (s\<lparr>ticks := n\<rparr>)" by (rule advances_same) simp
  assume a: "advances s s1" "advances s1 s2"
  show "advances s s2"
    unfolding advances_def
  proof (intro conjI ballI)
    fix t assume "t \<in> set (txns s)"
    with a show "\<exists>u\<in>set (txns s2). descends t u" unfolding advances_def by (blast intro: descends_trans)
  next
    fix v assume "v \<in> set (txns s2)"
    with a(2) consider u where "u \<in> set (txns s1)" "descends u v" | "begun v" unfolding advances_def by blast
    then show "(\<exists>t\<in>set (txns s). descends t v) \<or> begun v"
    proof cases
      case 1
      with a(1) show ?thesis unfolding advances_def by (blast intro: descends_trans begun_descends)
    qed simp
  qed
qed

lemma advances_unchanged: "unchanged txn_part m \<Longrightarrow> within advances m"
proof (rule withinI)
  fix s x s' assume "unchanged txn_part m" "m s = Inr (x, s')"
  then have "txn_part s' = txn_part s" by (rule unchangedD)
  then show "advances s s'" by (intro advances_same) (simp add: txn_part_def)
qed

text \<open>The three ways rows are written: a new row, a new row from an event, a move along an edge.\<close>

lemma advances_insert: "t_status r = CREATED \<or> t_status r = PENDING_SETTLEMENT \<Longrightarrow> txns s' = txns s @ [r] \<Longrightarrow> advances s s'"
  unfolding advances_def begun_def by (fastforce intro: life_refl descends_refl)

lemma advances_rows:
  "t_status t = CREATED \<or> t_status t = PENDING_SETTLEMENT \<Longrightarrow> within advances (create_transaction rt t ls)"
  "t_status t = CREATED \<or> t_status t = PENDING_SETTLEMENT \<Longrightarrow> within advances (createForSource rt t ls)"
proof -
  assume t: "t_status t = CREATED \<or> t_status t = PENDING_SETTLEMENT"
  show "within advances (create_transaction rt t ls)"
  proof (rule withinI)
    fix s x s' assume "create_transaction rt t ls s = Inr (x, s')"
    from create_transaction_Inr [OF this] t show "advances s s'"
      by (intro advances_insert [of "stamp_insert rt (ticks s) t"]) auto
  qed
  show "within advances (createForSource rt t ls)"
  proof (rule withinI)
    fix s w s' assume r: "createForSource rt t ls s = Inr (w, s')"
    note c = createForSource_Inr [OF r]
    show "advances s s'"
    proof (cases w)
      case True
      with c t show ?thesis by (intro advances_insert [of "stamp_insert rt (ticks s) t"]) auto
    next
      case False
      with c show ?thesis by (intro advances_same) auto
    qed
  qed
qed

lemma advances_transition:
  assumes edge: "nextStatus a ev fs = Inr b" and kt: "keeps_terms extra"
  shows "within advances (transition rt i a b extra)"
proof (rule withinI)
  fix s c s' assume "transition rt i a b extra s = Inr (c, s')"
  then have tx: "txns s' = map (moved_row rt (ticks s) i a b extra) (txns s)" by (auto dest: transition_Inr)
  have "life a [(ev, fs)] b" using edge by (simp add: life_Cons_iff)
  then have "descends t (moved_row rt (ticks s) i a b extra t)" for t
    unfolding descends_def moved_row_terms [OF kt]
    by (auto simp: moved_row_def intro: life.intros)
  with tx show "advances s s'" by (auto simp: advances_def)
qed

lemma advances_leaves:
  "within advances (prefixed_ulid rt pre)" "within advances (hostDate rt)" "within advances (databaseNow rt)"
  "within advances (lock ids)" "within advances (enqueue rt aid org' p cid)"
  "within advances (announce rt t' act fs ts by'' at cid')" "within advances (authorizeAct rt t'' cmd)"
  "within advances (reconfirmFinancialAuthority rt fa)" "within advances (settlementBooks rt payer)"
  "within advances (legsFor rt i'' org'' payee g c)" "within advances (pricingOf pi)" "within advances (chargeFor pi oc ri)"
  "within advances (lockForUpdate li)" "within advances (get_transaction rt gi)" "within advances (findBySource o1 st sr)"
  "within advances (findActiveHold w1 o2 r2 t2)"
  unfolding findActiveHold_def
  by (rule advances_unchanged, intro unchanged_rules; simp)+

lemma advances_wallet:
  "within advances (open_within rt org cur)" "within advances (resolveCounterpartyWallet rt org cur)"
  "within advances (credit rt w amount cp jt desc otid by')" "within advances (placeHold rt w amount ref rty tid by')"
  "within advances (refundHold rt w i rty tid note by')" "within advances (markHoldReleased rt h jid tid by')"
  by (rule advances_unchanged, rule unchanged_part [of business_part], intro unchanged_rules; simp add: business_part_def)+

lemmas advances_rules =
  advances.within_lift_bind advances.within_bind advances.within_then advances.within_pure within_rules advances_leaves advances_wallet

lemma advances_move:
  assumes "\<And>at. keeps_terms (extra at)"
  shows "within advances (move rt i cmd by' extra hdis)"
  unfolding move_def move_within_def
  by (intro advances.within_transaction advances_rules advances_transition [OF _ assms])

lemma advances_move_commands:
  "within advances (authoriseSettlement rt i k)" "within advances (dispute rt i r)"
  "within advances (resolveDispute rt i r d)" "within advances (cancel rt i r)"
  unfolding move_commands Let_def by (intro advances_move; simp)+

lemma advances_refund: "within advances (refund rt i reason)"
proof -
  have "within advances (apply_refund rt i t fa target locked hold reason)"
    if "nextStatus (t_status (lt_row t)) REFUND No_Facts = Inr target" for t fa target locked hold
    unfolding apply_refund_def refund_hold_def Let_def
    by (intro advances_rules advances_transition [OF that]) simp
  then show ?thesis
    unfolding refund_def refund_within_def findByOrganizationUnscoped_def
    by (intro advances.within_transaction advances_rules)
qed

lemma advances_record: "within advances (recordAuthorisedObligation rt a)"
  unfolding recordAuthorisedObligation_def Let_def
  by (intro advances_rules advances_rows) (simp add: new_obligation_def)

lemma advances_create_hold: "within advances (create_hold rt i gross actor pw)"
  unfolding create_hold_def by (intro advances_rules advances_transition) simp_all

lemma advances_create_within: "within advances (create_within rt dto org gross pw)"
  unfolding create_within_def Let_def
  by (intro advances_rules advances_rows advances_create_hold) (simp add: new_obligation_def)

lemma prepare_settlement_edge:
  assumes "prepare_settlement rt i s = Inr (p, s')"
  shows "nextStatus (t_status (ps_transaction p)) SETTLE No_Facts = Inr (ps_target p)"
  using assms by (auto simp: prepare_settlement_def Let_def action_Inr split: option.splits prod.splits)

lemma advances_settleWithin: "within advances (settleWithin rt i by')"
proof (rule withinI)
  fix s r s' assume r: "settleWithin rt i by' s = Inr (r, s')"
  then obtain p s1 where p: "prepare_settlement rt i s = Inr (p, s1)"
    and rest: "bindM (charge rt (ps_transaction p) (ps_payee p)) (\<lambda>charged.
         case charged of Inl refusal \<Rightarrow> returnM (Inl refusal)
       | Inr decision \<Rightarrow> bindM (apply_settlement rt p decision by') (\<lambda>r. returnM (Inr r))) s1 = Inr (r, s')"
    by (auto simp: settleWithin_def bindM_Inr)
  note edge = prepare_settlement_edge [OF p]
  have "unchanged txn_part (prepare_settlement rt i)"
    unfolding prepare_settlement_def lock_parties_def ready_funds_def requireWallet_def wallet_reads Let_def
    by (rule unchanged_part [of business_part], intro unchanged_rules; simp add: business_part_def)
  then have one: "advances s s1" using p by (rule withinD [OF advances_unchanged])
  have c: "within advances (charge rt t payee)" for t payee
    unfolding charge_def decideAtSettlement_def candidateRules_def Let_def by (intro advances_rules)
  have ap: "within advances (apply_settlement rt p decision by')" for decision
  proof -
    have "within advances (move_settled_funds rt p d net by' at)" for d net at
      by (rule advances_unchanged, rule unchanged_part [of business_part], rule unchanged_move_settled)
        (simp add: business_part_def)
    moreover have "within advances (insert_commission c)" "within advances (insert_settlement x)" for c x
      unfolding insert_commission_def insert_settlement_def
      by (rule advances_unchanged, intro unchanged_rules; simp add: txn_part_def)+
    ultimately show ?thesis
      unfolding apply_settlement_def record_settled_def record_commission_def Let_def
      by (intro advances_rules advances_transition [OF edge] keeps_terms_extra)
  qed
  have "within advances (bindM (charge rt (ps_transaction p) (ps_payee p)) (\<lambda>charged.
         case charged of Inl refusal \<Rightarrow> returnM (Inl refusal)
       | Inr decision \<Rightarrow> bindM (apply_settlement rt p decision by') (\<lambda>r. returnM (Inr r))))"
    by (intro advances_rules c ap)
  then have "advances s1 s'" using rest by (rule withinD)
  with one show "advances s s'" by (rule advances.trans)
qed

lemma advances_rule_change: "within advances (createRule rt dto)" "within advances (updateRule rt i u)"
  by (rule advances_unchanged, rule unchanged_rule_change; simp add: txn_part_def)+

lemma advances_platform: "within advances (ensurePlatformAccounts rt cur)"
  unfolding ensurePlatformAccounts_def ensurePlatformAccount_def Let_def
  by (rule advances_unchanged, intro unchanged_rules; simp add: txn_part_def)

lemma step_advances: "service_step s s' \<Longrightarrow> advances s s'"
  by (induction rule: service_step.induct)
    (blast intro: withinD [OF advances_platform] withinD [OF advances_rule_change(1)] withinD [OF advances_rule_change(2)]
      withinD [OF advances.within_getOrOpen [OF advances_wallet(1)]] withinD [OF advances_wallet(3)]
      request_withinD [OF advances.request_within_create [OF advances_wallet(1) advances_create_within]]
      withinD [OF advances.within_transaction [OF advances_record]] withinD [OF advances_refund]
      withinD [OF advances_move_commands(1)] withinD [OF advances_move_commands(2)]
      withinD [OF advances_move_commands(3)] withinD [OF advances_move_commands(4)]
      request_withinD [OF advances.request_within_settle [OF advances_settleWithin advances_leaves(3) advances_leaves(5)]])+

end
