(* ===== verification/Scenario.thy ===== *)
theory Scenario
  imports Lifecycle "HOL-Library.Code_Target_Int" "HOL-Library.Code_Target_Nat"
begin

text \<open>
  One concrete run of the service, from the empty store: a commission rule, a payer's wallet, a top-up,
  a construction statement's obligation, its settlement. The stores it passes through are reachable, and
  the kernel evaluates the model's own definitions on them; the examples of the properties use it.
\<close>

section \<open>Evaluation\<close>

text \<open>Actions are evaluated once they have their store, not before.\<close>

lemmas run_code [code] = returnM_run throwM_run getsM_run modifyM_run assertM_run liftM_run bindM_run thenM_run
  forM.simps [THEN fun_cong]
  insert_account_def [THEN fun_cong] ensureAccount_def [THEN fun_cong] guard_create_def [THEN fun_cong]
  insert_journal_def [THEN fun_cong] createJournal_def [THEN fun_cong] createEntries_def [THEN fun_cong]
  findReversalOf_def [THEN fun_cong] findJournalForReversal_def [THEN fun_cong] findJournal_def [THEN fun_cong]
  resolveAccount_def [THEN fun_cong] ensurePlatformAccount_def [THEN fun_cong]
  ensurePlatformAccounts_def [THEN fun_cong] post_def [THEN fun_cong] reverse_def [THEN fun_cong]
  transaction_def [THEN fun_cong] allocateStreamSeqSql_def [THEN fun_cong] buildOutboxRow_def [THEN fun_cong]
  insert_outbox_def [THEN fun_cong] enqueue_def [THEN fun_cong] next_tick_def [THEN fun_cong]
  prefixed_ulid_def [THEN fun_cong] hostDate_def [THEN fun_cong] databaseNow_def [THEN fun_cong]
  lock_def [THEN fun_cong] recomputeFromLedger_def [THEN fun_cong] findByOrganization_def [THEN fun_cong]
  findByOrganizationUnscoped_def [THEN fun_cong] create_wallet_def [THEN fun_cong] createHold_def [THEN fun_cong]
  resolveHold_def [THEN fun_cong] findActiveHold_def [THEN fun_cong] findHoldById_def [THEN fun_cong]
  isHoldFunded_def [THEN fun_cong] open_within_def [THEN fun_cong] resolveCounterpartyWallet_def [THEN fun_cong]
  open_wallet_def [THEN fun_cong] getOrOpen_def [THEN fun_cong] credit_def [THEN fun_cong]
  placeHold_def [THEN fun_cong] refundHold_def [THEN fun_cong] markHoldReleased_def [THEN fun_cong]
  ask_hierarchy_def [THEN fun_cong] canActFinanciallyFor_def [THEN fun_cong]
  reconfirmFinancialAuthority_def [THEN fun_cong] settlementBooks_def [THEN fun_cong]
  assertMayRefund_def [THEN fun_cong] candidateRules_def [THEN fun_cong] read_linePricingFrom_def [THEN fun_cong]
  decide_def [THEN fun_cong] decideAtSettlement_def [THEN fun_cong] pricingOf_def [THEN fun_cong]
  chargeFor_def [THEN fun_cong] insert_commission_def [THEN fun_cong] record_commission_def [THEN fun_cong]
  recordRuleChange_def [THEN fun_cong] createRule_def [THEN fun_cong] updateRule_def [THEN fun_cong]
  check_new_transaction_def [THEN fun_cong] insert_legs_def [THEN fun_cong] create_transaction_def [THEN fun_cong]
  createForSource_def [THEN fun_cong] transition_def [THEN fun_cong] findByIdForParty_def [THEN fun_cong]
  heldProven_def [THEN fun_cong] findBySource_def [THEN fun_cong] legsFor_def [THEN fun_cong]
  announce_def [THEN fun_cong] get_transaction_def [THEN fun_cong] create_hold_def [THEN fun_cong]
  create_within_def [THEN fun_cong] create_def [THEN fun_cong] recordAuthorisedObligation_def [THEN fun_cong]
  authorizeAct_def [THEN fun_cong] move_within_def [THEN fun_cong] move_def [THEN fun_cong]
  authoriseSettlement_def [THEN fun_cong] dispute_def [THEN fun_cong] resolveDispute_def [THEN fun_cong]
  cancel_def [THEN fun_cong] refund_hold_def [THEN fun_cong] apply_refund_def [THEN fun_cong]
  refund_within_def [THEN fun_cong] refund_def [THEN fun_cong] assertMayReplay_def [THEN fun_cong]
  findStatementObligation_def [THEN fun_cong] statementObligation_def [THEN fun_cong]
  insert_settlement_def [THEN fun_cong] charge_def [THEN fun_cong] recordRefusal_def [THEN fun_cong]
  postSettlementJournal_def [THEN fun_cong] requireWallet_def [THEN fun_cong] lock_parties_def [THEN fun_cong]
  ready_funds_def [THEN fun_cong] prepare_settlement_def [THEN fun_cong] move_settled_funds_def [THEN fun_cong]
  record_settled_def [THEN fun_cong] apply_settlement_def [THEN fun_cong] settleWithin_def [THEN fun_cong]
  settle_transaction_def [THEN fun_cong] settle_def [THEN fun_cong] atomically_def [THEN fun_cong]
  bindR_def [THEN fun_cong] liftR_def [THEN fun_cong] rethrowR_def [THEN fun_cong]


lemma lockForUpdate_code [code]:
  "lockForUpdate i s =
     (case txn_of s i of
        None \<Rightarrow> Inr (None, s)
      | Some t \<Rightarrow> Inr (Some
          \<lparr>lt_row = t,
           lt_settlementAuthorised = transaction_settlement_authorised s (t_id t) (t_settlementAuthorisedAt t \<noteq> None),
           lt_settlementBarred = transaction_settlement_barred s (t_id t),
           lt_fundsHeld = (\<exists>h\<in>set (transaction_holds s (t_id t) (t_organizationId t)). h_status h = H_ACTIVE)\<rparr>, s))"
  by (simp add: lockForUpdate_def split: option.splits)

section \<open>The run\<close>

definition scenario_ulid :: "nat \<Rightarrow> string" where
  "scenario_ulid n = [''ABCDEFGHIJKLMNOPQRSTUVWXYZabcdefghijklmnopqrstuvwxyz0123456789+-=!,.:;_<>?/{}()|'' ! n]"

definition scenario_hierarchy :: "nat \<Rightarrow> string \<Rightarrow> string \<Rightarrow> failure + int option" where
  "scenario_hierarchy n union_org org = Inr None"

text \<open>A service acting for its tenant, organization A.\<close>

definition scenario_rt :: runtime where
  "scenario_rt = \<lparr>correlationId = ''c'', organizationId = Some ''A'', userId = None, roles = [], authType = SERVICE,
     callerService = Some ''contract-service'', isUnscoped = False, ECONOMIC_PLATFORM_ORGANIZATION_ID = ''P'',
     ECONOMIC_SETTLEMENT_REQUIRE_COMMISSION_RULE = True, ECONOMIC_REFUND_BY_PAYEE_ENABLED = True,
     ulid = scenario_ulid, new_Date = int, clock_timestamp = int, gen_random_uuid = scenario_ulid,
     withinVersion = scenario_hierarchy\<rparr>"

text \<open>The store an operation leaves: the one before, when it is refused.\<close>

definition store_after :: "db \<Rightarrow> failure + 'a \<times> db \<Rightarrow> db" where
  "store_after s r = (case r of Inl e \<Rightarrow> s | Inr (x, s') \<Rightarrow> s')"

definition scenario_rule :: create_rule_dto where
  "scenario_rule = \<lparr>cr_organizationId = None, cr_businessLine = LINE_CONSTRUCTION, cr_transactionType = None,
     cr_rateBasisPoints = 250, cr_minAmountMinor = None, cr_maxAmountMinor = None, cr_validFrom = None,
     cr_validTo = None, cr_label = None\<rparr>"

definition scenario_statement :: authorised_obligation where
  "scenario_statement = \<lparr>ao_organizationId = ''A'', ao_counterpartyOrganizationId = ''B'',
     ao_transactionType = CONSTRUCTION_STATEMENT, ao_businessLine = Some LINE_CONSTRUCTION,
     ao_grossAmountMinor = 1000, ao_currency = ''IRR'', ao_occurredAt = 9, ao_sourceType = ''STATEMENT'',
     ao_sourceReference = ''m'', ao_causationId = ''e''\<rparr>"

definition scenario_start :: db where
  "scenario_start = empty_db\<lparr>linePricingFrom := Some 0\<rparr>"

definition scenario_priced :: db where
  "scenario_priced = store_after scenario_start (createRule scenario_rt scenario_rule scenario_start)"

text \<open>A wallet with five thousand in it.\<close>

definition scenario_topped_up :: "db \<Rightarrow> db" where
  "scenario_topped_up s =
     (let s1 = store_after s (getOrOpen scenario_rt ''IRR'' s) in
      case wallets s1 of
        [] \<Rightarrow> s1
      | w # ws \<Rightarrow> store_after s1 (credit scenario_rt w 5000 PAYMENT_CLEARING WALLET_TOP_UP ''t'' None ''u'' s1))"

definition scenario_owed :: "db \<Rightarrow> db" where
  "scenario_owed s =
     (let s1 = scenario_topped_up s in
      store_after s1 (transaction (recordAuthorisedObligation scenario_rt scenario_statement) s1))"

text \<open>The obligation, owed where a rule prices it and owed where none does.\<close>

definition scenario_due :: db where
  "scenario_due = scenario_owed scenario_priced"

definition scenario_unpriced :: db where
  "scenario_unpriced = scenario_owed scenario_start"

definition obligation_of :: "db \<Rightarrow> string" where
  "obligation_of s = (case txns s of [] \<Rightarrow> [] | t # ts \<Rightarrow> t_id t)"

text \<open>An obligation of another kind, its funds held as it is created.\<close>

definition scenario_order :: create_transaction_dto where
  "scenario_order = \<lparr>ct_transactionType = LOGISTICS, ct_businessLine = Some LINE_LOGISTICS,
     ct_counterpartyOrganizationId = Some ''B'', ct_grossAmountMinor = ''700'', ct_currency = None,
     ct_occurredAt = None, ct_sourceType = None, ct_sourceReference = None, ct_holdFunds = True,
     ct_holdNotAfter = None, ct_idempotencyKey = None\<rparr>"

definition scenario_held :: db where
  "scenario_held = (let s = scenario_topped_up scenario_start in snd (create scenario_rt scenario_order s))"

text \<open>A journal of two legs between the first two accounts.\<close>

definition scenario_draft :: "db \<Rightarrow> journal_draft" where
  "scenario_draft s = \<lparr>dj_journalType = FUNDS_HELD, dj_description = ''d'', dj_organizationId = ''A'',
     dj_transactionId = None,
     dj_entries = [leg (hd (accounts s)) DEBIT 10 ''IRR'', leg (hd (tl (accounts s))) CREDIT 10 ''IRR''],
     dj_postedAt = None, dj_reverses = None\<rparr>"

definition scenario_settled :: db where
  "scenario_settled = snd (settle scenario_rt (obligation_of scenario_due) ''u'' scenario_due)"

section \<open>Its stores are reachable\<close>

lemma reachable_after:
  "reachable s \<Longrightarrow> (\<And>x s'. r = Inr (x, s') \<Longrightarrow> service_step s s') \<Longrightarrow> reachable (store_after s r)"
  by (auto simp: store_after_def split: sum.splits intro: reachable.intros)

lemma reachable_scenario_start: "reachable scenario_start"
  unfolding scenario_start_def by (rule reach_start)

lemma reachable_scenario_priced: "reachable scenario_priced"
  unfolding scenario_priced_def by (rule reachable_after [OF reachable_scenario_start]) (rule step_createRule)

lemma reachable_topped_up: "reachable s \<Longrightarrow> reachable (scenario_topped_up s)"
  unfolding scenario_topped_up_def Let_def
  by (auto intro!: reachable_after intro: step_wallet step_credit [of _ _ _ PAYMENT_CLEARING] simp: isPlatformPurpose_def TENANT_OWNED_def
      split: list.splits)

lemma reachable_owed: "reachable s \<Longrightarrow> reachable (scenario_owed s)"
  unfolding scenario_owed_def Let_def by (rule reachable_after [OF reachable_topped_up]) (auto intro: step_record)

lemma reachable_scenario_due: "reachable scenario_due"
  unfolding scenario_due_def by (rule reachable_owed [OF reachable_scenario_priced])

lemma reachable_scenario_unpriced: "reachable scenario_unpriced"
  unfolding scenario_unpriced_def by (rule reachable_owed [OF reachable_scenario_start])

lemma reachable_scenario_settled: "reachable scenario_settled"
  unfolding scenario_settled_def
  by (rule reach_step [OF reachable_scenario_due], rule step_settle) (rule prod.collapse [symmetric])

lemma reachable_scenario_held: "reachable scenario_held"
  unfolding scenario_held_def Let_def
  by (rule reach_step [OF reachable_topped_up [OF reachable_scenario_start]], rule step_create)
    (rule prod.collapse [symmetric])

section \<open>What the run shows\<close>

lemma not_isl_obtain: "\<not> isl r \<Longrightarrow> \<exists>y. r = Inr y"
  by (cases r) auto

lemma scenario_opens: "\<not> isl (getOrOpen scenario_rt ''IRR'' scenario_start)"
  by code_simp

lemma scenario_posts:
  "let s = scenario_topped_up scenario_start in
     \<not> isl (post scenario_rt (scenario_draft s) ''u'' None s) \<and>
     \<not> isl (reverse scenario_rt (j_id (hd (journals s))) ''r'' ''u'' s)"
  by code_simp

lemma scenario_refunds:
  "let s = scenario_held in \<not> isl (refund scenario_rt (obligation_of s) ''r'' s)"
  by code_simp

definition scenario_disputed :: db where
  "scenario_disputed = (let s = scenario_due in store_after s (dispute scenario_rt (obligation_of s) ''r'' s))"

lemma scenario_resolves:
  "let s = scenario_disputed; i = obligation_of s; d = the (t_disputeId (the (txn_of s i))) in
     \<not> isl (resolveDispute scenario_rt i ''y'' (Some d) s)"
  by code_simp

text \<open>From the store in which the statement is owed.\<close>

lemma scenario_due_facts:
  "let s = scenario_due; i = obligation_of s in
     txn_of s i \<noteq> None \<and> t_sourceType (the (txn_of s i)) = Some ''STATEMENT'' \<and> length (wallets s) = 1 \<and> w_availableBalanceMinor (hd (wallets s)) = 5000 \<and>
     \<not> isl (dispute scenario_rt i ''r'' s) \<and>
     (case recordAuthorisedObligation scenario_rt scenario_statement s of
        Inl e \<Rightarrow> False | Inr (x, s') \<Rightarrow> fst x = i \<and> \<not> snd x) \<and>
     (case placeHold scenario_rt (hd (wallets s)) 700 i TRANSACTION i ''u'' s of
        Inl e \<Rightarrow> False
      | Inr (r, s') \<Rightarrow> \<not> hr_replayed r \<and>
          (case refundHold scenario_rt (hd (wallets s')) (hr_holdId r) TRANSACTION i ''n'' ''u'' s' of
             Inl e \<Rightarrow> False | Inr (x, s'') \<Rightarrow> x \<noteq> None))"
  by code_simp

lemma scenario_settles_eval:
  "let s = scenario_due in
     (case fst (settle scenario_rt (obligation_of s) ''u'' s) of
        Inl e \<Rightarrow> False | Inr x \<Rightarrow> res_commissionAmountMinor x = 25 \<and> res_netAmountMinor x = 975)"
  by code_simp

lemma scenario_unpriced_eval:
  "let s = scenario_unpriced in fst (settle scenario_rt (obligation_of s) ''u'' s) = Inl NoActiveRuleRefusal"
  by code_simp

lemma scenario_settles:
  "\<exists>x. settle scenario_rt (obligation_of scenario_due) ''u'' scenario_due = (Inr x, scenario_settled) \<and>
     res_commissionAmountMinor x = 25 \<and> res_netAmountMinor x = 975"
  using scenario_settles_eval
  by (cases "settle scenario_rt (obligation_of scenario_due) ''u'' scenario_due")
    (auto simp: Let_def scenario_settled_def split: sum.splits)

lemma scenario_unpriced_refused:
  "\<exists>s'. settle scenario_rt (obligation_of scenario_unpriced) ''u'' scenario_unpriced = (Inl NoActiveRuleRefusal, s')"
  using scenario_unpriced_eval
  by (cases "settle scenario_rt (obligation_of scenario_unpriced) ''u'' scenario_unpriced") (simp add: Let_def)

end
