(* ===== verification/Guarantees.thy ===== *)
theory Guarantees
  imports Scenario
begin

text \<open>
  What a settlement does and refuses, as properties of the reachable states of the service, each with an
  example from the concrete run.
\<close>

section \<open>How a settle ends\<close>

lemma settle_cases:
  assumes "settle rt i by' s = (r, s')"
  obtains (failed) e where "settleWithin rt i by' s = Inl e" "r = Inl e" "s' = s"
    | (uncommitted) e where "r = Inl e" "s' = s"
    | (refused) refusal s1 where "settleWithin rt i by' s = Inr (Inl refusal, s1)" "r = Inl NoActiveRuleRefusal"
        "recordRefusal rt refusal by' (s\<lparr>ticks := ticks s1\<rparr>) = Inr ((), s')"
    | (settled) res fa where "settleWithin rt i by' s = Inr (Inr (res, fa), s')" "r = Inr res"
proof (cases "settleWithin rt i by' s")
  case (Inl e)
  with assms have "r = Inl e" "s' = s"
    by (auto simp: settle_def bindR_def atomically_def transaction_def settle_transaction_def action_simps)
  with Inl failed show ?thesis by blast
next
  case (Inr p)
  then obtain x s1 where p: "settleWithin rt i by' s = Inr (x, s1)" by (cases p) auto
  show ?thesis
  proof (cases x)
    case (Inl refusal)
    show ?thesis
    proof (cases "recordRefusal rt refusal by' (s\<lparr>ticks := ticks s1\<rparr>)")
      case (Inl e)
      with assms p \<open>x = Inl refusal\<close> uncommitted show ?thesis
        by (auto simp: settle_def bindR_def atomically_def transaction_def settle_transaction_def action_simps)
    next
      case (Inr q)
      with assms p \<open>x = Inl refusal\<close> uncommitted refused show ?thesis
        by (cases q; cases "commit_ok (snd q)")
          (auto simp: settle_def bindR_def atomically_def transaction_def settle_transaction_def liftR_def action_simps)
    qed
  next
    case (Inr y)
    with assms p uncommitted settled show ?thesis
      by (cases y; cases "commit_ok s1")
        (auto simp: settle_def bindR_def atomically_def transaction_def settle_transaction_def liftR_def action_simps)
  qed
qed

lemma settle_done:
  assumes re: "reachable s" and st: "settle rt i by' s = (Inr res, s')"
  obtains t x n extra fa where "settleWithin rt i by' s = Inr (Inr (res, fa), s')"
    "txn_of s i = Some t" "t_status t = PENDING_SETTLEMENT" "settled_once rt s t x s'"
    "s_id x = res_settlementId res" "s_commissionAmountMinor x = res_commissionAmountMinor res"
    "requiresRule rt (t_businessLine t) \<longrightarrow> res_commissionMatched res" "\<not> transaction_settlement_barred s i"
    "\<exists>au bo s1. settlementBooks rt (t_organizationId t) s = Inr ((au, bo), s1)"
    "txns s' = map (moved_row rt n i PENDING_SETTLEMENT SETTLED extra) (txns s)" "keeps_terms extra"
    "\<forall>u\<in>set (txns s). t_id u = i \<longrightarrow> u = t"
proof -
  from st obtain fa where w: "settleWithin rt i by' s = Inr (Inr (res, fa), s')"
    by (cases rule: settle_cases) auto
  have o: "books_ok s" "txns_ok s" "rules_ok s"
    using reachable_service_ok [OF re] by (simp_all add: service_ok_def)
  from settleWithin_settled [OF o w] obtain t x n extra where
    "txn_of s i = Some t \<and> t_status t = PENDING_SETTLEMENT \<and> settled_once rt s t x s' \<and>
    s_id x = res_settlementId res \<and> s_journalId x = res_journalId res \<and>
    s_commissionAmountMinor x = res_commissionAmountMinor res \<and>
    (requiresRule rt (t_businessLine t) \<longrightarrow> res_commissionMatched res) \<and>
    \<not> transaction_settlement_barred s i \<and>
    (\<exists>au bo s1. settlementBooks rt (t_organizationId t) s = Inr ((au, bo), s1)) \<and>
    txns s' = map (moved_row rt n i PENDING_SETTLEMENT SETTLED extra) (txns s) \<and> keeps_terms extra \<and>
    (\<forall>u\<in>set (txns s). t_id u = i \<longrightarrow> u = t)" by blast
  with w that show ?thesis by blast
qed

text \<open>The row a settlement leaves.\<close>

lemma txn_of_moved:
  assumes t: "txn_of s i = Some t" "t_status t = a" and kt: "keeps_terms extra"
    and one: "\<forall>u\<in>set (txns s). t_id u = i \<longrightarrow> u = t"
    and tx: "txns s' = map (moved_row rt n i a b extra) (txns s)"
  shows "txn_of s' i = Some (moved_row rt n i a b extra t)"
proof -
  let ?f = "moved_row rt n i a b extra"
  have id: "t_id (?f u) = t_id u" for u by (rule terms_ofD(1) [OF moved_row_terms [OF kt]])
  from txn_of_SomeD [OF t(1)] have m: "?f t \<in> set (txns s')" "t_id (?f t) = i" using tx id by auto
  have only: "u = ?f t" if u: "u \<in> set (txns s')" "t_id u = i" for u
  proof -
    from u(1) tx obtain v where v: "v \<in> set (txns s)" "u = ?f v" by auto
    have "t_id v = i" using u(2) id [of v] v(2) by simp
    with one v(1) have "v = t" by simp
    with v(2) show ?thesis by simp
  qed
  show ?thesis
  proof (cases "txn_of s' i")
    case None
    with m show ?thesis by (auto simp: txn_of_def dest: find_NoneD)
  next
    case (Some u)
    have "u = ?f t" by (rule only) (use txn_of_SomeD [OF Some] in simp_all)
    with Some show ?thesis by simp
  qed
qed

section \<open>Settling\<close>

text \<open>C1. Settling conserves money and happens once. When a settle answers with a result, in whatever
  state the service has reached, the obligation was PENDING_SETTLEMENT and is SETTLED with its terms
  unchanged; exactly one settlement row and one commission row were added, the first ever for the
  obligation, for its payer, payee and gross, with net and commission not negative and adding up to the
  gross; and the only balances that moved are the payer's (or its escrow's) by the gross, the payee's by
  the net and the platform's commission revenue by the commission.\<close>

theorem settlement_conserves_money:
  assumes "reachable s" and "settle rt i by' s = (Inr res, s')"
  shows "\<exists>t u x. txn_of s i = Some t \<and> t_status t = PENDING_SETTLEMENT \<and>
    txn_of s' i = Some u \<and> t_status u = SETTLED \<and> terms_of u = terms_of t \<and>
    settled_once rt s t x s' \<and> s_id x = res_settlementId res \<and>
    s_commissionAmountMinor x = res_commissionAmountMinor res"
proof -
  obtain t x n extra where t: "txn_of s i = Some t" "t_status t = PENDING_SETTLEMENT" "settled_once rt s t x s'"
    "s_id x = res_settlementId res" "s_commissionAmountMinor x = res_commissionAmountMinor res"
    and tx: "txns s' = map (moved_row rt n i PENDING_SETTLEMENT SETTLED extra) (txns s)" and kt: "keeps_terms extra"
    and one: "\<forall>u\<in>set (txns s). t_id u = i \<longrightarrow> u = t"
    by (rule settle_done [OF assms])
  let ?u = "moved_row rt n i PENDING_SETTLEMENT SETTLED extra t"
  have "txn_of s' i = Some ?u" by (rule txn_of_moved [OF t(1,2) kt one tx])
  moreover have "t_status ?u = SETTLED" using t txn_of_SomeD [OF t(1)] by (simp add: moved_row_def)
  ultimately show ?thesis using t moved_row_terms [OF kt] by blast
qed

theorem settlement_conserves_money_witness:
  "\<exists>t u x. txn_of scenario_due (obligation_of scenario_due) = Some t \<and> t_status t = PENDING_SETTLEMENT \<and>
     txn_of scenario_settled (obligation_of scenario_due) = Some u \<and> t_status u = SETTLED \<and>
     settled_once scenario_rt scenario_due t x scenario_settled \<and> s_commissionAmountMinor x = 25"
proof -
  obtain r where r: "settle scenario_rt (obligation_of scenario_due) ''u'' scenario_due = (Inr r, scenario_settled)"
    "res_commissionAmountMinor r = 25" using scenario_settles by blast
  from settlement_conserves_money [OF reachable_scenario_due r(1)] r(2) show ?thesis by auto
qed

text \<open>C6. No settlement without authority and a price. A settle that answers with a result was asked by a
  caller with financial authority over the payer's books, for an obligation that no unresolved or
  lost dispute bars; and where the payee's line bears commission, a rule priced it.\<close>

theorem settlement_on_authority:
  assumes "reachable s" and "settle rt i by' s = (Inr res, s')"
  shows "\<exists>t au bo s1. txn_of s i = Some t \<and> settlementBooks rt (t_organizationId t) s = Inr ((au, bo), s1) \<and>
    \<not> isAuditor rt \<and> grounds rt au (ticks s) \<and> fa_booksOrganizationId au = t_organizationId t \<and>
    (bo \<noteq> None \<longrightarrow> fa_basis au \<in> {BASIS_SYSTEM_ADMIN, UNION_SUBTREE}) \<and>
    \<not> transaction_settlement_barred s i \<and> (requiresRule rt (t_businessLine t) \<longrightarrow> res_commissionMatched res)"
proof -
  obtain t where t: "txn_of s i = Some t" "requiresRule rt (t_businessLine t) \<longrightarrow> res_commissionMatched res"
    "\<not> transaction_settlement_barred s i" "\<exists>au bo s1. settlementBooks rt (t_organizationId t) s = Inr ((au, bo), s1)"
    by (rule settle_done [OF assms])
  then obtain au bo s1 where b: "settlementBooks rt (t_organizationId t) s = Inr ((au, bo), s1)" by blast
  then obtain s2 where c: "canActFinanciallyFor rt CMD_SETTLE (t_organizationId t) s = Inr (au, s2)"
    and "bo \<noteq> None \<longrightarrow> fa_basis au \<in> {BASIS_SYSTEM_ADMIN, UNION_SUBTREE}"
    by (auto simp: settlementBooks_def action_Inr split: if_splits)
  with canActFinanciallyFor_Inr [OF c] t b show ?thesis by blast
qed

theorem settlement_on_authority_witness:
  "\<exists>t au bo s1. txn_of scenario_due (obligation_of scenario_due) = Some t \<and>
     settlementBooks scenario_rt (t_organizationId t) scenario_due = Inr ((au, bo), s1) \<and>
     grounds scenario_rt au (ticks scenario_due) \<and> \<not> transaction_settlement_barred scenario_due (obligation_of scenario_due)"
proof -
  obtain r where r: "settle scenario_rt (obligation_of scenario_due) ''u'' scenario_due = (Inr r, scenario_settled)"
    using scenario_settles by blast
  from settlement_on_authority [OF reachable_scenario_due r] show ?thesis by blast
qed

section \<open>Once and for all\<close>

lemma settle_unless_pending:
  assumes "txn_of s i = Some t" and "t_status t \<noteq> PENDING_SETTLEMENT"
  shows "settle rt i by' s = (Inl (RastaError INVALID_STATE_TRANSITION ''cannot''), s)"
proof -
  have "nextStatus (t_status t) SETTLE No_Facts = Inl (RastaError INVALID_STATE_TRANSITION ''cannot'')"
    using assms(2) by (cases "t_status t") (simp_all add: nextStatus_def)
  then have "settleWithin rt i by' s = Inl (RastaError INVALID_STATE_TRANSITION ''cannot'')"
    using assms(1) by (simp add: settleWithin_def prepare_settlement_def lockForUpdate_def action_simps)
  then show ?thesis
    by (simp add: settle_def bindR_def atomically_def transaction_def settle_transaction_def action_simps)
qed

lemma steps_advance: "service_step\<^sup>*\<^sup>* s s' \<Longrightarrow> advances s s'"
  by (induction rule: rtranclp_induct) (auto intro: advances.refl advances.trans step_advances)

lemma steps_reachable: "service_step\<^sup>*\<^sup>* s s' \<Longrightarrow> reachable s \<Longrightarrow> reachable s'"
  by (induction rule: rtranclp_induct) (auto intro: reach_step)

lemma life_after_settled: "life st evs st' \<Longrightarrow> settled_status st \<Longrightarrow> settled_status st'"
  by (erule life_invariant) (auto simp: settled_status_def dest!: nextStatus_Inr TRANSITIONS_cases reversedStatus_Inr)

lemma txn_of_unique:
  assumes "txns_ok s" and "t \<in> set (txns s)"
  shows "txn_of s (t_id t) = Some t"
proof (cases "txn_of s (t_id t)")
  case None
  with assms(2) show ?thesis by (auto simp: txn_of_def dest: find_NoneD)
next
  case (Some u)
  with txn_of_SomeD [OF Some] assms show ?thesis by (auto simp: txns_ok_def dest: distinct_map_eq)
qed

lemma settled_stays:
  assumes "reachable s" and "t \<in> set (txns s)" and "settled_status (t_status t)" and "service_step\<^sup>*\<^sup>* s s'"
  shows "\<exists>u. txn_of s' (t_id t) = Some u \<and> terms_of u = terms_of t \<and> settled_status (t_status u)"
proof -
  from steps_advance [OF assms(4)] assms(2) obtain u evs where
    u: "u \<in> set (txns s')" "terms_of u = terms_of t" "life (t_status t) evs (t_status u)"
    unfolding advances_def descends_def by blast
  have "txns_ok s'"
    using reachable_service_ok [OF steps_reachable [OF assms(4,1)]] by (simp add: service_ok_def)
  from txn_of_unique [OF this u(1)] u(2) life_after_settled [OF u(3) assms(3)] terms_ofD(1) [OF u(2)]
  show ?thesis by auto
qed

text \<open>C5. Settled for good. Once a settle has answered with a result, whatever is then asked of the service,
  by anyone, any number of times, another settle of the same obligation by any caller is refused as an
  invalid transition and changes nothing at all.\<close>

theorem settled_for_good:
  assumes "reachable s" and "settle (rt :: runtime) i by' s = (Inr res, s')" and "service_step\<^sup>*\<^sup>* s' s''"
  shows "settle rt' i by'' s'' = (Inl (RastaError INVALID_STATE_TRANSITION ''cannot''), s'')"
proof -
  obtain t x n extra where t: "txn_of s i = Some t" "t_status t = PENDING_SETTLEMENT"
    and tx: "txns s' = map (moved_row rt n i PENDING_SETTLEMENT SETTLED extra) (txns s)" and kt: "keeps_terms extra"
    and one: "\<forall>u\<in>set (txns s). t_id u = i \<longrightarrow> u = t"
    by (rule settle_done [OF assms(1,2)])
  let ?u = "moved_row rt n i PENDING_SETTLEMENT SETTLED extra t"
  have u: "?u \<in> set (txns s')" "t_id ?u = i" "settled_status (t_status ?u)"
    using txn_of_SomeD [OF txn_of_moved [OF t kt one tx]] t txn_of_SomeD [OF t(1)]
    by (simp_all add: moved_row_def settled_status_def)
  have "reachable s'" by (rule reach_step [OF assms(1)]) (rule step_settle [OF assms(2)])
  from settled_stays [OF this u(1,3) assms(3)] u(2) obtain v where
    "txn_of s'' i = Some v" "settled_status (t_status v)" by auto
  then show ?thesis by (intro settle_unless_pending) (auto simp: settled_status_def)
qed

theorem settled_for_good_witness:
  "settle scenario_rt (obligation_of scenario_due) ''v'' scenario_settled =
     (Inl (RastaError INVALID_STATE_TRANSITION ''cannot''), scenario_settled)"
proof -
  obtain r where r: "settle scenario_rt (obligation_of scenario_due) ''u'' scenario_due = (Inr r, scenario_settled)"
    using scenario_settles by blast
  show ?thesis by (rule settled_for_good [OF reachable_scenario_due r rtranclp.rtrancl_refl])
qed

section \<open>Refused\<close>

lemma settleWithin_refusal:
  assumes "settleWithin rt i by' s = Inr (Inl refusal, s1)" and "books_ok s" "txns_ok s" "rules_ok s"
  shows "\<exists>t line at. txn_of s i = Some t \<and> t_businessLine t = Some line \<and> requiresRule rt (Some line) \<and>
    rs_transactionId refusal = i \<and> rs_organizationId refusal = t_organizationId t \<and>
    (\<forall>r\<in>set (rules s). \<not> applicable \<lparr>su_organizationId = the (t_counterpartyOrganizationId t),
       su_businessLine = Some line, su_transactionType = t_transactionType t\<rparr> at r)"
proof -
  from assms(1) obtain p s2 x s3 where
    p: "prepare_settlement rt i s = Inr (p, s2)"
    and cx: "charge rt (ps_transaction p) (ps_payee p) s2 = Inr (x, s3)"
    and rest: "(case x of Inl refusal \<Rightarrow> returnM (Inl refusal)
       | Inr decision \<Rightarrow> bindM (apply_settlement rt p decision by') (\<lambda>r. returnM (Inr r))) s3 = Inr (Inl refusal, s1)"
    by (auto simp: settleWithin_def bindM_Inr)
  from rest have "x = Inl refusal" by (cases x) (auto simp: bindM_Inr)
  with cx have c: "charge rt (ps_transaction p) (ps_payee p) s2 = Inr (Inl refusal, s3)" by simp
  note f = prepare_settlement_Inr [OF assms(2,3) p]
  then have bp: "business_part s2 = business_part s" and t: "txn_of s i = Some (ps_transaction p)"
    and g: "0 \<le> t_grossAmountMinor (ps_transaction p)"
    and cp: "t_counterpartyOrganizationId (ps_transaction p) = Some (ps_payee p)" by auto
  have ru: "rules s2 = rules s" using bp by (simp add: business_part_def)
  have "rules_ok s2" using assms(4) rules_ok_cong [of s2 s] ru by blast
  from charge_Inr [OF this g c] t txn_of_SomeD [OF t] cp ru show ?thesis
    by (intro exI [of _ "ps_transaction p"] exI [of _ "the (t_businessLine (ps_transaction p))"]
        exI [of _ "clock_timestamp rt (ticks s2)"]) auto
qed



end
