(* ===== verification/Contracts.thy ===== *)
theory Contracts
  imports Guarantees
begin

text \<open>
  What single operations promise: postings and reversals, holds, opening a wallet, recording, commanding
  and refunding an obligation; each with an example from the concrete run.
\<close>

section \<open>The ledger\<close>

lemma find_append: "find P (xs @ ys) = (case find P xs of None \<Rightarrow> find P ys | Some x \<Rightarrow> Some x)"
  by (induction xs) simp_all

lemma scenario_books: "reachable s \<Longrightarrow> books_ok s \<and> ledger_ok s \<and> txns_ok s"
  using reachable_service_ok by (simp add: service_ok_def books_ok_def)

text \<open>C29. A posting is its legs and nothing else. When a draft is posted it was balanced (two legs or more,
  positive amounts, debits equal to credits in its one currency), its journal is new and carries exactly
  those legs, every balance moves by exactly the legs on the account of its key, and together the legs
  move nothing.\<close>

theorem post_moves_exactly_its_legs:
  assumes "ledger_ok s" and "post rt d by' books s = Inr (pj, s')"
  shows "balanced_draft (dj_entries d) \<and> pj_id pj \<notin> j_id ` set (journals s) \<and>
    map draft_of_entry (entries_of s' (pj_id pj)) = dj_entries d \<and>
    (\<forall>k. bal_at s' k = bal_at s k + (\<Sum>(i, v)\<leftarrow>draft_legs d. if keyed s i k then v else 0)) \<and>
    (\<Sum>(i, v)\<leftarrow>draft_legs d. v) = 0 \<and> ledger_ok s'"
proof -
  note ps = post_Inr [OF assms(2)]
  from led.posting_law [OF assms] post_specD(1,2,4) [OF ps] post_spec_entries_of [OF assms(1) ps]
  show ?thesis by simp
qed

theorem post_moves_exactly_its_legs_witness:
  "\<exists>pj s'. let s = scenario_topped_up scenario_start in
     post scenario_rt (scenario_draft s) ''u'' None s = Inr (pj, s') \<and>
     map draft_of_entry (entries_of s' (pj_id pj)) = dj_entries (scenario_draft s)"
proof -
  let ?s = "scenario_topped_up scenario_start"
  have "ledger_ok ?s" using scenario_books reachable_topped_up reachable_scenario_start by blast
  moreover obtain pj s' where p: "post scenario_rt (scenario_draft ?s) ''u'' None ?s = Inr (pj, s')"
    using scenario_posts not_isl_obtain by (fastforce simp: Let_def)
  ultimately have "map draft_of_entry (entries_of s' (pj_id pj)) = dj_entries (scenario_draft ?s)"
    using post_moves_exactly_its_legs by blast
  with p show ?thesis by (auto simp: Let_def)
qed

lemma draft_credit_reverse: "draft_credit s (reverseEntries es) k = - draft_credit s es k"
  by (induction es) (simp_all add: reverseEntries_def d_signed_def)

text \<open>C30. A reversal takes a journal back, once. When a journal is reversed, the balance at every key is what
  it would be without that journal's legs, and neither the journal nor its reversal can be reversed again.\<close>

theorem reverse_takes_back_once:
  assumes "ledger_ok s" and "reverse rt jid reason by' s = Inr (pj, s')"
  shows "(\<forall>k. bal_at s' k = bal_at s k - draft_credit s (map draft_of_entry (entries_of s jid)) k) \<and>
    reverse rt' jid reason' by'' s' = Inl (RastaError ALREADY_EXISTS ''Reversal of this journal'') \<and>
    reverse rt' (pj_id pj) reason' by'' s' =
      Inl (RastaError BUSINESS_RULE_VIOLATION ''A reversal journal cannot itself be reversed'')"
proof -
  from assms(2) obtain j where j: "journal_of s jid = Some j" "j_journalType j \<noteq> REVERSAL"
    and po: "post rt \<lparr>dj_journalType = REVERSAL, dj_description = ''Reversal of '' @ jid,
           dj_organizationId = j_organizationId j, dj_transactionId = j_transactionId j,
           dj_entries = reverseEntries (map draft_of_entry (entries_of s jid)),
           dj_postedAt = None, dj_reverses = Some (jid, reason)\<rparr> by' None s = Inr (pj, s')"
    by (auto simp: reverse_def findJournalForReversal_def findReversalOf_def action_Inr)
  note ps = post_Inr [OF po]
  have "bal_at s' k = bal_at s k - draft_credit s (map draft_of_entry (entries_of s jid)) k" for k
    using post_spec_balance [OF assms(1) ps] by (cases k) (simp add: bal_at_def draft_credit_reverse)
  moreover obtain r where r: "journals s' = journals s @ [r]" "j_id r = pj_id pj" "j_journalType r = REVERSAL"
      "j_reversesId r = Some jid" "pj_id pj \<notin> j_id ` set (journals s)"
    using ps by (auto simp: post_spec_def journal_of_draft_def draft_type_def)
  have "journal_of s' jid = Some j" using j(1) r(1) by (simp add: journal_of_def find_append)
  moreover have "find (\<lambda>j. j_id j = pj_id pj) (journals s) = None" using r(5) by (force simp: find_None_iff)
  then have "journal_of s' (pj_id pj) = Some r" using r(1,2) by (simp add: journal_of_def find_append)
  moreover have "find (\<lambda>k. j_reversesId k = Some jid) (journals s') \<noteq> None"
    using r(1,4) by (auto simp: find_None_iff)
  ultimately show ?thesis
    using j(2) r(3) by (auto simp: reverse_def findJournalForReversal_def findReversalOf_def action_simps)
qed

theorem reverse_takes_back_once_witness:
  "\<exists>pj s'. let s = scenario_topped_up scenario_start; jid = j_id (hd (journals s)) in
     reverse scenario_rt jid ''r'' ''u'' s = Inr (pj, s') \<and>
     reverse scenario_rt jid ''r'' ''u'' s' = Inl (RastaError ALREADY_EXISTS ''Reversal of this journal'')"
proof -
  let ?s = "scenario_topped_up scenario_start"
  let ?j = "j_id (hd (journals ?s))"
  have l: "ledger_ok ?s" using scenario_books reachable_topped_up reachable_scenario_start by blast
  obtain pj s' where p: "reverse scenario_rt ?j ''r'' ''u'' ?s = Inr (pj, s')"
    using scenario_posts not_isl_obtain by (fastforce simp: Let_def)
  from reverse_takes_back_once [OF l p] p show ?thesis by (auto simp: Let_def)
qed

section \<open>Wallets and holds\<close>

text \<open>Locks are taken in one order. Whatever order and repetition a caller names its wallets in, the rows
  are locked and returned in ascending id, the same rows in the same order: two settlements between the
  same two wallets never lock them crosswise.\<close>

theorem lock_order:
  assumes "set ids = set ids'"
  shows "lock ids s = lock ids' s \<and> (\<forall>ws s'. lock ids s = Inr (ws, s') \<longrightarrow> s' = s \<and> sorted (map w_id ws) \<and>
    set ws = {w \<in> set (wallets s). w_id w \<in> set ids})"
proof -
  have "lock ids s = Inr (locked_rows s ids, s)" "lock ids' s = Inr (locked_rows s ids', s)"
    by (simp_all add: lock_Inr)
  with assms show ?thesis by (auto simp: locked_rows_def)
qed

theorem lock_order_witness:
  "lock [''WLT_2'', ''WLT_1''] scenario_due = lock [''WLT_1'', ''WLT_2'', ''WLT_1''] scenario_due"
  by (rule lock_order [THEN conjunct1]) auto

lemma open_wallet_Inr:
  assumes "open_wallet rt org cur s = Inr (w, s')"
  shows "open_within rt org cur s = Inr (w, s') \<or> findByOrganization rt org cur s = Inr (Some w, s')"
proof (cases "transaction (open_within rt org cur) s")
  case (Inl e)
  with assms show ?thesis
    by (auto simp: open_wallet_def action_Inr split: failure.splits)
next
  case (Inr r)
  with assms show ?thesis by (auto simp: open_wallet_def transaction_Inr)
qed

lemma findByOrganization_Some:
  "findByOrganization rt org cur s = Inr (Some w, s') \<Longrightarrow> s' = s \<and> find_wallet s org cur = Some w"
  by (auto simp: findByOrganization_def action_Inr split: if_splits)

lemma find_wallet_unique:
  assumes "books_ok s" and "w \<in> set (wallets s)" and "wallet_key w = (org, cur)"
  shows "find_wallet s org cur = Some w"
proof (cases "find_wallet s org cur")
  case None
  with assms show ?thesis by (auto simp: find_wallet_def wallet_key_def dest: find_NoneD)
next
  case (Some v)
  with find_wallet_SomeD [OF Some] assms show ?thesis
    by (auto simp: books_ok_def wallet_ok_def wallets_unique_def dest: distinct_map_eq)
qed

text \<open>A wallet is opened once. Asking for one's wallet gives the wallet of the caller's organization in the
  currency, opening moves no money, and asking again gives the same wallet and changes nothing.\<close>

theorem wallet_opened_once:
  assumes "reachable s" and "getOrOpen rt cur s = Inr (w, s')"
  shows "getOrganizationId rt = Inr (w_organizationId w) \<and> w_currency w = cur \<and> w \<in> set (wallets s') \<and>
    (\<forall>k. bal_at s' k = bal_at s k) \<and> getOrOpen rt cur s' = Inr (w, s')"
proof -
  have ok: "books_ok s" using scenario_books [OF assms(1)] by blast
  from assms(2) obtain org found where org: "getOrganizationId rt = Inr org"
    and f: "findByOrganization rt org cur s = Inr (found, s)"
    and r: "(case found of Some w \<Rightarrow> returnM w | None \<Rightarrow> open_wallet rt org cur) s = Inr (w, s')"
    by (auto simp: getOrOpen_def findByOrganization_def action_Inr split: if_splits)
  have "s' = s \<and> find_wallet s org cur = Some w \<or> open_within rt org cur s = Inr (w, s')"
  proof (cases found)
    case None
    with r open_wallet_Inr [of rt org cur s w s'] findByOrganization_Some [of rt org cur s w s'] show ?thesis by auto
  next
    case (Some v)
    with r f findByOrganization_Some [of rt org cur s v s] show ?thesis by auto
  qed
  then have *: "books_ok s' \<and> w \<in> set (wallets s') \<and> wallet_key w = (org, cur) \<and> (\<forall>k. bal_at s' k = bal_at s k)"
    using ok open_within_Inr [OF ok] find_wallet_SomeD [of s org cur w] by blast
  then have fw: "find_wallet s' org cur = Some w" by (intro find_wallet_unique) auto
  have "findByOrganization rt org cur s' = Inr (Some w, s')"
    using fw org actingOrganization_Inr [of rt org]
    by (simp add: findByOrganization_def action_simps del: actingOrganization_Inr)
  with org * show ?thesis by (auto simp: getOrOpen_def action_simps wallet_key_def)
qed

theorem wallet_opened_once_witness:
  "\<exists>w s'. getOrOpen scenario_rt ''IRR'' scenario_start = Inr (w, s') \<and> getOrOpen scenario_rt ''IRR'' s' = Inr (w, s')"
proof -
  obtain w s' where r: "getOrOpen scenario_rt ''IRR'' scenario_start = Inr (w, s')"
    using not_isl_obtain [OF scenario_opens] by auto
  from wallet_opened_once [OF reachable_scenario_start r] r show ?thesis by blast
qed

text \<open>C13. Placing a hold sets money aside exactly. A hold that is placed (not replayed) was for a positive amount
  that the active wallet covers; it adds one active hold of that amount for its reference and moves exactly
  that amount from the organization's wallet account to its escrow account, and the balances it answers
  with are the ledger's.\<close>

theorem placeHold_sets_aside:
  assumes "books_ok s" and "w \<in> set (wallets s)"
    and "placeHold rt w amount ref rty tid by' s = Inr (r, s')" and "\<not> hr_replayed r"
  shows "0 < amount \<and> amount \<le> w_availableBalanceMinor w \<and> w_status w = W_ACTIVE \<and> books_ok s' \<and>
    (\<exists>h. holds s' = holds s @ [h] \<and> h_id h = hr_holdId r \<and> h_walletId h = w_id w \<and> h_amountMinor h = amount \<and>
       h_status h = H_ACTIVE \<and> h_reference h = ref \<and> h_referenceType h = rty) \<and>
    hr_balances r = ledger_balances s' (w_organizationId w) (w_currency w) \<and>
    (\<forall>k. bal_at s' k = bal_at s k - (if k = (w_organizationId w, WALLET, w_currency w) then amount else 0) +
       (if k = (w_organizationId w, ESCROW, w_currency w) then amount else 0))"
  using placeHold_Inr [OF assms] by auto

text \<open>The example's hold and its refund.\<close>

lemma scenario_hold:
  obtains w r s1 x s2 where "wallets scenario_due = [w]"
    "placeHold scenario_rt w 700 (obligation_of scenario_due) TRANSACTION (obligation_of scenario_due) ''u'' scenario_due =
       Inr (r, s1)" "\<not> hr_replayed r"
    "refundHold scenario_rt (hd (wallets s1)) (hr_holdId r) TRANSACTION (obligation_of scenario_due) ''n'' ''u'' s1 =
       Inr (Some x, s2)"
proof -
  have f: "length (wallets scenario_due) = 1"
    "case placeHold scenario_rt (hd (wallets scenario_due)) 700 (obligation_of scenario_due) TRANSACTION
          (obligation_of scenario_due) ''u'' scenario_due of
        Inl e \<Rightarrow> False
      | Inr (r, s') \<Rightarrow> \<not> hr_replayed r \<and>
          (case refundHold scenario_rt (hd (wallets s')) (hr_holdId r) TRANSACTION (obligation_of scenario_due)
              ''n'' ''u'' s' of
             Inl e \<Rightarrow> False | Inr (x, s'') \<Rightarrow> x \<noteq> None)"
    using scenario_due_facts unfolding Let_def by blast+
  from f(1) obtain w where "wallets scenario_due = [w]" by (auto simp: length_Suc_conv)
  moreover from f(2) obtain r s1 where p: "placeHold scenario_rt (hd (wallets scenario_due)) 700 (obligation_of scenario_due)
       TRANSACTION (obligation_of scenario_due) ''u'' scenario_due = Inr (r, s1)" "\<not> hr_replayed r"
    and q: "case refundHold scenario_rt (hd (wallets s1)) (hr_holdId r) TRANSACTION (obligation_of scenario_due)
              ''n'' ''u'' s1 of Inl e \<Rightarrow> False | Inr (x, s'') \<Rightarrow> x \<noteq> None"
    by (cases "placeHold scenario_rt (hd (wallets scenario_due)) 700 (obligation_of scenario_due) TRANSACTION
          (obligation_of scenario_due) ''u'' scenario_due") auto
  moreover from q obtain x s2 where "refundHold scenario_rt (hd (wallets s1)) (hr_holdId r) TRANSACTION
       (obligation_of scenario_due) ''n'' ''u'' s1 = Inr (x, s2)" "x \<noteq> None"
    by (cases "refundHold scenario_rt (hd (wallets s1)) (hr_holdId r) TRANSACTION (obligation_of scenario_due) ''n'' ''u'' s1")
      auto
  ultimately show ?thesis using that [of w r s1 _ s2] by auto
qed

theorem placeHold_sets_aside_witness:
  "\<exists>w r s'. placeHold scenario_rt w 700 (obligation_of scenario_due) TRANSACTION (obligation_of scenario_due) ''u''
      scenario_due = Inr (r, s') \<and>
    bal_at s' (w_organizationId w, ESCROW, w_currency w) =
      bal_at scenario_due (w_organizationId w, ESCROW, w_currency w) + 700"
proof -
  obtain w r s1 where w: "wallets scenario_due = [w]"
    and p: "placeHold scenario_rt w 700 (obligation_of scenario_due) TRANSACTION (obligation_of scenario_due) ''u''
      scenario_due = Inr (r, s1)" "\<not> hr_replayed r" by (rule scenario_hold)
  have "w \<in> set (wallets scenario_due)" using w by simp
  from placeHold_sets_aside [OF _ this p] scenario_books [OF reachable_scenario_due]
  have "bal_at s1 (w_organizationId w, ESCROW, w_currency w) =
      bal_at scenario_due (w_organizationId w, ESCROW, w_currency w) + 700" by simp
  with p(1) show ?thesis by blast
qed

text \<open>C14. A placed hold is given back exactly. A refund of a hold that moves anything resolves an active, funded
  hold of that wallet, moves exactly its amount back from escrow to the wallet, and marks it refunded by
  its journal.\<close>

theorem refundHold_gives_back:
  assumes "books_ok s" and "w \<in> set (wallets s)"
    and "refundHold rt w i rty tid note by' s = Inr (Some (jid, amount, b), s')"
  shows "books_ok s' \<and> wallet_hold_funded s i \<and>
    (\<exists>h. hold_of s i = Some h \<and> h_status h = H_ACTIVE \<and> h_walletId h = w_id w \<and> h_amountMinor h = amount) \<and>
    (\<forall>h'\<in>set (holds s'). h_id h' = i \<longrightarrow> h_status h' = H_REFUNDED \<and> h_resolvedJournalId h' = Some jid) \<and>
    (\<forall>k. bal_at s' k = bal_at s k + (if k = (w_organizationId w, WALLET, w_currency w) then amount else 0) -
       (if k = (w_organizationId w, ESCROW, w_currency w) then amount else 0))"
  using refundHold_Inr [OF assms] by blast

theorem refundHold_gives_back_witness:
  "\<exists>w (r :: hold_result) s1 x s2. refundHold scenario_rt w (hr_holdId r) TRANSACTION (obligation_of scenario_due) ''n'' ''u'' s1 =
     Inr (Some x, s2) \<and> wallet_hold_funded s1 (hr_holdId r) \<and>
     (\<forall>h\<in>set (holds s2). h_id h = hr_holdId r \<longrightarrow> h_status h = H_REFUNDED)"
proof -
  obtain w r s1 x s2 where w: "wallets scenario_due = [w]"
    and p: "placeHold scenario_rt w 700 (obligation_of scenario_due) TRANSACTION (obligation_of scenario_due) ''u''
      scenario_due = Inr (r, s1)" "\<not> hr_replayed r"
    and rf: "refundHold scenario_rt (hd (wallets s1)) (hr_holdId r) TRANSACTION (obligation_of scenario_due) ''n'' ''u'' s1 =
       Inr (Some x, s2)" by (rule scenario_hold)
  have b: "books_ok scenario_due" "w \<in> set (wallets scenario_due)"
    using w scenario_books [OF reachable_scenario_due] by simp_all
  note i = placeHold_Inr [OF b p]
  then obtain h where "holds s1 = holds scenario_due @ [h]" by blast
  then have h: "h \<in> set (holds s1)" by simp
  from i have b1: "books_ok s1" by blast
  with h have "wallets s1 \<noteq> []" by (auto simp: books_ok_def wallet_ok_def holds_ok_def)
  then have "hd (wallets s1) \<in> set (wallets s1)" by simp
  moreover obtain jid amount bal where "x = (jid, amount, bal)" by (cases x)
  ultimately have "wallet_hold_funded s1 (hr_holdId r) \<and>
      (\<forall>h\<in>set (holds s2). h_id h = hr_holdId r \<longrightarrow> h_status h = H_REFUNDED)"
    using refundHold_gives_back [OF b1 _ rf [unfolded \<open>x = (jid, amount, bal)\<close>]] by blast
  with rf show ?thesis by blast
qed

section \<open>Obligations\<close>

lemma txn_of_mapped:
  assumes "\<And>t. t_id (f t) = t_id t" and "txns s' = map f (txns s)"
  shows "txn_of s' i = map_option f (txn_of s i)"
proof -
  have "find (\<lambda>t. t_id t = i) (map f xs) = map_option f (find (\<lambda>t. t_id t = i) xs)" for xs
    by (induction xs) (simp_all add: assms(1))
  with assms(2) show ?thesis by (simp add: txn_of_def)
qed

lemma moved_row_id: "keeps_terms extra \<Longrightarrow> t_id (moved_row rt n i a b extra t) = t_id t"
  by (rule terms_ofD(1) [OF moved_row_terms])

lemma announce_Inr:
  assumes "announce rt t act fs ts by' at cid s = Inr (u, s')"
  shows "\<exists>row. outbox s' = outbox s @ [row] \<and> same_data s s' \<and>
    o_payload row = TransactionStatusChanged (t_id t) (t_organizationId t) (t_counterpartyOrganizationId t)
          (t_transactionType t) act fs ts (formatMinor (t_grossAmountMinor t)) (t_currency t) by' at"
  using assms unfolding announce_def by (auto dest!: enqueue_Inr simp: appended_def)

lemma authorizeAct_same:
  assumes "authorizeAct rt t cmd s = Inr (fa, s')"
  shows "txns s' = txns s" "outbox s' = outbox s" "ledger_part s' = ledger_part s" "wallet_part s' = wallet_part s"
    "charge_part s' = charge_part s"
proof -
  have p: "f s' = f s" if "tickless f" for f by (rule unchangedD [OF unchanged_authorizeAct [OF that] assms])
  show "txns s' = txns s" using p [of txn_part] by (simp add: txn_part_def)
  show "outbox s' = outbox s" using p [of outbox_part] by (simp add: outbox_part_def)
  show "ledger_part s' = ledger_part s" "wallet_part s' = wallet_part s" "charge_part s' = charge_part s"
    by (rule p; simp)+
qed

lemma get_transaction_same: "get_transaction rt i s = Inr (x, s') \<Longrightarrow> s' = s"
  by (auto simp: get_transaction_def findByIdForParty_def heldProven_def action_Inr split: if_splits)

lemma move_Inr:
  assumes kt: "\<And>at. keeps_terms (extra at)" and mv: "move rt i cmd by' extra hdis s = Inr (x, s')"
  shows "\<exists>t a target n at row. txn_of s i = Some t \<and> (hdis \<noteq> None \<longrightarrow> t_disputeId t = hdis) \<and>
    (\<exists>fa s1. authorizeAct rt t (command_of cmd) s = Inr (fa, s1)) \<and>
    nextStatus (t_status t) (move_event cmd) (Authority a) = Inr target \<and>
    txns s' = map (moved_row rt n i (t_status t) target (extra at)) (txns s) \<and>
    outbox s' = outbox s @ [row] \<and>
    o_payload row = TransactionStatusChanged i (t_organizationId t) (t_counterpartyOrganizationId t)
       (t_transactionType t) (action_of cmd) (Some (t_status t)) target (formatMinor (t_grossAmountMinor t)) (t_currency t) by' at"
proof -
  from mv obtain t fa s1 target c u1 s5 u2 s6 where
    t: "txn_of s i = Some t" and d: "hdis \<noteq> None \<longrightarrow> t_disputeId t = hdis"
    and au: "authorizeAct rt t (command_of cmd) s = Inr (fa, s1)"
    and ns: "nextStatus (t_status t) (move_event cmd)
       (Authority (lock_authority \<lparr>lt_row = t,
        lt_settlementAuthorised = transaction_settlement_authorised s (t_id t) (t_settlementAuthorisedAt t \<noteq> None),
        lt_settlementBarred = transaction_settlement_barred s (t_id t),
        lt_fundsHeld = (\<exists>h\<in>set (transaction_holds s (t_id t) (t_organizationId t)). h_status h = H_ACTIVE)\<rparr>)) = Inr target"
    and tr: "transition rt i (t_status t) target (extra (clock_timestamp rt (ticks s1))) (s1\<lparr>ticks := Suc (ticks s1)\<rparr>) = Inr (c, s5)"
    and an: "announce rt t (action_of cmd) (Some (t_status t)) target by' (clock_timestamp rt (ticks s1)) None s5 = Inr (u2, s6)"
    and ge: "get_transaction rt i s6 = Inr (x, s')"
    by (auto simp: move_def transaction_Inr move_within_def lockForUpdate_def action_Inr databaseNow_Inr)
  note same = authorizeAct_same [OF au]
  note tr' = transition_Inr [OF tr]
  from announce_Inr [OF an] obtain row where
    row: "outbox s6 = outbox s5 @ [row]" "same_data s5 s6"
      "o_payload row = TransactionStatusChanged (t_id t) (t_organizationId t) (t_counterpartyOrganizationId t)
          (t_transactionType t) (action_of cmd) (Some (t_status t)) target (formatMinor (t_grossAmountMinor t)) (t_currency t)
          by' (clock_timestamp rt (ticks s1))" by blast
  have "s' = s6" by (rule get_transaction_same [OF ge])
  then show ?thesis
    using t d au ns same tr' row same_dataD(7) [OF row(2)] txn_of_SomeD [OF t] by auto
qed



end
