(* ===== verification/Obligation_Contracts.thy ===== *)
theory Obligation_Contracts
  imports Contracts
begin

text \<open>
  What recording, refunding and reading an obligation promise; each with an example from the concrete run.
\<close>

section \<open>Recording\<close>

lemma find_source_mem:
  "find_source s org st sr = Some t \<Longrightarrow>
     t \<in> set (txns s) \<and> t_organizationId t = org \<and> t_sourceType t = Some st \<and> t_sourceReference t = Some sr"
  by (auto simp: find_source_def dest: find_SomeD)

lemma unchanged_pricingOf_same: "pricingOf p s = Inr (x, s') \<Longrightarrow> s' = s"
  using unchangedD [OF unchanged_pricing(2) [of "\<lambda>s. s"]] by blast

lemma legsFor_txns: "legsFor rt i org cp g c s = Inr (x, s') \<Longrightarrow> txns s' = txns s"
  using unchangedD [OF unchanged_legsFor [of txn_part]] by (fastforce simp: txn_part_def)

lemma recordAuthorisedObligation_Inr:
  assumes "recordAuthorisedObligation rt a s = Inr ((i, fresh), s')"
  shows "\<exists>t. find_source s' (ao_organizationId a) (ao_sourceType a) (ao_sourceReference a) = Some t \<and> t_id t = i \<and>
    (if fresh then t_status t = PENDING_SETTLEMENT \<and> txns s' = txns s @ [t] else txns s' = txns s)"
proof (cases "find_source s (ao_organizationId a) (ao_sourceType a) (ao_sourceReference a)")
  case (Some t)
  with assms show ?thesis by (auto simp: recordAuthorisedObligation_def findBySource_def action_Inr)
next
  case None
  let ?row = "\<lambda>i0 out rule. new_obligation i0 (ao_organizationId a) (Some (ao_counterpartyOrganizationId a))
               (ao_transactionType a) (ao_businessLine a) (Some out, rule) PENDING_SETTLEMENT
               (ao_grossAmountMinor a) (ao_currency a) (ao_occurredAt a) (Some (ao_sourceType a))
               (Some (ao_sourceReference a)) None (correlationId rt) (Some (ao_causationId a)) SERVICE_NAME"
  from assms None obtain i0 s0 out rule ls s2 written s3 where
    p: "prefixed_ulid rt ''TXN'' s = Inr (i0, s0)"
    and ls: "legsFor rt i0 (ao_organizationId a) (Some (ao_counterpartyOrganizationId a)) (ao_grossAmountMinor a)
           (ao_currency a) s0 = Inr (ls, s2)"
    and c: "createForSource rt (?row i0 out rule) ls s2 = Inr (written, s3)"
    and rest: "(if \<not> written
         then bindM (findBySource (ao_organizationId a) (ao_sourceType a) (ao_sourceReference a)) (\<lambda>winner.
              case winner of
                None \<Rightarrow> throwM (RastaError INTERNAL_ERROR ''An obligation for this source fact conflicted and vanished'')
              | Some t \<Rightarrow> returnM (t_id t, False))
         else bindM (hostDate rt) (\<lambda>at.
              thenM (announce rt (?row i0 out rule) ACT_RECORD_AUTHORISED_OBLIGATION None PENDING_SETTLEMENT SERVICE_NAME at
                       (Some (ao_causationId a)))
              (returnM (i0, True)))) s3 = Inr ((i, fresh), s')"
    unfolding recordAuthorisedObligation_def findBySource_def
    by (auto simp: bindM_Inr Let_def dest!: unchanged_pricingOf_same)
  have tx: "txns s2 = txns s" using legsFor_txns [OF ls] p by (auto simp: prefixed_ulid_Inr)
  note cf = createForSource_Inr [OF c]
  show ?thesis
  proof (cases written)
    case False
    with cf rest tx None show ?thesis by (auto simp: findBySource_def action_Inr find_source_def)
  next
    case True
    let ?t = "stamp_insert rt (ticks s2) (?row i0 out rule)"
    from True rest obtain n u where i: "i = i0" "fresh"
      and an: "\<exists>at. announce rt (?row i0 out rule) ACT_RECORD_AUTHORISED_OBLIGATION None PENDING_SETTLEMENT SERVICE_NAME at
                       (Some (ao_causationId a)) (s3\<lparr>ticks := n\<rparr>) = Inr (u, s')"
      by (auto simp: action_Inr hostDate_Inr)
    then have "txns s' = txns s3" by (auto dest!: announce_Inr simp: same_data_def)
    with True cf tx have tx': "txns s' = txns s @ [?t]" by simp
    have "t_id ?t = i0" "t_organizationId ?t = ao_organizationId a" "t_sourceType ?t = Some (ao_sourceType a)"
      "t_sourceReference ?t = Some (ao_sourceReference a)" "t_status ?t = PENDING_SETTLEMENT"
      by (simp_all add: stamp_insert_def new_obligation_def)
    with None tx' i show ?thesis by (auto simp: find_source_def find_append)
  qed
qed

text \<open>C16. One obligation per source fact. Recording the obligation of an event answers with the obligation of
  that source fact, and recording it again, by anyone, with whatever other figures, answers with the same
  obligation, says it is not new, and changes nothing at all.\<close>

theorem recorded_once_per_source:
  assumes "recordAuthorisedObligation rt a s = Inr ((i, fresh), s')"
    and "ao_organizationId b = ao_organizationId a" and "ao_sourceType b = ao_sourceType a"
    and "ao_sourceReference b = ao_sourceReference a"
  shows "recordAuthorisedObligation rt' b s' = Inr ((i, False), s') \<and>
    (if fresh then \<exists>t. txns s' = txns s @ [t] \<and> t_id t = i \<and> t_status t = PENDING_SETTLEMENT else txns s' = txns s)"
proof -
  from recordAuthorisedObligation_Inr [OF assms(1)] obtain t where
    "find_source s' (ao_organizationId b) (ao_sourceType b) (ao_sourceReference b) = Some t" "t_id t = i"
    "if fresh then t_status t = PENDING_SETTLEMENT \<and> txns s' = txns s @ [t] else txns s' = txns s"
    using assms(2-4) by auto
  then show ?thesis by (auto simp: recordAuthorisedObligation_def findBySource_def action_simps)
qed

theorem recorded_once_per_source_witness:
  "\<exists>i fresh s'. recordAuthorisedObligation scenario_rt scenario_statement scenario_due = Inr ((i, fresh), s') \<and>
     recordAuthorisedObligation scenario_rt (scenario_statement\<lparr>ao_grossAmountMinor := 7\<rparr>) s' = Inr ((i, False), s')"
proof -
  have "case recordAuthorisedObligation scenario_rt scenario_statement scenario_due of
      Inl e \<Rightarrow> False | Inr (x, s') \<Rightarrow> fst x = obligation_of scenario_due \<and> \<not> snd x"
    using scenario_due_facts unfolding Let_def by blast
  then obtain i fresh s' where r: "recordAuthorisedObligation scenario_rt scenario_statement scenario_due = Inr ((i, fresh), s')"
    by (cases "recordAuthorisedObligation scenario_rt scenario_statement scenario_due") auto
  from recorded_once_per_source [OF r, of "scenario_statement\<lparr>ao_grossAmountMinor := 7\<rparr>"] r show ?thesis by auto
qed

section \<open>Refunding\<close>

lemma refused_statement:
  assumes "authorizeAct rt t cmd s = Inr (fa, s')" and "cmd \<in> {CMD_REFUND, CMD_CANCEL}"
  shows "t_sourceType t \<noteq> Some STATEMENT_SOURCE_TYPE"
  using assms by (auto simp: authorizeAct_def refuseStatementWithdrawal_def STATEMENT_WITHDRAWAL_REFUSED_def action_Inr split: if_splits)

lemma refund_edge:
  "nextStatus st REFUND No_Facts = Inr target \<Longrightarrow> st \<in> {HELD, PENDING_SETTLEMENT, DISPUTED} \<and> target = REFUNDED"
  by (auto dest!: nextStatus_Inr TRANSITIONS_cases)

text \<open>The hold a refund finds is refunded, and nothing else moves.\<close>

lemma refund_hold_Inr:
  assumes ok: "books_ok s" and w: "w \<in> set (wallets s)"
    and h: "\<And>h. hold = Some h \<Longrightarrow> h \<in> set (holds s) \<and> h_status h = H_ACTIVE"
    and r: "refund_hold rt w i reason hold s = Inr (u, s')"
  shows "business_part s' = business_part s \<and>
    (\<exists>amount. (case hold of None \<Rightarrow> amount = 0
        | Some h \<Rightarrow> amount = h_amountMinor h \<and> (\<forall>h'\<in>set (holds s'). h_id h' = h_id h \<longrightarrow> h_status h' = H_REFUNDED)) \<and>
       (\<forall>k. bal_at s' k = bal_at s k + (if k = (w_organizationId w, WALLET, w_currency w) then amount else 0) -
          (if k = (w_organizationId w, ESCROW, w_currency w) then amount else 0)))"
proof (cases hold)
  case None
  with r show ?thesis by (auto simp: refund_hold_def action_Inr)
next
  case (Some g)
  with r obtain x where x: "refundHold (runUnscoped rt) w (h_id g) TRANSACTION i reason (actor_name rt) s = Inr (x, s')"
    by (auto simp: refund_hold_def action_Inr)
  have bp: "business_part s' = business_part s" by (rule unchangedD [OF unchanged_business_wallet(5) x])
  have "distinct (map h_id (holds s))" using ok by (simp add: books_ok_def wallet_ok_def holds_ok_def)
  then have g: "hold_of s (h_id g) = Some g" "h_status g = H_ACTIVE"
    using h [OF Some] by (auto simp: hold_of_def intro!: find_unique dest: distinct_map_eq)
  from x g obtain jid amount b where y: "x = Some (jid, amount, b)"
    by (auto simp: refundHold_def findHoldById_def isHoldFunded_def action_Inr)
  from refundHold_Inr [OF ok w x [unfolded y]] g bp Some show ?thesis by auto
qed

text \<open>C12. A refund gives back what was held. When a refund answers, in whatever state the service has reached,
  the obligation was held, awaiting settlement or disputed, was no statement's, and is REFUNDED with its terms
  unchanged; nothing was settled or charged; the only balances that moved are the payer's escrow and wallet,
  by the whole amount of the active hold of the obligation, which is refunded, or by nothing when there was
  none; and there was none only if the database knows no active hold for it.\<close>

theorem refund_gives_back_the_hold:
  assumes "reachable s" and "refund rt i reason s = Inr (x, s')"
  shows "\<exists>t u hold. txn_of s i = Some t \<and> t_status t \<in> {HELD, PENDING_SETTLEMENT, DISPUTED} \<and>
    t_sourceType t \<noteq> Some STATEMENT_SOURCE_TYPE \<and>
    txn_of s' i = Some u \<and> t_status u = REFUNDED \<and> terms_of u = terms_of t \<and> charge_part s' = charge_part s \<and>
    (case hold of
       None \<Rightarrow> (\<forall>k. bal_at s' k = bal_at s k) \<and> (\<forall>h\<in>set (transaction_holds s i (t_organizationId t)). h_status h \<noteq> H_ACTIVE)
     | Some h \<Rightarrow> h \<in> set (holds s) \<and> h_status h = H_ACTIVE \<and> h_reference h = i \<and> h_referenceType h = TRANSACTION \<and>
         (\<forall>h'\<in>set (holds s'). h_id h' = h_id h \<longrightarrow> h_status h' = H_REFUNDED) \<and>
         (\<forall>k. bal_at s' k = bal_at s k +
            (if k = (t_organizationId t, WALLET, t_currency t) then h_amountMinor h else 0) -
            (if k = (t_organizationId t, ESCROW, t_currency t) then h_amountMinor h else 0)))"
proof -
  have "refund_within rt i reason s = Inr (x, s')" using assms(2) by (simp add: refund_def transaction_Inr)
  then obtain t fa s1 target wallet locked rest hold u1 u2 s2 s3 n at c s5 u s6 where
    t: "txn_of s i = Some t" and au: "authorizeAct rt t CMD_REFUND s = Inr (fa, s1)"
    and ns: "nextStatus (t_status t) REFUND No_Facts = Inr target"
    and fw: "find_wallet s1 (t_organizationId t) (t_currency t) = Some wallet"
    and lk: "locked_rows s1 [w_id wallet] = locked # rest"
    and fh: "findActiveHold (w_id wallet) (t_organizationId t) i TRANSACTION s1 = Inr (hold, s1)"
    and fu: "(\<exists>h\<in>set (transaction_holds s (t_id t) (t_organizationId t)). h_status h = H_ACTIVE) \<longrightarrow> hold \<noteq> None"
    and rc: "reconfirmFinancialAuthority rt fa s1 = Inr (u1, s2)"
    and rh: "refund_hold rt locked i reason hold s2 = Inr (u2, s3)"
    and tr: "transition rt i (t_status t) target (\<lambda>u. u\<lparr>t_failureReason := Some reason, t_refundedAt := Some at,
        t_refundedBy := Some (actor_name rt)\<rparr>) (s3\<lparr>ticks := n\<rparr>) = Inr (c, s5)" "c \<noteq> 0"
    and an: "announce rt t ACT_REFUND (Some (t_status t)) target (actor_name rt) at None s5 = Inr (u, s6)"
    and ge: "get_transaction rt i s6 = Inr (x, s')"
    by (rule refund_within_steps)
  let ?extra = "\<lambda>u. u\<lparr>t_failureReason := Some reason, t_refundedAt := Some at, t_refundedBy := Some (actor_name rt)\<rparr>"
  let ?f = "moved_row rt (ticks (s3\<lparr>ticks := n\<rparr>)) i (t_status t) target ?extra"
  have parts: "f s2 = f s1" if "tickless f" for f by (rule unchangedD [OF unchanged_access(2) [OF that] rc])
  note a1 = authorizeAct_same [OF au]
  have p2: "ledger_part s2 = ledger_part s" "wallet_part s2 = wallet_part s" "txns s2 = txns s" "charge_part s2 = charge_part s"
    using parts [of ledger_part] parts [of wallet_part] parts [of txn_part] parts [of charge_part] a1
    by (simp_all add: txn_part_def)
  have ws: "wallets s1 = wallets s" "holds s1 = holds s" "wallets s2 = wallets s" "holds s2 = holds s"
    using a1(4) p2(2) by (simp_all add: wallet_part_def)
  have ok: "books_ok s" using scenario_books [OF assms(1)] by blast
  then have ok2: "books_ok s2" using books_ok_cong [of s2 s] p2 by blast
  have wl: "wallet \<in> set (wallets s)" "wallet_key wallet = (t_organizationId t, t_currency t)"
    using find_wallet_SomeD [OF fw] ws by simp_all
  have "locked \<in> set (wallets s)" "w_id locked = w_id wallet" using locked_rows_mem [OF lk] ws by simp_all
  with wl ok have lw: "locked = wallet" by (auto simp: books_ok_def wallet_ok_def wallets_unique_def dest: distinct_map_eq)
  have hd: "h \<in> set (holds s2) \<and> h_status h = H_ACTIVE \<and> h_reference h = i \<and> h_referenceType h = TRANSACTION" if "hold = Some h" for h
    using fh that ws by (auto simp: findActiveHold_def dest: find_SomeD)
  have "business_part s3 = business_part s2 \<and>
    (\<exists>amount. (case hold of None \<Rightarrow> amount = 0
        | Some h \<Rightarrow> amount = h_amountMinor h \<and> (\<forall>h'\<in>set (holds s3). h_id h' = h_id h \<longrightarrow> h_status h' = H_REFUNDED)) \<and>
       (\<forall>k. bal_at s3 k = bal_at s2 k + (if k = (w_organizationId locked, WALLET, w_currency locked) then amount else 0) -
          (if k = (w_organizationId locked, ESCROW, w_currency locked) then amount else 0)))"
    by (rule refund_hold_Inr [OF ok2 _ _ rh]) (use hd wl(1) lw ws in auto)
  then obtain amount where b3: "business_part s3 = business_part s2"
    and am: "case hold of None \<Rightarrow> amount = 0
        | Some h \<Rightarrow> amount = h_amountMinor h \<and> (\<forall>h'\<in>set (holds s3). h_id h' = h_id h \<longrightarrow> h_status h' = H_REFUNDED)"
    and mv: "\<And>k. bal_at s3 k = bal_at s2 k + (if k = (t_organizationId t, WALLET, t_currency t) then amount else 0) -
          (if k = (t_organizationId t, ESCROW, t_currency t) then amount else 0)"
    using wl(2) lw unfolding wallet_key_def by auto
  note tr' = transition_Inr [OF tr(1)]
  from announce_Inr [OF an] have d6: "same_data s5 s6" by blast
  have s6: "s' = s6" by (rule get_transaction_same [OF ge])
  have f3: "ledger_part s' = ledger_part s3" "holds s' = holds s3" "charge_part s' = charge_part s3" "txns s' = map ?f (txns s3)"
    using tr' d6 s6 by (simp_all add: same_data_def ledger_part_def charge_part_def)
  then have fin: "holds s' = holds s3" "charge_part s' = charge_part s" "txns s' = map ?f (txns s)"
    using b3 p2 by (simp_all add: business_part_def txn_part_def)
  have b3': "bal_at s' k = bal_at s3 k" for k by (rule bal_at_cong [OF f3(1)])
  have b2: "bal_at s2 k = bal_at s k" for k by (rule bal_at_cong [OF p2(1)])
  have kt: "keeps_terms ?extra" by simp
  have "txn_of s' i = Some (?f t)" using txn_of_mapped [OF moved_row_id [OF kt] fin(3)] t by simp
  moreover have "t_status (?f t) = REFUNDED"
    using txn_of_SomeD [OF t] refund_edge [OF ns] by (simp add: moved_row_def)
  moreover have "terms_of (?f t) = terms_of t" by (rule moved_row_terms [OF kt])
  moreover have "case hold of
       None \<Rightarrow> (\<forall>k. bal_at s' k = bal_at s k) \<and> (\<forall>h\<in>set (transaction_holds s i (t_organizationId t)). h_status h \<noteq> H_ACTIVE)
     | Some h \<Rightarrow> h \<in> set (holds s) \<and> h_status h = H_ACTIVE \<and> h_reference h = i \<and> h_referenceType h = TRANSACTION \<and>
         (\<forall>h'\<in>set (holds s'). h_id h' = h_id h \<longrightarrow> h_status h' = H_REFUNDED) \<and>
         (\<forall>k. bal_at s' k = bal_at s k +
            (if k = (t_organizationId t, WALLET, t_currency t) then h_amountMinor h else 0) -
            (if k = (t_organizationId t, ESCROW, t_currency t) then h_amountMinor h else 0))"
    using am mv fin(1) b2 b3' hd fu ws txn_of_SomeD [OF t] by (cases hold) simp_all
  ultimately show ?thesis
    using t refund_edge [OF ns] refused_statement [OF au] fin(2)
    by (intro exI [of _ t] exI [of _ "?f t"] exI [of _ hold] conjI) simp_all
qed

theorem refund_gives_back_the_hold_witness:
  "\<exists>x s' t u. refund scenario_rt (obligation_of scenario_held) ''r'' scenario_held = Inr (x, s') \<and>
     txn_of s' (obligation_of scenario_held) = Some u \<and> t_status u = REFUNDED \<and> charge_part s' = charge_part scenario_held"
proof -
  have "\<not> isl (refund scenario_rt (obligation_of scenario_held) ''r'' scenario_held)"
    using scenario_refunds unfolding Let_def by blast
  then obtain x s' where r: "refund scenario_rt (obligation_of scenario_held) ''r'' scenario_held = Inr (x, s')"
    using not_isl_obtain by fastforce
  from refund_gives_back_the_hold [OF reachable_scenario_held r] r show ?thesis by blast
qed

end
