(* ===== verification/Statements.thy ===== *)
theory Statements
  imports Obligation_Contracts
begin

text \<open>
  Disputes decided by name, and the obligations of construction statements: never withdrawn, and read
  without a defect in every state the service reaches.
\<close>

text \<open>C17. A decision is about the dispute it names. When a dispute is resolved naming its identity, the
  obligation was DISPUTED over exactly that dispute; it is settlement-ready afterwards only when the
  database's own predicates say so (authorised, or nothing held, and not barred), and goes back to HELD
  otherwise; and the row records which dispute was decided.\<close>

theorem decision_names_its_dispute:
  assumes "resolveDispute rt i resolution (Some d) s = Inr (x, s')"
  shows "\<exists>t u. txn_of s i = Some t \<and> t_status t = DISPUTED \<and> t_disputeId t = Some d \<and>
    txn_of s' i = Some u \<and> t_resolvedDisputeId u = Some d \<and> t_disputeResolution u = Some resolution \<and>
    t_status u = (if \<not> transaction_settlement_barred s i \<and>
        (transaction_settlement_authorised s i (t_settlementAuthorisedAt t \<noteq> None) \<or>
         (\<forall>h\<in>set (transaction_holds s i (t_organizationId t)). h_status h \<noteq> H_ACTIVE))
      then PENDING_SETTLEMENT else HELD)"
proof -
  let ?extra = "\<lambda>at t. t\<lparr>t_disputeResolvedAt := Some at, t_disputeResolvedBy := Some (actor_name rt),
      t_disputeResolution := Some resolution\<rparr>"
  have kt: "keeps_terms (?extra at)" for at by simp
  from assms obtain t fa s1 target c u1 s5 u2 s6 where
    t: "txn_of s i = Some t" and d: "t_disputeId t = Some d"
    and au: "authorizeAct rt t CMD_RESOLVE_DISPUTE s = Inr (fa, s1)"
    and ns: "nextStatus (t_status t) RESOLVE_DISPUTE
       (Authority (lock_authority \<lparr>lt_row = t,
        lt_settlementAuthorised = transaction_settlement_authorised s (t_id t) (t_settlementAuthorisedAt t \<noteq> None),
        lt_settlementBarred = transaction_settlement_barred s (t_id t),
        lt_fundsHeld = (\<exists>h\<in>set (transaction_holds s (t_id t) (t_organizationId t)). h_status h = H_ACTIVE)\<rparr>)) = Inr target"
    and tr: "transition rt i (t_status t) target (?extra (clock_timestamp rt (ticks s1))) (s1\<lparr>ticks := Suc (ticks s1)\<rparr>) = Inr (c, s5)"
    and an: "announce rt t ACT_RESOLVE_DISPUTE (Some (t_status t)) target (actor_name rt) (clock_timestamp rt (ticks s1)) None s5 = Inr (u2, s6)"
    and ge: "get_transaction rt i s6 = Inr (x, s')"
    by (auto simp: resolveDispute_def Let_def move_def transaction_Inr move_within_def lockForUpdate_def action_Inr databaseNow_Inr)
  let ?f = "moved_row rt (Suc (ticks s1)) i (t_status t) target (?extra (clock_timestamp rt (ticks s1)))"
  from announce_Inr [OF an] have "txns s6 = txns s5" by (auto simp: same_data_def)
  with transition_Inr [OF tr] authorizeAct_same(1) [OF au] get_transaction_same [OF ge]
  have tx: "txns s' = map ?f (txns s)" by simp
  have u: "txn_of s' i = Some (?f t)" using txn_of_mapped [OF moved_row_id [OF kt] tx] t by simp
  have st: "t_status t = DISPUTED" using ns by (auto dest!: nextStatus_Inr TRANSITIONS_cases)
  note i = txn_of_SomeD [OF t]
  have "target = (if \<not> transaction_settlement_barred s i \<and>
        (transaction_settlement_authorised s i (t_settlementAuthorisedAt t \<noteq> None) \<or>
         (\<forall>h\<in>set (transaction_holds s i (t_organizationId t)). h_status h \<noteq> H_ACTIVE))
      then PENDING_SETTLEMENT else HELD)"
    using ns i st by (auto simp: nextStatus_def resolvedStatus_def isSettlementReady_def lock_authority_def)
  moreover from this have "target \<in> {PENDING_SETTLEMENT, HELD}" by simp
  then have "t_status (?f t) = target" "t_resolvedDisputeId (?f t) = Some d" "t_disputeResolution (?f t) = Some resolution"
    using i st d by (auto simp: moved_row_def stamp_update_def)
  ultimately show ?thesis using t st d u by auto
qed

theorem decision_names_its_dispute_witness:
  "\<exists>d x s' u. resolveDispute scenario_rt (obligation_of scenario_disputed) ''y'' (Some d) scenario_disputed = Inr (x, s') \<and>
     txn_of s' (obligation_of scenario_disputed) = Some u \<and> t_resolvedDisputeId u = Some d"
proof -
  let ?i = "obligation_of scenario_disputed"
  let ?d = "the (t_disputeId (the (txn_of scenario_disputed ?i)))"
  have "\<not> isl (resolveDispute scenario_rt ?i ''y'' (Some ?d) scenario_disputed)"
    using scenario_resolves unfolding Let_def by blast
  then obtain x s' where r: "resolveDispute scenario_rt ?i ''y'' (Some ?d) scenario_disputed = Inr (x, s')"
    using not_isl_obtain by fastforce
  from decision_names_its_dispute [OF r] r show ?thesis by blast
qed

text \<open>C18. A statement's obligation is never withdrawn: refunding or cancelling it is refused, whoever asks and in
  whatever status it is.\<close>

theorem statement_never_withdrawn:
  assumes "txn_of s i = Some t" and "t_sourceType t = Some STATEMENT_SOURCE_TYPE"
  shows "isl (refund rt i reason s) \<and> isl (cancel rt i reason s)"
proof (rule ccontr)
  assume "\<not> ?thesis"
  then consider x s' where "refund rt i reason s = Inr (x, s')" | x s' where "cancel rt i reason s = Inr (x, s')"
    using not_isl_obtain by fastforce
  then show False
  proof cases
    case 1
    then have "refund_within rt i reason s = Inr (x, s')" by (simp add: refund_def transaction_Inr)
    then obtain v fa s1 where "txn_of s i = Some v" "authorizeAct rt v CMD_REFUND s = Inr (fa, s1)"
      by (rule refund_within_steps)
    with assms refused_statement show False by fastforce
  next
    case 2
    then obtain v fa s1 where "txn_of s i = Some v" "authorizeAct rt v CMD_CANCEL s = Inr (fa, s1)"
      by (auto simp: cancel_def Let_def move_def transaction_Inr move_within_def lockForUpdate_def action_Inr)
    with assms refused_statement show False by fastforce
  qed
qed

theorem statement_never_withdrawn_witness:
  "isl (refund scenario_rt (obligation_of scenario_due) ''r'' scenario_due) \<and>
   isl (cancel scenario_rt (obligation_of scenario_due) ''r'' scenario_due)"
proof -
  have "txn_of scenario_due (obligation_of scenario_due) \<noteq> None"
    "t_sourceType (the (txn_of scenario_due (obligation_of scenario_due))) = Some ''STATEMENT''"
    using scenario_due_facts unfolding Let_def by blast+
  then show ?thesis by (intro statement_never_withdrawn) (auto simp: STATEMENT_SOURCE_TYPE_def)
qed

lemma fullySettledOf_reachable:
  assumes re: "reachable s" and fs: "find_source s org STATEMENT_SOURCE_TYPE sid = Some row"
  defines "st \<equiv> find (\<lambda>x. s_organizationId x = org \<and> s_transactionId x = t_id row) (settlements s)"
  shows "fullySettledOf row st = Inr (t_status row = SETTLED) \<and>
    (if t_status row = SETTLED then \<exists>x. st = Some x \<and> s_grossAmountMinor x = t_grossAmountMinor row else st = None)"
proof -
  have ok: "settled_ok s" "txns_ok s" using reachable_service_ok [OF re] by (simp_all add: service_ok_def)
  note r = find_source_mem [OF fs]
  have one: "t = row" if "t \<in> set (txns s)" "t_id t = t_id row" for t
    using that r ok(2) by (auto simp: txns_ok_def dest: distinct_map_eq)
  have st: "\<exists>t\<in>set (txns s). t_id t = s_transactionId x \<and> t_status t = SETTLED \<and> t_grossAmountMinor t = s_grossAmountMinor x"
    if "x \<in> set (settlements s)" for x using that ok(1) unfolding settled_ok_def by blast
  show ?thesis
  proof (cases st)
    case None
    have "t_status row \<noteq> SETTLED"
    proof
      assume "t_status row = SETTLED"
      with ok(1) r obtain x where "x \<in> set (settlements s)" "s_transactionId x = t_id row" "s_organizationId x = org"
        unfolding settled_ok_def settled_status_def by blast
      with None show False unfolding st_def by (auto simp: find_None_iff)
    qed
    with None show ?thesis by (simp add: fullySettledOf_def)
  next
    case (Some x)
    then have x: "x \<in> set (settlements s)" "s_transactionId x = t_id row" unfolding st_def by (auto dest: find_SomeD)
    from st [OF x(1)] x(2) one have "t_status row = SETTLED" "t_grossAmountMinor row = s_grossAmountMinor x" by auto
    with Some show ?thesis by (simp add: fullySettledOf_def)
  qed
qed

text \<open>C19. The statement reader never meets a defect. In every reachable state the read of a statement's obligation
  by its payer never fails because of a settled obligation without a settlement of its whole amount, or of a
  settlement of an obligation that is not settled; an answer says fully settled exactly when the obligation
  is SETTLED, then with the settlement of exactly its amount and otherwise with none; and reading changes
  nothing.\<close>

theorem statement_reader_meets_no_defect:
  assumes "reachable s"
  shows "(\<forall>e. statementObligation rt sid s = Inl e \<longrightarrow>
      e \<notin> {PlainError ''SETTLED obligation has no settlement of its whole amount'',
           PlainError ''Obligation has a settlement but is not SETTLED''}) \<and>
    (\<forall>v s'. statementObligation rt sid s = Inr (v, s') \<longrightarrow> s' = s \<and> (so_fullySettled v \<longleftrightarrow> so_status v = SETTLED) \<and>
      so_settledAmountMinor v = (if so_status v = SETTLED then Some (so_amountMinor v) else None) \<and>
      (so_settlementId v = None \<longleftrightarrow> so_status v \<noteq> SETTLED))"
proof -
  have f: "fullySettledOf row st = Inr (t_status row = SETTLED) \<and>
    (if t_status row = SETTLED then \<exists>x. st = Some x \<and> s_grossAmountMinor x = t_grossAmountMinor row else st = None)"
    if "find_source s org STATEMENT_SOURCE_TYPE sid = Some row"
      "st = find (\<lambda>x. s_organizationId x = org \<and> s_transactionId x = t_id row) (settlements s)" for org row st
    using fullySettledOf_reachable [OF assms that(1)] that(2) by simp
  have "e \<notin> {PlainError ''SETTLED obligation has no settlement of its whole amount'',
           PlainError ''Obligation has a settlement but is not SETTLED''}" if "statementObligation rt sid s = Inl e" for e
    using that f unfolding statementObligation_def findStatementObligation_def
    by (fastforce simp: action_simps assertStatementObligationReadCaller_def assertE_def forbidden_def
        toStatementObligationView_def getOrganizationId_def split: if_splits option.splits sum.splits)
  moreover have "s' = s \<and> (so_fullySettled v \<longleftrightarrow> so_status v = SETTLED) \<and>
      so_settledAmountMinor v = (if so_status v = SETTLED then Some (so_amountMinor v) else None) \<and>
      (so_settlementId v = None \<longleftrightarrow> so_status v \<noteq> SETTLED)" if "statementObligation rt sid s = Inr (v, s')" for v s'
    using that f unfolding statementObligation_def findStatementObligation_def
    by (fastforce simp: action_Inr toStatementObligationView_def split: if_splits option.splits)
  ultimately show ?thesis by blast
qed

lemma scenario_reads:
  "case statementObligation scenario_rt ''m'' scenario_settled of Inl e \<Rightarrow> False | Inr (v, s') \<Rightarrow> so_status v = SETTLED"
  by code_simp

theorem statement_reader_meets_no_defect_witness:
  "\<exists>v. statementObligation scenario_rt ''m'' scenario_settled = Inr (v, scenario_settled) \<and> so_fullySettled v \<and>
     so_settledAmountMinor v = Some (so_amountMinor v)"
proof -
  from scenario_reads obtain v s' where v: "statementObligation scenario_rt ''m'' scenario_settled = Inr (v, s')"
    "so_status v = SETTLED" by (auto split: sum.splits)
  with statement_reader_meets_no_defect [OF reachable_scenario_settled, of scenario_rt "''m''"]
  show ?thesis by fastforce
qed

end
