(* ===== verification/Request_Hash.thy ===== *)
theory Request_Hash
  imports Money "HOL-Library.List_Lexorder" "HOL-Library.Char_ord"
begin

text \<open>
  The hash an idempotent request is recognised by: \<open>hashRequestBody\<close> of \<^verbatim>\<open>shared/idempotency.ts\<close>, the
  SHA-256 of the body's JSON text with its members in one order. SHA-256 itself is a parameter.
\<close>

section \<open>JSON text\<close>

definition hex_digit :: "nat \<Rightarrow> char" where
  "hex_digit n = ''0123456789abcdef'' ! (n mod 16)"

text \<open>\<open>QuoteJSONString\<close>, one character at a time.\<close>

definition escape_char :: "char \<Rightarrow> string" where
  "escape_char c =
     (let n = of_char c :: nat in
      if c = CHR 0x22 then [CHR 0x5C, CHR 0x22]
      else if c = CHR 0x5C then [CHR 0x5C, CHR 0x5C]
      else if n = 8 then [CHR 0x5C, CHR ''b'']
      else if n = 12 then [CHR 0x5C, CHR ''f'']
      else if n = 10 then [CHR 0x5C, CHR ''n'']
      else if n = 13 then [CHR 0x5C, CHR ''r'']
      else if n = 9 then [CHR 0x5C, CHR ''t'']
      else if n < 32 then [CHR 0x5C, CHR ''u'', CHR ''0'', CHR ''0'', hex_digit (n div 16), hex_digit n]
      else [c])"

definition quote :: "string \<Rightarrow> string" where
  "quote s = CHR 0x22 # concat (map escape_char s) @ [CHR 0x22]"

fun json_text :: "json \<Rightarrow> string" and
  element_text :: "json list \<Rightarrow> string" and more_elements :: "json list \<Rightarrow> string" and
  member_text :: "(string \<times> json) list \<Rightarrow> string" and more_members :: "(string \<times> json) list \<Rightarrow> string"
where
  "json_text JNull = ''null''"
| "json_text (JBool b) = (if b then ''true'' else ''false'')"
| "json_text (JNumber t) = t"
| "json_text (JString s) = quote s"
| "json_text (JArray xs) = CHR ''['' # element_text xs"
| "json_text (JObject ms) = CHR ''{'' # member_text ms"
| "element_text [] = '']''"
| "element_text (x # xs) = json_text x @ more_elements xs"
| "more_elements [] = '']''"
| "more_elements (x # xs) = CHR '','' # json_text x @ more_elements xs"
| "member_text [] = ''}''"
| "member_text ((k, v) # ms) = quote k @ CHR '':'' # json_text v @ more_members ms"
| "more_members [] = ''}''"
| "more_members ((k, v) # ms) = CHR '','' # quote k @ CHR '':'' # json_text v @ more_members ms"

section \<open>The canonical form\<close>

text \<open>
  The order an object lists its own keys in: the array indices first, ascending, then the other keys in
  the order they were added.
\<close>

definition is_array_index :: "string \<Rightarrow> bool" where
  "is_array_index k \<longleftrightarrow>
     digits_only k \<and> (hd k \<noteq> CHR ''0'' \<or> k = ''0'') \<and> BigInt k < 2 ^ 32 - 1"

definition own_key_order :: "(string \<times> 'v) list \<Rightarrow> (string \<times> 'v) list" where
  "own_key_order ms =
     sort_key (\<lambda>m. BigInt (fst m)) (filter (\<lambda>m. is_array_index (fst m)) ms) @
     filter (\<lambda>m. \<not> is_array_index (fst m)) ms"

fun sortKeys :: "json \<Rightarrow> json" where
  "sortKeys (JArray xs) = JArray (map sortKeys xs)"
| "sortKeys (JObject ms) = JObject (own_key_order (sort_key fst (map (\<lambda>(k, v). (k, sortKeys v)) ms)))"
| "sortKeys v = v"

definition canonicalise :: "json \<Rightarrow> string" where
  "canonicalise v = json_text (sortKeys v)"

definition hashRequestBody :: "(string \<Rightarrow> string) \<Rightarrow> json \<Rightarrow> string" where
  "hashRequestBody sha256 body = sha256 (canonicalise body)"

text \<open>\<open>targeted\<close>: the request of a route that acts on one resource.\<close>

definition targeted :: "string \<Rightarrow> json option \<Rightarrow> json" where
  "targeted i body =
     (case body of None \<Rightarrow> JObject [(''id'', JString i)]
      | Some b \<Rightarrow> JObject [(''id'', JString i), (''body'', b)])"


section \<open>The text determines the body\<close>

fun unescape :: "string \<Rightarrow> char \<times> string" where
  "unescape (c # d # u) =
     (if c \<noteq> CHR 0x5C then (c, d # u)
      else if d = CHR ''b'' then (char_of (8 :: nat), u)
      else if d = CHR ''f'' then (char_of (12 :: nat), u)
      else if d = CHR ''n'' then (char_of (10 :: nat), u)
      else if d = CHR ''r'' then (char_of (13 :: nat), u)
      else if d = CHR ''t'' then (char_of (9 :: nat), u)
      else if d = CHR ''u''
      then (char_of (16 * (if u ! 2 = CHR ''1'' then 1 else 0) +
              (if u ! 3 = CHR ''b'' then 11 else if u ! 3 = CHR ''e'' then 14 else if u ! 3 = CHR ''f'' then 15
               else if u ! 3 = CHR ''c'' then 12 else if u ! 3 = CHR ''d'' then 13 else if u ! 3 = CHR ''a'' then 10
               else of_char (u ! 3) - 48) :: nat), drop 4 u)
      else (d, u))"
| "unescape [c] = (c, [])"
| "unescape [] = (CHR '' '', [])"

lemma escape_char_plain:
  "c \<noteq> CHR 0x22 \<Longrightarrow> c \<noteq> CHR 0x5C \<Longrightarrow> \<not> (of_char c :: nat) < 32 \<Longrightarrow> escape_char c = [c]"
  by (auto simp: escape_char_def Let_def)

lemma escape_char_control:
  "(n :: nat) < 32 \<Longrightarrow> unescape (escape_char (char_of n) @ u) = (char_of n, u)"
proof -
  assume "n < 32"
  then have "n \<in> set [0 ..< 32]" by simp
  also have "[0 ..< 32] = [0 :: nat, 1, 2, 3, 4, 5, 6, 7, 8, 9, 10, 11, 12, 13, 14, 15, 16, 17, 18, 19, 20, 21, 22,
      23, 24, 25, 26, 27, 28, 29, 30, 31]" by (simp add: upt_rec)
  finally show ?thesis
    by (simp only: list.set insert_iff empty_iff, elim disjE) (simp_all add: escape_char_def Let_def hex_digit_def)
qed

lemma unescape_escape: "unescape (escape_char c @ u) = (c, u)"
proof -
  consider "c = CHR 0x22" | "c = CHR 0x5C" | "(of_char c :: nat) < 32"
    | "c \<noteq> CHR 0x22" "c \<noteq> CHR 0x5C" "\<not> (of_char c :: nat) < 32" by blast
  then show ?thesis
  proof cases
    case 3
    have "c = char_of (of_char c :: nat)" by simp
    with escape_char_control [OF 3] show ?thesis by metis
  next
    case 4
    then show ?thesis by (cases u) (simp_all add: escape_char_plain)
  qed (simp_all add: escape_char_def Let_def)
qed

lemma escape_char_inj: "escape_char c @ u = escape_char d @ v \<Longrightarrow> c = d \<and> u = v"
  by (metis Pair_inject unescape_escape)

lemma escape_char_start: "\<exists>x xs. escape_char c = x # xs \<and> x \<noteq> CHR 0x22"
  by (auto simp: escape_char_def Let_def)

lemma escapes_inj:
  "concat (map escape_char s) @ CHR 0x22 # u = concat (map escape_char t) @ CHR 0x22 # v \<Longrightarrow> s = t \<and> u = v"
proof (induction s arbitrary: t)
  case Nil
  then show ?case using escape_char_start [of "hd t"] by (cases t) auto
next
  case (Cons c s)
  show ?case
  proof (cases t)
    case Nil
    with Cons.prems escape_char_start [of c] show ?thesis by auto
  next
    case (Cons d t')
    with Cons.prems have "escape_char c @ (concat (map escape_char s) @ CHR 0x22 # u) =
        escape_char d @ (concat (map escape_char t') @ CHR 0x22 # v)" by simp
    from escape_char_inj [OF this] Cons.IH [of t'] Cons show ?thesis by simp
  qed
qed

lemma quote_inj: "quote s @ u = quote t @ v \<Longrightarrow> s = t \<and> u = v"
  using escapes_inj [of s u t v] by (simp add: quote_def)

text \<open>The texts of numbers, and what can follow a value.\<close>

definition number_char :: "char \<Rightarrow> bool" where
  "number_char c \<longleftrightarrow> is_digit c \<or> c \<in> {CHR ''-'', CHR ''+'', CHR ''.'', CHR ''e''}"

definition number_text :: "string \<Rightarrow> bool" where
  "number_text t \<longleftrightarrow> list_all number_char t \<and> (case t of [] \<Rightarrow> False | c # cs \<Rightarrow> is_digit c \<or> c = CHR ''-'')"

fun numbers_ok :: "json \<Rightarrow> bool" where
  "numbers_ok (JNumber t) = number_text t"
| "numbers_ok (JArray xs) = list_all numbers_ok xs"
| "numbers_ok (JObject ms) = list_all (\<lambda>(k, v). numbers_ok v) ms"
| "numbers_ok v = True"

definition ends_value :: "string \<Rightarrow> bool" where
  "ends_value u \<longleftrightarrow> (case u of [] \<Rightarrow> True | c # cs \<Rightarrow> c \<in> {CHR '','', CHR '']'', CHR ''}''})"

lemma ends_value_simps [simp]:
  "ends_value []" "ends_value (CHR '','' # u)" "ends_value (CHR '']'' # u)" "ends_value (CHR ''}'' # u)"
  by (simp_all add: ends_value_def)

lemma ends_value_number: "ends_value u \<Longrightarrow> takeWhile number_char u = []"
  by (auto simp: ends_value_def number_char_def is_digit_def split: list.splits)

lemma more_ends [simp]: "ends_value (more_elements xs @ u)" "ends_value (more_members ms @ u)"
  by (cases xs; simp) (cases ms; auto)

lemma number_inj:
  assumes "number_text s" "number_text t" "ends_value u" "ends_value v" "s @ u = t @ v"
  shows "s = t \<and> u = v"
proof -
  have "takeWhile number_char (s @ u) = s"
    using assms(1,3) by (simp add: number_text_def list_all_iff ends_value_number)
  moreover have "takeWhile number_char (t @ v) = t"
    using assms(2,4) by (simp add: number_text_def list_all_iff ends_value_number)
  ultimately show ?thesis using assms(5) by simp
qed

lemma value_start: "numbers_ok a \<Longrightarrow> \<exists>c cs. json_text a = c # cs \<and>
  (case a of JNull \<Rightarrow> c = CHR ''n'' | JBool b \<Rightarrow> c = (if b then CHR ''t'' else CHR ''f'')
   | JNumber t \<Rightarrow> is_digit c \<or> c = CHR ''-'' | JString s \<Rightarrow> c = CHR 0x22
   | JArray xs \<Rightarrow> c = CHR ''['' | JObject ms \<Rightarrow> c = CHR ''{'')"
  by (cases a) (auto simp: quote_def number_text_def split: list.splits)

lemma not_digit_start [simp]:
  "\<not> is_digit (CHR ''n'')" "\<not> is_digit (CHR ''t'')" "\<not> is_digit (CHR ''f'')" "\<not> is_digit (CHR 0x22)"
  "\<not> is_digit (CHR ''['')" "\<not> is_digit (CHR ''{'')"
  by (simp_all add: is_digit_def)

lemma same_kind:
  assumes "numbers_ok a" "numbers_ok b" "json_text a @ u = json_text b @ v"
  shows "(case a of JNull \<Rightarrow> b = JNull | JBool x \<Rightarrow> b = JBool x | JNumber t \<Rightarrow> (\<exists>t'. b = JNumber t')
    | JString s \<Rightarrow> (\<exists>s'. b = JString s') | JArray xs \<Rightarrow> (\<exists>xs'. b = JArray xs') | JObject ms \<Rightarrow> (\<exists>ms'. b = JObject ms'))"
  using value_start [OF assms(1)] value_start [OF assms(2)] assms(3)
  by (cases a; cases b) (auto split: if_splits)

lemma value_not_close: "numbers_ok a \<Longrightarrow> json_text a @ u \<noteq> CHR '']'' # w"
  using value_start [of a] by (cases a) (auto simp: is_digit_def split: if_splits)

lemma quote_not_close: "quote k @ u \<noteq> CHR ''}'' # w"
  by (simp add: quote_def)

lemma json_text_inj:
  "numbers_ok a \<Longrightarrow> numbers_ok b \<Longrightarrow> ends_value u \<Longrightarrow> ends_value v \<Longrightarrow> json_text a @ u = json_text b @ v \<Longrightarrow>
     a = b \<and> u = v"
  "list_all numbers_ok xs \<Longrightarrow> list_all numbers_ok ys \<Longrightarrow> element_text xs @ u = element_text ys @ v \<Longrightarrow> xs = ys \<and> u = v"
  "list_all numbers_ok xs \<Longrightarrow> list_all numbers_ok ys \<Longrightarrow> more_elements xs @ u = more_elements ys @ v \<Longrightarrow> xs = ys \<and> u = v"
  "list_all (\<lambda>(k, v). numbers_ok v) ms \<Longrightarrow> list_all (\<lambda>(k, v). numbers_ok v) ns \<Longrightarrow>
     member_text ms @ u = member_text ns @ v \<Longrightarrow> ms = ns \<and> u = v"
  "list_all (\<lambda>(k, v). numbers_ok v) ms \<Longrightarrow> list_all (\<lambda>(k, v). numbers_ok v) ns \<Longrightarrow>
     more_members ms @ u = more_members ns @ v \<Longrightarrow> ms = ns \<and> u = v"
proof (induction a and xs and xs and ms and ms arbitrary: b u v and ys u v and ys u v and ns u v and ns u v
    rule: json_text_element_text_more_elements_member_text_more_members.induct)
  case 1
  then show ?case using same_kind [of JNull b u v] by auto
next
  case (2 x)
  then show ?case using same_kind [of "JBool x" b u v] by auto
next
  case (3 t)
  then show ?case using same_kind [of "JNumber t" b u v] by (auto dest: number_inj)
next
  case (4 s)
  then show ?case using same_kind [of "JString s" b u v] by (auto dest: quote_inj)
next
  case (5 xs)
  from same_kind [OF "5.prems"(1,2,5)] obtain b' where b: "b = JArray b'" by auto
  from "5.prems" b "5.IH" [of b' u v] show ?case by simp
next
  case (6 ms)
  from same_kind [OF "6.prems"(1,2,5)] obtain b' where b: "b = JObject b'" by auto
  from "6.prems" b "6.IH" [of b' u v] show ?case by simp
next
  case 7
  show ?case
  proof (cases ys)
    case Nil
    with 7 show ?thesis by simp
  next
    case (Cons y zs)
    with 7 have "json_text y @ (more_elements zs @ v) = CHR '']'' # u" by simp
    with 7 Cons value_not_close [of y] show ?thesis by simp
  qed
next
  case (8 x xs)
  show ?case
  proof (cases ys)
    case Nil
    with "8.prems"(3) have "json_text x @ (more_elements xs @ u) = CHR '']'' # v" by simp
    then show ?thesis using "8.prems"(1) value_not_close [of x] by simp
  next
    case (Cons y zs)
    from "8.prems"(3) Cons have e: "json_text x @ (more_elements xs @ u) = json_text y @ (more_elements zs @ v)" by simp
    have xy: "x = y \<and> more_elements xs @ u = more_elements zs @ v"
      by (rule "8.IH"(1) [OF _ _ _ _ e]) (use "8.prems"(1,2) Cons in simp_all)
    have "xs = zs \<and> u = v" by (rule "8.IH"(2)) (use "8.prems"(1,2) Cons xy in simp_all)
    with xy Cons show ?thesis by simp
  qed
next
  case 9
  then show ?case by (cases ys) auto
next
  case (10 x xs)
  show ?case
  proof (cases ys)
    case Nil
    with "10.prems"(3) show ?thesis by simp
  next
    case (Cons y zs)
    from "10.prems"(3) Cons have e: "json_text x @ (more_elements xs @ u) = json_text y @ (more_elements zs @ v)" by simp
    have xy: "x = y \<and> more_elements xs @ u = more_elements zs @ v"
      by (rule "10.IH"(1) [OF _ _ _ _ e]) (use "10.prems"(1,2) Cons in simp_all)
    have "xs = zs \<and> u = v" by (rule "10.IH"(2)) (use "10.prems"(1,2) Cons xy in simp_all)
    with xy Cons show ?thesis by simp
  qed
next
  case 11
  show ?case
  proof (cases ns)
    case Nil
    with 11 show ?thesis by simp
  next
    case (Cons n ns')
    obtain l y where n: "n = (l, y)" by fastforce
    with 11 Cons have "quote l @ (CHR '':'' # json_text y @ more_members ns' @ v) = CHR ''}'' # u" by simp
    then show ?thesis using quote_not_close by blast
  qed
next
  case (12 k x ms)
  show ?case
  proof (cases ns)
    case Nil
    with "12.prems"(3) have "quote k @ (CHR '':'' # json_text x @ more_members ms @ u) = CHR ''}'' # v" by simp
    then show ?thesis using quote_not_close by blast
  next
    case (Cons n ns')
    obtain l y where n: "n = (l, y)" by fastforce
    from "12.prems"(3) Cons n have "quote k @ (CHR '':'' # json_text x @ more_members ms @ u) =
        quote l @ (CHR '':'' # json_text y @ more_members ns' @ v)" by simp
    from quote_inj [OF this] have e: "k = l \<and> json_text x @ (more_members ms @ u) = json_text y @ (more_members ns' @ v)"
      by simp
    have xy: "x = y \<and> more_members ms @ u = more_members ns' @ v"
      by (rule "12.IH"(1) [OF _ _ _ _ e [THEN conjunct2]]) (use "12.prems"(1,2) Cons n in simp_all)
    have "ms = ns' \<and> u = v" by (rule "12.IH"(2)) (use "12.prems"(1,2) Cons n xy in simp_all)
    with xy e Cons n show ?thesis by simp
  qed
next
  case 13
  then show ?case by (cases ns) auto
next
  case (14 k x ms)
  show ?case
  proof (cases ns)
    case Nil
    with "14.prems"(3) show ?thesis by simp
  next
    case (Cons n ns')
    obtain l y where n: "n = (l, y)" by fastforce
    from "14.prems"(3) Cons n have "quote k @ (CHR '':'' # json_text x @ more_members ms @ u) =
        quote l @ (CHR '':'' # json_text y @ more_members ns' @ v)" by simp
    from quote_inj [OF this] have e: "k = l \<and> json_text x @ (more_members ms @ u) = json_text y @ (more_members ns' @ v)"
      by simp
    have xy: "x = y \<and> more_members ms @ u = more_members ns' @ v"
      by (rule "14.IH"(1) [OF _ _ _ _ e [THEN conjunct2]]) (use "14.prems"(1,2) Cons n in simp_all)
    have "ms = ns' \<and> u = v" by (rule "14.IH"(2)) (use "14.prems"(1,2) Cons n xy in simp_all)
    with xy e Cons n show ?thesis by simp
  qed
qed

section \<open>The canonical form determines the body up to the order of members\<close>

lemma size_member: "(k, v) \<in> set ms \<Longrightarrow> size v < Suc (size_list (size_prod (\<lambda>_. 0) size) ms)"
  by (induction ms) auto

lemma size_element: "x \<in> set xs \<Longrightarrow> size x < Suc (size_list size xs)"
  by (induction xs) auto

text \<open>The same request: the same values, the members of objects in any order.\<close>

function same_body :: "json \<Rightarrow> json \<Rightarrow> bool" where
  "same_body (JArray xs) b =
     (case b of JArray ys \<Rightarrow> length xs = length ys \<and> (\<forall>(x, y)\<in>set (zip xs ys). same_body x y) | _ \<Rightarrow> False)"
| "same_body (JObject ms) b =
     (case b of JObject ns \<Rightarrow> fst ` set ms = fst ` set ns \<and>
        (\<forall>(k, v)\<in>set ms. \<forall>(l, w)\<in>set ns. k = l \<longrightarrow> same_body v w) | _ \<Rightarrow> False)"
| "same_body JNull b = (b = JNull)"
| "same_body (JBool x) b = (b = JBool x)"
| "same_body (JNumber t) b = (b = JNumber t)"
| "same_body (JString s) b = (b = JString s)"
  by pat_completeness auto

termination
  by (relation "measure (\<lambda>(a, b). size a)") (auto simp: size_member dest!: set_zip_leftD intro: size_element)

text \<open>An object has each key once.\<close>

fun keys_distinct :: "json \<Rightarrow> bool" where
  "keys_distinct (JArray xs) = list_all keys_distinct xs"
| "keys_distinct (JObject ms) = (distinct (map fst ms) \<and> list_all (\<lambda>(k, v). keys_distinct v) ms)"
| "keys_distinct v = True"

lemma mset_own_key_order [simp]: "mset (own_key_order ms) = mset ms"
  by (simp add: own_key_order_def)

lemma own_key_order_eq:
  assumes "distinct (map fst ms)" and "distinct (map fst ns)"
  shows "own_key_order (sort_key fst ms) = own_key_order (sort_key fst ns) \<longleftrightarrow> set ms = set ns"
proof
  assume "own_key_order (sort_key fst ms) = own_key_order (sort_key fst ns)"
  from arg_cong [OF this, of mset] have "mset ms = mset ns" by simp
  then show "set ms = set ns" by (rule mset_eq_setD)
next
  assume "set ms = set ns"
  then have m: "mset ms = mset ns"
    using set_eq_iff_mset_eq_distinct [of ms ns] distinct_map [of fst ms] distinct_map [of fst ns] assms by blast
  have i: "inj_on fst (set ms)" using assms(1) by (simp add: distinct_map)
  have "sort_key fst ms = sort_key fst ns"
    by (rule sort_key_inj_key_eq [OF _ i]) (simp_all add: m)
  then show "own_key_order (sort_key fst ms) = own_key_order (sort_key fst ns)" by simp
qed

lemma map_eq_map_iff: "map f xs = map f ys \<longleftrightarrow> length xs = length ys \<and> (\<forall>(x, y)\<in>set (zip xs ys). f x = f y)"
proof (induction xs arbitrary: ys)
  case (Cons x xs)
  then show ?case by (cases ys) auto
qed simp

lemma sortKeys_eq:
  "keys_distinct a \<Longrightarrow> keys_distinct b \<Longrightarrow> sortKeys a = sortKeys b \<longleftrightarrow> same_body a b"
proof (induction a b rule: same_body.induct)
  case (1 xs b)
  show ?case
  proof (cases b)
    case (JArray ys)
    have "map sortKeys xs = map sortKeys ys \<longleftrightarrow> length xs = length ys \<and> (\<forall>(x, y)\<in>set (zip xs ys). sortKeys x = sortKeys y)"
      by (rule map_eq_map_iff)
    moreover have "sortKeys x = sortKeys y \<longleftrightarrow> same_body x y" if "(x, y) \<in> set (zip xs ys)" for x y
    proof -
      have "keys_distinct x" "keys_distinct y"
        using "1.prems" JArray that by (auto simp: list_all_iff dest: set_zip_leftD set_zip_rightD)
      then show ?thesis by (rule "1.IH" [OF JArray that refl])
    qed
    ultimately show ?thesis using JArray by auto
  qed simp_all
next
  case (2 ms b)
  show ?case
  proof (cases b)
    case (JObject ns)
    let ?s = "\<lambda>(k, v). (k, sortKeys v)"
    have d: "distinct (map fst ms)" "distinct (map fst ns)" using 2 JObject by auto
    have dd: "distinct (map fst (map ?s ms))" "distinct (map fst (map ?s ns))"
      using d by (simp_all add: comp_def split_def)
    have IH: "sortKeys v = sortKeys w \<longleftrightarrow> same_body v w" if "(k, v) \<in> set ms" "(k, w) \<in> set ns" for k v w
    proof -
      have "keys_distinct v" "keys_distinct w"
        using "2.prems" JObject that by (fastforce simp: list_all_iff)+
      then show ?thesis by (rule "2.IH" [OF JObject that(1) refl that(2) refl refl])
    qed
    have "set (map ?s ms) = set (map ?s ns) \<longleftrightarrow> same_body (JObject ms) b" (is "?l = ?r")
    proof
      assume l: ?l
      from arg_cong [OF l, of "image fst"] have "fst ` set ms = fst ` set ns" by (simp add: image_image split_def)
      moreover have "same_body v w" if "(k, v) \<in> set ms" "(k, w) \<in> set ns" for k v w
      proof -
        from that(1) have "(k, sortKeys v) \<in> ?s ` set ms" by (auto intro: rev_image_eqI)
        then have "(k, sortKeys v) \<in> ?s ` set ns" using l by simp
        then obtain w' where "(k, w') \<in> set ns" "sortKeys v = sortKeys w'" by auto
        with d(2) that(2) have "sortKeys v = sortKeys w" by (auto dest: eq_key_imp_eq_value)
        with IH that show ?thesis by blast
      qed
      ultimately show ?r using JObject by auto
    next
      assume r: ?r
      with JObject have k: "fst ` set ms = fst ` set ns"
        and s: "\<And>k v w. (k, v) \<in> set ms \<Longrightarrow> (k, w) \<in> set ns \<Longrightarrow> sortKeys v = sortKeys w" using IH by auto
      show ?l
      proof (intro equalityI subsetI)
        fix p assume "p \<in> set (map ?s ms)"
        then obtain j v where p: "(j, v) \<in> set ms" "p = (j, sortKeys v)" by auto
        from p(1) have "j \<in> fst ` set ns" unfolding k [symmetric] by (auto intro: rev_image_eqI)
        then obtain w where w: "(j, w) \<in> set ns" by auto
        with s [OF p(1) w] p(2) show "p \<in> set (map ?s ns)" by (auto intro: rev_image_eqI)
      next
        fix p assume "p \<in> set (map ?s ns)"
        then obtain j w where p: "(j, w) \<in> set ns" "p = (j, sortKeys w)" by auto
        from p(1) have "j \<in> fst ` set ms" unfolding k by (auto intro: rev_image_eqI)
        then obtain v where v: "(j, v) \<in> set ms" by auto
        with s [OF v p(1)] p(2) show "p \<in> set (map ?s ms)" by (auto intro: rev_image_eqI)
      qed
    qed
    with own_key_order_eq [OF dd] JObject show ?thesis by simp
  qed simp_all
qed (case_tac [!] b, auto)

lemma numbers_ok_sortKeys: "numbers_ok a \<Longrightarrow> numbers_ok (sortKeys a)"
proof (induction a)
  case (JObject ms)
  have "set (own_key_order (sort_key fst (map (\<lambda>(k, v). (k, sortKeys v)) ms))) = (\<lambda>(k, v). (k, sortKeys v)) ` set ms"
    using mset_own_key_order [THEN mset_eq_setD, of "sort_key fst (map (\<lambda>(k, v). (k, sortKeys v)) ms)"] by simp
  with JObject show ?case by (fastforce simp: list_all_iff)
qed (auto simp: list_all_iff)

section \<open>Property\<close>

text \<open>C28. The hash recognises the request. When SHA-256 tells the two canonical texts apart, two bodies (each
  object with distinct keys) hash alike exactly when they are the same values with the members of their objects in
  any order: a client that serialises its request differently is recognised, and no other request is
  taken for it.\<close>

theorem hash_recognises_the_request:
  assumes "keys_distinct a" "keys_distinct b" "numbers_ok a" "numbers_ok b"
    and "sha256 (canonicalise a) = sha256 (canonicalise b) \<Longrightarrow> canonicalise a = canonicalise b"
  shows "hashRequestBody sha256 a = hashRequestBody sha256 b \<longleftrightarrow> same_body a b"
proof -
  have "canonicalise a = canonicalise b \<longleftrightarrow> sortKeys a = sortKeys b"
    using json_text_inj(1) [OF numbers_ok_sortKeys [OF assms(3)] numbers_ok_sortKeys [OF assms(4)], of "[]" "[]"]
    by (auto simp: canonicalise_def)
  with sortKeys_eq [OF assms(1,2)] assms(5) show ?thesis unfolding hashRequestBody_def by auto
qed

theorem hash_recognises_the_request_witness:
  "let a = JObject [(''b'', JArray [JNumber ''2'', JNull]), (''10'', JString ''x''), (''9'', JBool True)];
       b = JObject [(''9'', JBool True), (''b'', JArray [JNumber ''2'', JNull]), (''10'', JString ''x'')];
       c = JObject [(''9'', JBool True), (''b'', JArray [JNull, JNumber ''2'']), (''10'', JString ''x'')]
   in hashRequestBody (\<lambda>t. t) a = hashRequestBody (\<lambda>t. t) b \<and> hashRequestBody (\<lambda>t. t) a \<noteq> hashRequestBody (\<lambda>t. t) c"
  unfolding Let_def
  by (subst (1 2) hash_recognises_the_request) (auto simp: number_text_def number_char_def is_digit_def)

end
