(* ===== verification/Idempotency.thy ===== *)
theory Idempotency
  imports Request_Hash Store
begin

text \<open>
  Idempotent financial writes: \<^verbatim>\<open>shared/idempotency.ts\<close>. A request under a key claims the key in a
  transaction of its own, does its work, and stores its answer in the transaction that applies the
  effect; a retry is answered from the record. The store is the table of keys beside the tables of the
  service; SHA-256, the random tokens and whether a lock was granted in time come from outside.
\<close>

section \<open>The table\<close>

datatype idempotency_state = IN_PROGRESS | COMPLETED

text \<open>A stored body: the response of a success, or the name of a recorded refusal.\<close>

datatype 'b stored = Response 'b | Refusal string

record 'b idempotency_key =
  k_key :: string
  k_organizationId :: string
  k_endpoint :: string
  k_requestHash :: string
  k_canonicalHash :: "string option"
  k_actorHash :: "string option"
  k_claimToken :: "string option"
  k_responseStatus :: "nat option"
  k_responseBody :: "'b stored option"
  k_state :: idempotency_state
  k_expiresAt :: int

record 'b keyed_db =
  keys :: "'b idempotency_key list"
  data :: db

record keyed_runtime = runtime +
  issuer :: "string option"
  subject :: "string option"
  ECONOMIC_IDEMPOTENCY_TTL_HOURS :: int
  sha256 :: "string \<Rightarrow> string"
  randomUUID :: "nat \<Rightarrow> string"
  lock_granted :: "nat \<Rightarrow> bool"

text \<open>A transaction of the service's tables, run beside the keys.\<close>

definition onData :: "'a tx \<Rightarrow> ('b keyed_db, 'a) action" where
  "onData m = (\<lambda>s. case m (data s) of Inl e \<Rightarrow> Inl e | Inr (x, d) \<Rightarrow> Inr (x, s\<lparr>data := d\<rparr>))"

definition at_key :: "string \<Rightarrow> string \<Rightarrow> string \<Rightarrow> 'b idempotency_key \<Rightarrow> bool" where
  "at_key org endpoint key r \<longleftrightarrow> k_organizationId r = org \<and> k_endpoint r = endpoint \<and> k_key r = key"

definition findKey :: "string \<Rightarrow> string \<Rightarrow> string \<Rightarrow> 'b idempotency_key list \<Rightarrow> 'b idempotency_key option" where
  "findKey org endpoint key rs = find (at_key org endpoint key) rs"

section \<open>What the statements do to the table\<close>

text \<open>\<open>deleteMany\<close> of an expired row; \<open>updateMany\<close> and \<open>deleteMany\<close> of a claim by its token; the upkeep.\<close>

definition owned_claim :: "string \<Rightarrow> string \<Rightarrow> string \<Rightarrow> string \<Rightarrow> 'b idempotency_key \<Rightarrow> bool" where
  "owned_claim org endpoint key token r \<longleftrightarrow>
     at_key org endpoint key r \<and> k_claimToken r = Some token \<and> k_state r = IN_PROGRESS"

definition delete_expired :: "string \<Rightarrow> string \<Rightarrow> string \<Rightarrow> int \<Rightarrow> 'b idempotency_key list \<Rightarrow> 'b idempotency_key list" where
  "delete_expired org endpoint key now rs =
     filter (\<lambda>r. \<not> (at_key org endpoint key r \<and> k_expiresAt r \<le> now)) rs"

definition complete_rows ::
  "string \<Rightarrow> string \<Rightarrow> string \<Rightarrow> string \<Rightarrow> nat \<Rightarrow> 'b stored \<Rightarrow> 'b idempotency_key list \<Rightarrow> 'b idempotency_key list"
where
  "complete_rows org endpoint key token status body rs =
     map (\<lambda>r. if owned_claim org endpoint key token r
              then r\<lparr>k_state := COMPLETED, k_responseStatus := Some status, k_responseBody := Some body\<rparr> else r) rs"

definition owned_count :: "string \<Rightarrow> string \<Rightarrow> string \<Rightarrow> string \<Rightarrow> 'b idempotency_key list \<Rightarrow> nat" where
  "owned_count org endpoint key token rs = length (filter (owned_claim org endpoint key token) rs)"

definition release_rows ::
  "string \<Rightarrow> string \<Rightarrow> string \<Rightarrow> string \<Rightarrow> 'b idempotency_key list \<Rightarrow> 'b idempotency_key list"
where
  "release_rows org endpoint key token rs = filter (\<lambda>r. \<not> owned_claim org endpoint key token r) rs"

definition purge_rows :: "int \<Rightarrow> 'b idempotency_key list \<Rightarrow> 'b idempotency_key list" where
  "purge_rows now rs = filter (\<lambda>r. \<not> k_expiresAt r < now) rs"

definition purgeExpired :: "'a keyed_runtime_scheme \<Rightarrow> ('b keyed_db, nat) action" where
  "purgeExpired rt =
     bindM (onData (hostDate rt)) (\<lambda>now.
     bindM (getsM (\<lambda>s. length (keys s) - length (purge_rows now (keys s)))) (\<lambda>count.
     thenM (modifyM (\<lambda>s. s\<lparr>keys := purge_rows now (keys s)\<rparr>)) (returnM count)))"

text \<open>The insert, on the table's primary key.\<close>

definition insert_key :: "'b idempotency_key \<Rightarrow> ('b keyed_db, unit) action" where
  "insert_key r =
     bindM (getsM (\<lambda>s. list_ex (at_key (k_organizationId r) (k_endpoint r) (k_key r)) (keys s))) (\<lambda>taken.
     thenM (assertM (\<not> taken) (UniqueViolation ''idempotency_key_pkey''))
           (modifyM (\<lambda>s. s\<lparr>keys := keys s @ [r]\<rparr>)))"

section \<open>Who asks, and what\<close>

definition nullable_text :: "string option \<Rightarrow> json" where
  "nullable_text v = (case v of None \<Rightarrow> JNull | Some t \<Rightarrow> JString t)"

definition auth_type_name :: "auth_type \<Rightarrow> string" where
  "auth_type_name a = (case a of USER \<Rightarrow> ''USER'' | SERVICE \<Rightarrow> ''SERVICE'' | ANONYMOUS \<Rightarrow> ''ANONYMOUS'')"

definition requestActor :: "'a keyed_runtime_scheme \<Rightarrow> json" where
  "requestActor rt =
     (if authType rt = SERVICE
      then JObject [(''authType'', JString (auth_type_name (authType rt))), (''callerService'', nullable_text (callerService rt))]
      else JObject [(''authType'', JString (auth_type_name (authType rt))), (''issuer'', nullable_text (issuer rt)),
                    (''subject'', nullable_text (subject rt))])"

record fingerprints =
  fp_requestHash :: string
  fp_canonicalHash :: string

text \<open>
  The body as it was sent, with the canonical form the validating pipe kept for it when it changed it;
  the fingerprint carries the version of its algorithm, when the endpoint has one.
\<close>

definition fingerprint :: "'a keyed_runtime_scheme \<Rightarrow> string option \<Rightarrow> json \<Rightarrow> string" where
  "fingerprint rt version value =
     (let h = hashRequestBody (sha256 rt) value in
      case version of None \<Rightarrow> h | Some v \<Rightarrow> if v = [] then h else v @ '':'' @ h)"

definition fingerprints_of :: "'a keyed_runtime_scheme \<Rightarrow> string option \<Rightarrow> json \<times> json option \<Rightarrow> fingerprints" where
  "fingerprints_of rt version body =
     (let requestHash = fingerprint rt version (fst body) in
      \<lparr>fp_requestHash = requestHash,
       fp_canonicalHash = (case snd body of None \<Rightarrow> requestHash | Some c \<Rightarrow> fingerprint rt version c)\<rparr>)"

definition actor_hash :: "'a keyed_runtime_scheme \<Rightarrow> string" where
  "actor_hash rt = hashRequestBody (sha256 rt) (requestActor rt)"

definition inFlight :: failure where
  "inFlight = RastaError CONFLICT ''This request is already being processed''"

definition claimLost :: failure where
  "claimLost = RastaError CONFLICT ''its Idempotency-Key lapsed''"

definition idempotencyKeyReused :: failure where
  "idempotencyKeyReused = RastaError IDEMPOTENCY_KEY_REUSED ''''"

section \<open>Refusals and deadlines\<close>

text \<open>\<open>ERROR_STATUS\<close>, for the codes of the model.\<close>

fun ERROR_STATUS :: "error_code \<Rightarrow> nat" where
  "ERROR_STATUS VALIDATION_FAILED = 400"
| "ERROR_STATUS FORBIDDEN = 403"
| "ERROR_STATUS TENANT_MISMATCH = 403"
| "ERROR_STATUS SERVICE_TENANT_CONTEXT_INVALID = 403"
| "ERROR_STATUS NOT_FOUND = 404"
| "ERROR_STATUS ALREADY_EXISTS = 409"
| "ERROR_STATUS CONFLICT = 409"
| "ERROR_STATUS IDEMPOTENCY_KEY_REUSED = 409"
| "ERROR_STATUS INVALID_STATE_TRANSITION = 409"
| "ERROR_STATUS OPTIMISTIC_LOCK_FAILED = 409"
| "ERROR_STATUS BUSINESS_RULE_VIOLATION = 422"
| "ERROR_STATUS INSUFFICIENT_BALANCE = 422"
| "ERROR_STATUS LEDGER_UNBALANCED = 422"
| "ERROR_STATUS NO_ACTIVE_RULE = 422"
| "ERROR_STATUS BUSINESS_LINE_REQUIRED = 422"
| "ERROR_STATUS HOLD_DEADLINE_PASSED = 422"
| "ERROR_STATUS HOLD_DEADLINE_REQUIRED = 422"
| "ERROR_STATUS INTERNAL_ERROR = 500"
| "ERROR_STATUS UPSTREAM_UNAVAILABLE = 503"
| "ERROR_STATUS UPSTREAM_TIMEOUT = 504"

type_synonym terminal_refusals = "string \<Rightarrow> error_code option"

record fence =
  f_notAfter :: int
  f_refusal :: string
  f_code :: error_code

text \<open>A deadline is an instant, or an invalid date.\<close>

definition fenceOf :: "(int option \<times> string) option \<Rightarrow> terminal_refusals \<Rightarrow> failure + fence option" where
  "fenceOf notAfter refusals =
     (case notAfter of
        None \<Rightarrow> Inr None
      | Some (at, name) \<Rightarrow>
          (case (refusals name, at) of
             (Some code, Some t) \<Rightarrow> Inr (Some \<lparr>f_notAfter = t, f_refusal = name, f_code = code\<rparr>)
           | _ \<Rightarrow> Inl (RastaError INTERNAL_ERROR ''A deadline names a refusal its endpoint does not declare'')))"

definition REFUSAL_STATUS_FLOOR :: nat where
  "REFUSAL_STATUS_FLOOR = 400"

definition replayedRefusal :: "'b stored option \<Rightarrow> terminal_refusals \<Rightarrow> failure" where
  "replayedRefusal stored refusals =
     (case stored of
        Some (Refusal name) \<Rightarrow>
          (case refusals name of
             Some code \<Rightarrow> if ERROR_STATUS code \<ge> REFUSAL_STATUS_FLOOR then TerminalRefusalError name code
                          else RastaError INTERNAL_ERROR ''A recorded refusal is not declared by its endpoint''
           | None \<Rightarrow> RastaError INTERNAL_ERROR ''A recorded refusal is not declared by its endpoint'')
      | _ \<Rightarrow> RastaError INTERNAL_ERROR ''A recorded refusal is not declared by its endpoint'')"

definition refuseWhenPast :: "'a keyed_runtime_scheme \<Rightarrow> fence option \<Rightarrow> ('b keyed_db, unit) action" where
  "refuseWhenPast rt fence =
     (case fence of
        None \<Rightarrow> returnM ()
      | Some f \<Rightarrow>
          bindM (onData (databaseNow rt)) (\<lambda>now.
          assertM (\<not> now > f_notAfter f) (TerminalRefusalError (f_refusal f) (f_code f))))"

section \<open>The claim\<close>

datatype 'b claim_outcome = PROCEED string | REPLAY nat "'b stored option"

definition CLAIM_WAIT_MS :: int where
  "CLAIM_WAIT_MS = 5000"

definition CLAIM_ATTEMPTS :: nat where
  "CLAIM_ATTEMPTS = 3"

text \<open>A statement that may wait on a lock, within what is left of the claim's budget.\<close>

definition withinBudget :: "'a keyed_runtime_scheme \<Rightarrow> int \<Rightarrow> ('b keyed_db, 'r) action \<Rightarrow> ('b keyed_db, 'r) request" where
  "withinBudget rt deadline statement =
     bindR (atomically (onData (hostDate rt))) (\<lambda>now.
     if deadline - now \<le> 0 then liftR (Inl inFlight)
     else bindR (atomically (onData next_tick)) (\<lambda>n.
          if \<not> lock_granted rt n then liftR (Inl inFlight) else atomically statement))"

text \<open>The transaction that writes the claim: past the deadline the row written is the recorded refusal.\<close>

definition write_claim ::
  "'a keyed_runtime_scheme \<Rightarrow> string \<Rightarrow> string \<Rightarrow> string \<Rightarrow> fingerprints \<Rightarrow> string \<Rightarrow> string \<Rightarrow> int \<Rightarrow> fence option \<Rightarrow>
     ('b keyed_db, bool) action"
where
  "write_claim rt org endpoint key fps actorHash token expiresAt fence =
     bindM (case fence of
              None \<Rightarrow> returnM False
            | Some f \<Rightarrow> bindM (onData (databaseNow rt)) (\<lambda>now. returnM (now > f_notAfter f))) (\<lambda>past.
     thenM (insert_key \<lparr>k_key = key, k_organizationId = org, k_endpoint = endpoint,
         k_requestHash = fp_requestHash fps, k_canonicalHash = Some (fp_canonicalHash fps),
         k_actorHash = Some actorHash, k_claimToken = Some token,
         k_responseStatus = (case fence of Some f \<Rightarrow> if past then Some (ERROR_STATUS (f_code f)) else None | None \<Rightarrow> None),
         k_responseBody = (case fence of Some f \<Rightarrow> if past then Some (Refusal (f_refusal f)) else None | None \<Rightarrow> None),
         k_state = (if past then COMPLETED else IN_PROGRESS), k_expiresAt = expiresAt\<rparr>)
    (returnM past))"

text \<open>What a record that is found and not expired answers.\<close>

definition sameBody :: "'b idempotency_key \<Rightarrow> fingerprints \<Rightarrow> bool" where
  "sameBody existing fps \<longleftrightarrow>
     k_requestHash existing = fp_requestHash fps \<or> k_requestHash existing = fp_canonicalHash fps \<or>
     k_canonicalHash existing = Some (fp_canonicalHash fps)"

definition judge_record :: "'b idempotency_key \<Rightarrow> fingerprints \<Rightarrow> string \<Rightarrow> failure + 'b claim_outcome" where
  "judge_record existing fps actorHash =
     bindE (assertE (\<not> (\<not> sameBody existing fps \<or>
                         (k_actorHash existing \<noteq> None \<and> k_actorHash existing \<noteq> Some actorHash))) idempotencyKeyReused) (\<lambda>_.
     bindE (assertE (k_state existing \<noteq> IN_PROGRESS) inFlight) (\<lambda>_.
     Inr (REPLAY (case k_responseStatus existing of None \<Rightarrow> 200 | Some st \<Rightarrow> st) (k_responseBody existing))))"

text \<open>One attempt; \<open>None\<close> when it reserved nothing and must be made again.\<close>

definition claim_lost_insert ::
  "'a keyed_runtime_scheme \<Rightarrow> string \<Rightarrow> string \<Rightarrow> string \<Rightarrow> fingerprints \<Rightarrow> string \<Rightarrow> int \<Rightarrow> int \<Rightarrow>
     ('b keyed_db, 'b claim_outcome option) request"
where
  "claim_lost_insert rt org endpoint key fps actorHash now deadline = (\<lambda>s.
     case findKey org endpoint key (keys s) of
       None \<Rightarrow> (Inr None, s)
     | Some existing \<Rightarrow>
         if k_expiresAt existing \<le> now
         then bindR (withinBudget rt deadline (modifyM (\<lambda>s. s\<lparr>keys := delete_expired org endpoint key now (keys s)\<rparr>)))
                (\<lambda>_. liftR (Inr None)) s
         else (case judge_record existing fps actorHash of Inl e \<Rightarrow> (Inl e, s) | Inr c \<Rightarrow> (Inr (Some c), s)))"

definition claimOnce ::
  "'a keyed_runtime_scheme \<Rightarrow> string \<Rightarrow> string \<Rightarrow> fingerprints \<Rightarrow> string \<Rightarrow> int \<Rightarrow> fence option \<Rightarrow>
     ('b keyed_db, 'b claim_outcome option) request"
where
  "claimOnce rt endpoint key fps actorHash deadline fence =
     bindR (liftR (getOrganizationId rt)) (\<lambda>org.
     bindR (atomically (onData (hostDate rt))) (\<lambda>now.
     let expiresAt = now + ECONOMIC_IDEMPOTENCY_TTL_HOURS rt * 60 * 60 * 1000 in
     bindR (atomically (onData next_tick)) (\<lambda>n.
     let claimToken = randomUUID rt n in (\<lambda>s.
     case withinBudget rt deadline (write_claim rt org endpoint key fps actorHash claimToken expiresAt fence) s of
       (Inr refused, s') \<Rightarrow>
         (Inr (Some (case fence of
            Some f \<Rightarrow> if refused then REPLAY (ERROR_STATUS (f_code f)) (Some (Refusal (f_refusal f))) else PROCEED claimToken
          | None \<Rightarrow> PROCEED claimToken)), s')
     | (Inl (UniqueViolation _), s') \<Rightarrow> claim_lost_insert rt org endpoint key fps actorHash now deadline s'
     | (Inl e, s') \<Rightarrow> (Inl e, s')))))"

fun claim_attempts :: "nat \<Rightarrow> ('s, 'c option) request \<Rightarrow> ('s, 'c) request" where
  "claim_attempts 0 once = liftR (Inl inFlight)"
| "claim_attempts (Suc n) once =
     bindR once (\<lambda>outcome. case outcome of Some c \<Rightarrow> liftR (Inr c) | None \<Rightarrow> claim_attempts n once)"

definition claim ::
  "'a keyed_runtime_scheme \<Rightarrow> string \<Rightarrow> string \<Rightarrow> json \<times> json option \<Rightarrow> string option \<Rightarrow> fence option \<Rightarrow>
     ('b keyed_db, 'b claim_outcome) request"
where
  "claim rt endpoint key body version fence =
     bindR (atomically (onData (hostDate rt))) (\<lambda>now.
     claim_attempts CLAIM_ATTEMPTS
       (claimOnce rt endpoint key (fingerprints_of rt version body) (actor_hash rt) (now + CLAIM_WAIT_MS) fence))"

section \<open>The answer\<close>

definition complete ::
  "'a keyed_runtime_scheme \<Rightarrow> string \<Rightarrow> string \<Rightarrow> string \<Rightarrow> nat \<Rightarrow> 'b stored \<Rightarrow> ('b keyed_db, unit) action"
where
  "complete rt endpoint key token status body =
     bindM (liftM (getOrganizationId rt)) (\<lambda>org.
     bindM (getsM (\<lambda>s. owned_count org endpoint key token (keys s))) (\<lambda>count.
     thenM (modifyM (\<lambda>s. s\<lparr>keys := complete_rows org endpoint key token status body (keys s)\<rparr>))
           (assertM (count = 1) claimLost)))"

definition release :: "'a keyed_runtime_scheme \<Rightarrow> string \<Rightarrow> string \<Rightarrow> string \<Rightarrow> ('b keyed_db, unit) action" where
  "release rt endpoint key token =
     bindM (liftM (getOrganizationId rt)) (\<lambda>org.
     modifyM (\<lambda>s. s\<lparr>keys := release_rows org endpoint key token (keys s)\<rparr>))"

definition completeRefusal ::
  "'a keyed_runtime_scheme \<Rightarrow> string \<Rightarrow> string \<Rightarrow> string \<Rightarrow> string \<Rightarrow> error_code \<Rightarrow> ('b keyed_db, bool) action"
where
  "completeRefusal rt endpoint key token name code =
     bindM (liftM (getOrganizationId rt)) (\<lambda>org.
     bindM (getsM (\<lambda>s. owned_count org endpoint key token (keys s))) (\<lambda>count.
     thenM (modifyM (\<lambda>s. s\<lparr>keys := complete_rows org endpoint key token (ERROR_STATUS code) (Refusal name) (keys s)\<rparr>))
           (returnM (count = 1))))"

text \<open>What the work answers through, in the transaction of its effect.\<close>

record 'b idempotent_answer =
  respond :: "'b \<Rightarrow> ('b keyed_db, unit) action"
  refuse :: "string \<Rightarrow> error_code \<Rightarrow> ('b keyed_db, unit) action"

definition answer_of ::
  "'a keyed_runtime_scheme \<Rightarrow> string \<Rightarrow> string \<Rightarrow> string \<Rightarrow> nat \<Rightarrow> fence option \<Rightarrow> terminal_refusals \<Rightarrow> 'b idempotent_answer"
where
  "answer_of rt endpoint key token successStatus fence refusals =
     \<lparr>respond = (\<lambda>response.
        thenM (refuseWhenPast rt fence) (complete rt endpoint key token successStatus (Response response))),
      refuse = (\<lambda>name code.
        if refusals name = None then returnM ()
        else thenM (refuseWhenPast rt fence) (complete rt endpoint key token (ERROR_STATUS code) (Refusal name)))\<rparr>"

record 'b run_options =
  mayReplay :: "'b option \<Rightarrow> ('b keyed_db, unit) request"
  fingerprintVersion :: "string option"
  terminalRefusals :: terminal_refusals
  stored_view :: "'b \<Rightarrow> 'b"
  notAfter :: "(int option \<times> string) option"

text \<open>The stored body of a success. A record that holds anything else under a success status is a fault.\<close>

definition response_of :: "'b stored option \<Rightarrow> failure + 'b" where
  "response_of body =
     (case body of Some (Response b) \<Rightarrow> Inr b | _ \<Rightarrow> Inl (PlainError ''a stored success without a response''))"

definition replay :: "'b run_options \<Rightarrow> nat \<Rightarrow> 'b stored option \<Rightarrow> ('b keyed_db, 'b) request" where
  "replay opts status body =
     (if status \<ge> REFUSAL_STATUS_FLOOR
      then bindR (mayReplay opts None) (\<lambda>_. liftR (Inl (replayedRefusal body (terminalRefusals opts))))
      else bindR (liftR (response_of body)) (\<lambda>b.
           bindR (mayReplay opts (Some b)) (\<lambda>_. liftR (Inr (stored_view opts b)))))"

text \<open>
  The work. Its value is the response it last answered with; a work that returns normally has answered
  in a transaction that committed.
\<close>

definition perform ::
  "'a keyed_runtime_scheme \<Rightarrow> string \<Rightarrow> string \<Rightarrow> string \<Rightarrow> terminal_refusals \<Rightarrow> ('b keyed_db, 'b option) request \<Rightarrow>
     ('b keyed_db, 'b) request"
where
  "perform rt endpoint key token refusals working = (\<lambda>s.
     case working s of
       (Inr answered, s') \<Rightarrow>
         (case answered of
            Some response \<Rightarrow> (Inr response, s')
          | None \<Rightarrow> (Inl (RastaError INTERNAL_ERROR ''Idempotent work did not store its answer''), s'))
     | (Inl e, s') \<Rightarrow>
         (let released = (\<lambda>s. bindR (atomically (release rt endpoint key token)) (\<lambda>_. liftR (Inl e)) s) in
          case e of
            TerminalRefusalError name code \<Rightarrow>
              if refusals name \<noteq> None
              then bindR (atomically (completeRefusal rt endpoint key token name code))
                     (\<lambda>recorded. if recorded then liftR (Inl e) else released) s'
              else released s'
          | _ \<Rightarrow> released s'))"

definition run ::
  "'a keyed_runtime_scheme \<Rightarrow> string \<Rightarrow> string \<Rightarrow> json \<times> json option \<Rightarrow> nat \<Rightarrow>
     ('b idempotent_answer \<Rightarrow> ('b keyed_db, 'b option) request) \<Rightarrow> 'b run_options \<Rightarrow> ('b keyed_db, 'b) request"
where
  "run rt endpoint key body successStatus work opts =
     bindR (liftR (fenceOf (notAfter opts) (terminalRefusals opts))) (\<lambda>fence.
     bindR (claim rt endpoint key body (fingerprintVersion opts) fence) (\<lambda>c.
     case c of
       REPLAY status stored \<Rightarrow> replay opts status stored
     | PROCEED token \<Rightarrow>
         perform rt endpoint key token (terminalRefusals opts)
           (work (answer_of rt endpoint key token successStatus fence (terminalRefusals opts)))))"

text \<open>Replay under an old algorithm, without a claim.\<close>

definition replayLegacy ::
  "'a keyed_runtime_scheme \<Rightarrow> string \<Rightarrow> string \<Rightarrow> json \<Rightarrow> ('b option \<Rightarrow> ('b keyed_db, unit) request) \<Rightarrow>
     ('b keyed_db, 'b option) request"
where
  "replayLegacy rt endpoint key legacyBody mayReplay' =
     bindR (liftR (getOrganizationId rt)) (\<lambda>org. (\<lambda>s.
     case findKey org endpoint key (keys s) of
       None \<Rightarrow> (Inr None, s)
     | Some existing \<Rightarrow>
         bindR (atomically (onData (hostDate rt))) (\<lambda>now.
         if k_expiresAt existing \<le> now \<or> CHR '':'' \<in> set (k_requestHash existing) then liftR (Inr None)
         else if k_actorHash existing \<noteq> Some (actor_hash rt) \<or>
                 k_requestHash existing \<noteq> hashRequestBody (sha256 rt) legacyBody
         then liftR (Inl idempotencyKeyReused)
         else if k_state existing = IN_PROGRESS then liftR (Inl inFlight)
         else bindR (mayReplay' (case k_responseBody existing of Some (Response b) \<Rightarrow> Some b | _ \<Rightarrow> None)) (\<lambda>_.
              if (case k_responseStatus existing of None \<Rightarrow> 200 | Some st \<Rightarrow> st) \<ge> REFUSAL_STATUS_FLOOR
              then liftR (Inl (RastaError INTERNAL_ERROR ''Legacy compatibility expects a stored success''))
              else bindR (liftR (response_of (k_responseBody existing))) (\<lambda>b. liftR (Inr (Some b))))) s))"

end
