(* ===== verification/Idempotency_Laws.thy ===== *)
theory Idempotency_Laws
  imports Idempotency
begin

text \<open>
  What the idempotency store promises: a live record decides a request under its key without the work
  running; the effect and the record of its answer commit together.
\<close>

section \<open>Reading the clocks\<close>

text \<open>The same state, later: nothing but the count of outside reads moved.\<close>

definition ticked :: "'b keyed_db \<Rightarrow> 'b keyed_db \<Rightarrow> bool" where
  "ticked s s1 \<longleftrightarrow> (\<exists>n. s1 = s\<lparr>data := (data s)\<lparr>ticks := n\<rparr>\<rparr>)"

lemma ticked_refl [simp, intro!]: "ticked s s"
  unfolding ticked_def by (rule exI [of _ "ticks (data s)"]) simp

lemma ticked_trans: "ticked s s1 \<Longrightarrow> ticked s1 s2 \<Longrightarrow> ticked s s2"
  by (auto simp: ticked_def)

lemma ticked_keys: "ticked s s1 \<Longrightarrow> keys s1 = keys s"
  by (auto simp: ticked_def)

lemma onData_tick:
  "atomically (onData (hostDate rt)) s = (Inr (new_Date rt (ticks (data s))), s\<lparr>data := (data s)\<lparr>ticks := Suc (ticks (data s))\<rparr>\<rparr>)"
  "atomically (onData next_tick) s = (Inr (ticks (data s)), s\<lparr>data := (data s)\<lparr>ticks := Suc (ticks (data s))\<rparr>\<rparr>)"
  "onData (databaseNow rt) s = Inr (clock_timestamp rt (ticks (data s)), s\<lparr>data := (data s)\<lparr>ticks := Suc (ticks (data s))\<rparr>\<rparr>)"
  by (simp_all add: atomically_def onData_def hostDate_def databaseNow_def next_tick_def action_simps)

lemma ticked_step [simp]: "ticked s (s\<lparr>data := (data s)\<lparr>ticks := n\<rparr>\<rparr>)"
  by (auto simp: ticked_def)

lemma withinBudget_cases:
  "\<exists>s1. ticked s s1 \<and> (withinBudget rt deadline m s = (Inl inFlight, s1) \<or> withinBudget rt deadline m s = atomically m s1)"
proof -
  let ?s1 = "s\<lparr>data := (data s)\<lparr>ticks := Suc (ticks (data s))\<rparr>\<rparr>"
  let ?s2 = "?s1\<lparr>data := (data ?s1)\<lparr>ticks := Suc (ticks (data ?s1))\<rparr>\<rparr>"
  have t: "ticked s ?s1" "ticked s ?s2" using ticked_step ticked_trans [OF ticked_step ticked_step] by blast+
  have "withinBudget rt deadline m s =
      (if deadline - new_Date rt (ticks (data s)) \<le> 0 then (Inl inFlight, ?s1)
       else if \<not> lock_granted rt (ticks (data ?s1)) then (Inl inFlight, ?s2) else atomically m ?s2)"
    unfolding withinBudget_def bindR_def onData_tick by (simp add: onData_tick liftR_def)
  with t show ?thesis by (metis (full_types))
qed

section \<open>A live record decides\<close>

lemma insert_taken: "findKey (k_organizationId r) (k_endpoint r) (k_key r) (keys s) \<noteq> None \<Longrightarrow>
    insert_key r s = Inl (UniqueViolation ''idempotency_key_pkey'')"
  by (auto simp: insert_key_def findKey_def action_simps find_None_iff list_ex_iff)

lemma insert_free: "findKey (k_organizationId r) (k_endpoint r) (k_key r) (keys s) = None \<Longrightarrow>
    insert_key r s = Inr ((), s\<lparr>keys := keys s @ [r]\<rparr>)"
  by (auto simp: insert_key_def findKey_def action_simps find_None_iff list_ex_iff)

lemma write_claim_taken:
  assumes "findKey org endpoint key (keys s) \<noteq> None"
  shows "atomically (write_claim rt org endpoint key fps ah token ex fence) s = (Inl (UniqueViolation ''idempotency_key_pkey''), s)"
proof -
  have "write_claim rt org endpoint key fps ah token ex fence s = Inl (UniqueViolation ''idempotency_key_pkey'')"
    using assms
    by (cases fence) (simp_all add: write_claim_def action_simps onData_tick insert_taken)
  then show ?thesis by (simp add: atomically_def)
qed

text \<open>What the record answers, at the state its clocks leave.\<close>

definition judged :: "'b idempotency_key \<Rightarrow> fingerprints \<Rightarrow> string \<Rightarrow> 'b keyed_db \<Rightarrow> (failure + 'b claim_outcome) \<times> 'b keyed_db" where
  "judged existing fps ah s = (case judge_record existing fps ah of Inl e \<Rightarrow> (Inl e, s) | Inr c \<Rightarrow> (Inr c, s))"

lemma claimOnce_live:
  assumes "getOrganizationId rt = Inr org" and "findKey org endpoint key (keys s) = Some existing"
    and "\<And>n. new_Date rt n < k_expiresAt existing"
  shows "\<exists>s1. ticked s s1 \<and>
    (claimOnce rt endpoint key fps ah deadline fence s = (Inl inFlight, s1) \<or>
     claimOnce rt endpoint key fps ah deadline fence s = map_prod (map_sum id Some) id (judged existing fps ah s1))"
proof -
  let ?n = "ticks (data s)"
  let ?s1 = "s\<lparr>data := (data s)\<lparr>ticks := Suc ?n\<rparr>\<rparr>"
  let ?s2 = "?s1\<lparr>data := (data ?s1)\<lparr>ticks := Suc (ticks (data ?s1))\<rparr>\<rparr>"
  let ?m = "write_claim rt org endpoint key fps ah (randomUUID rt (ticks (data ?s1)))
      (new_Date rt ?n + ECONOMIC_IDEMPOTENCY_TTL_HOURS rt * 60 * 60 * 1000) fence"
  obtain s3 where s3: "ticked ?s2 s3"
    "withinBudget rt deadline ?m ?s2 = (Inl inFlight, s3) \<or> withinBudget rt deadline ?m ?s2 = atomically ?m s3"
    using withinBudget_cases by blast
  have t: "ticked s s3" by (rule ticked_trans [OF ticked_trans [OF ticked_step ticked_step] s3(1)])
  then have k: "findKey org endpoint key (keys s3) = Some existing" using assms(2) by (simp add: ticked_keys)
  then have taken: "atomically ?m s3 = (Inl (UniqueViolation ''idempotency_key_pkey''), s3)"
    by (intro write_claim_taken) simp
  have lost: "claim_lost_insert rt org endpoint key fps ah (new_Date rt ?n) deadline s3 =
      map_prod (map_sum id Some) id (judged existing fps ah s3)"
    using k assms(3) [of ?n] by (simp add: claim_lost_insert_def judged_def split: sum.splits)
  have "claimOnce rt endpoint key fps ah deadline fence s =
      (case withinBudget rt deadline ?m ?s2 of
         (Inr refused, s') \<Rightarrow> (Inr (Some (case fence of
            Some f \<Rightarrow> if refused then REPLAY (ERROR_STATUS (f_code f)) (Some (Refusal (f_refusal f))) else PROCEED (randomUUID rt (ticks (data ?s1)))
          | None \<Rightarrow> PROCEED (randomUUID rt (ticks (data ?s1))))), s')
       | (Inl (UniqueViolation _), s') \<Rightarrow> claim_lost_insert rt org endpoint key fps ah (new_Date rt ?n) deadline s'
       | (Inl e, s') \<Rightarrow> (Inl e, s'))"
    by (simp add: claimOnce_def bindR_def liftR_def assms(1) onData_tick Let_def)
  with s3(2) taken lost t show ?thesis by (auto simp: inFlight_def)
qed

lemma claim_attempts_first:
  "claim_attempts CLAIM_ATTEMPTS once s =
     (case once s of (Inl e, s') \<Rightarrow> (Inl e, s') | (Inr (Some c), s') \<Rightarrow> (Inr c, s')
      | (Inr None, s') \<Rightarrow> claim_attempts 2 once s')"
proof -
  have n: "CLAIM_ATTEMPTS = Suc 2" by (simp add: CLAIM_ATTEMPTS_def)
  obtain r s1 where "once s = (r, s1)" by fastforce
  then show ?thesis unfolding n claim_attempts.simps bindR_def liftR_def by (cases r) (auto split: option.splits)
qed

lemma claim_live:
  assumes "getOrganizationId rt = Inr org" and "findKey org endpoint key (keys s) = Some existing"
    and "\<And>n. new_Date rt n < k_expiresAt existing"
  shows "\<exists>s1. ticked s s1 \<and>
    (claim rt endpoint key body version fence s = (Inl inFlight, s1) \<or>
     claim rt endpoint key body version fence s = judged existing (fingerprints_of rt version body) (actor_hash rt) s1)"
proof -
  let ?s1 = "s\<lparr>data := (data s)\<lparr>ticks := Suc (ticks (data s))\<rparr>\<rparr>"
  let ?once = "claimOnce rt endpoint key (fingerprints_of rt version body) (actor_hash rt)
      (new_Date rt (ticks (data s)) + CLAIM_WAIT_MS) fence"
  have k: "findKey org endpoint key (keys ?s1) = Some existing" using assms(2) by simp
  from claimOnce_live [OF assms(1) k assms(3)] obtain s2 where s2: "ticked ?s1 s2"
    "?once ?s1 = (Inl inFlight, s2) \<or>
     ?once ?s1 = map_prod (map_sum id Some) id (judged existing (fingerprints_of rt version body) (actor_hash rt) s2)" by blast
  have "claim rt endpoint key body version fence s = claim_attempts CLAIM_ATTEMPTS ?once ?s1"
    unfolding claim_def by (simp add: bindR_def onData_tick)
  then have "claim rt endpoint key body version fence s = (Inl inFlight, s2) \<or>
     claim rt endpoint key body version fence s = judged existing (fingerprints_of rt version body) (actor_hash rt) s2"
    using s2(2) by (auto simp: claim_attempts_first judged_def split: sum.splits)
  with ticked_trans [OF ticked_step s2(1)] show ?thesis by blast
qed

lemma run_live:
  assumes "getOrganizationId rt = Inr org" and "findKey org endpoint key (keys s) = Some existing"
    and "\<And>n. new_Date rt n < k_expiresAt existing"
  shows "\<exists>s1. ticked s s1 \<and>
    (run rt endpoint key body status work opts s \<in>
       {(Inl (RastaError INTERNAL_ERROR ''A deadline names a refusal its endpoint does not declare''), s),
        (Inl inFlight, s1), (Inl idempotencyKeyReused, s1)} \<or>
     (sameBody existing (fingerprints_of rt (fingerprintVersion opts) body) \<and>
      k_actorHash existing \<in> {None, Some (actor_hash rt)} \<and> k_state existing = COMPLETED \<and>
      run rt endpoint key body status work opts s =
        replay opts (case k_responseStatus existing of None \<Rightarrow> 200 | Some st \<Rightarrow> st) (k_responseBody existing) s1))"
proof (cases "fenceOf (notAfter opts) (terminalRefusals opts)")
  case (Inl e)
  then have "e = RastaError INTERNAL_ERROR ''A deadline names a refusal its endpoint does not declare''"
    by (auto simp: fenceOf_def split: option.splits prod.splits)
  with Inl have "run rt endpoint key body status work opts s =
      (Inl (RastaError INTERNAL_ERROR ''A deadline names a refusal its endpoint does not declare''), s)"
    by (simp add: run_def bindR_def liftR_def)
  then show ?thesis by blast
next
  case (Inr fence)
  let ?fps = "fingerprints_of rt (fingerprintVersion opts) body"
  from claim_live [OF assms] obtain s1 where s1: "ticked s s1"
    "claim rt endpoint key body (fingerprintVersion opts) fence s = (Inl inFlight, s1) \<or>
     claim rt endpoint key body (fingerprintVersion opts) fence s = judged existing ?fps (actor_hash rt) s1" by blast
  have r: "run rt endpoint key body status work opts s =
      (case claim rt endpoint key body (fingerprintVersion opts) fence s of
         (Inl e, s') \<Rightarrow> (Inl e, s')
       | (Inr (REPLAY st stored), s') \<Rightarrow> replay opts st stored s'
       | (Inr (PROCEED token), s') \<Rightarrow>
           perform rt endpoint key token (terminalRefusals opts)
             (work (answer_of rt endpoint key token status fence (terminalRefusals opts))) s')"
    using Inr by (simp add: run_def bindR_def liftR_def split: prod.splits sum.splits claim_outcome.splits)
  from s1(2) show ?thesis
  proof
    assume "claim rt endpoint key body (fingerprintVersion opts) fence s = (Inl inFlight, s1)"
    with r s1(1) show ?thesis by auto
  next
    assume c: "claim rt endpoint key body (fingerprintVersion opts) fence s = judged existing ?fps (actor_hash rt) s1"
    show ?thesis
    proof (cases "judge_record existing ?fps (actor_hash rt)")
      case (Inl e)
      then have "e \<in> {inFlight, idempotencyKeyReused}" by (auto simp: judge_record_def bindE_Inl)
      with Inl c r s1(1) show ?thesis by (auto simp: judged_def)
    next
      case (Inr cl)
      then have "cl = REPLAY (case k_responseStatus existing of None \<Rightarrow> 200 | Some st \<Rightarrow> st) (k_responseBody existing)"
        "sameBody existing ?fps" "k_actorHash existing \<in> {None, Some (actor_hash rt)}" "k_state existing = COMPLETED"
        by (cases "k_state existing"; auto simp: judge_record_def bindE_Inr)+
      with Inr c r s1(1) show ?thesis by (auto simp: judged_def)
    qed
  qed
qed

section \<open>A caller, for the examples\<close>

definition keyed_caller :: keyed_runtime where
  "keyed_caller = \<lparr>correlationId = ''c'', organizationId = Some ''A'', userId = None, roles = [], authType = SERVICE,
     callerService = Some ''contract-service'', isUnscoped = False, ECONOMIC_PLATFORM_ORGANIZATION_ID = ''P'',
     ECONOMIC_SETTLEMENT_REQUIRE_COMMISSION_RULE = True, ECONOMIC_REFUND_BY_PAYEE_ENABLED = True,
     ulid = (\<lambda>_. ''u''), new_Date = (\<lambda>n. min (int n) 99), clock_timestamp = int, gen_random_uuid = (\<lambda>_. ''g''),
     withinVersion = (\<lambda>_ _ _. Inr None), issuer = None, subject = None, ECONOMIC_IDEMPOTENCY_TTL_HOURS = 24,
     sha256 = (\<lambda>t. t), randomUUID = (\<lambda>n. replicate n CHR ''a''), lock_granted = (\<lambda>_. True)\<rparr>"

definition keyed_record :: "nat idempotency_key" where
  "keyed_record = \<lparr>k_key = ''k'', k_organizationId = ''A'', k_endpoint = ''e'', k_requestHash = ''null'',
     k_canonicalHash = Some ''null'', k_actorHash = None, k_claimToken = Some ''t'', k_responseStatus = Some 201,
     k_responseBody = Some (Response 7), k_state = COMPLETED, k_expiresAt = 100\<rparr>"

definition open_options :: "nat run_options" where
  "open_options = \<lparr>mayReplay = (\<lambda>_. liftR (Inr ())), fingerprintVersion = None, terminalRefusals = (\<lambda>_. None),
     stored_view = (\<lambda>b. b), notAfter = None\<rparr>"

text \<open>C23. A live record decides. While a record for the key is found and not expired, a request under its
  key never runs its work: it is refused for an undeclared deadline or as in flight, or as the key of
  another body or another actor, or while the first request is still at work; or it gets the stored answer,
  after its own replay guard. The table of keys and the service's tables stay as they were (the guard is
  the endpoint's own check).\<close>

theorem live_record_decides:
  assumes "getOrganizationId rt = Inr org" and "findKey org endpoint key (keys s) = Some existing"
    and "\<And>n. new_Date rt n < k_expiresAt existing"
  shows "\<exists>s1. ticked s s1 \<and>
    (run rt endpoint key body status work opts s \<in>
       {(Inl (RastaError INTERNAL_ERROR ''A deadline names a refusal its endpoint does not declare''), s),
        (Inl inFlight, s1), (Inl idempotencyKeyReused, s1)} \<or>
     (sameBody existing (fingerprints_of rt (fingerprintVersion opts) body) \<and>
      k_actorHash existing \<in> {None, Some (actor_hash rt)} \<and> k_state existing = COMPLETED \<and>
      run rt endpoint key body status work opts s =
        replay opts (case k_responseStatus existing of None \<Rightarrow> 200 | Some st \<Rightarrow> st) (k_responseBody existing) s1))"
  by (rule run_live [OF assms])

theorem live_record_decides_witness:
  "\<exists>s1. ticked \<lparr>keys = [keyed_record], data = empty_db\<rparr> s1 \<and>
     run keyed_caller ''e'' ''k'' (JNull, None) 201 (\<lambda>_. liftR (Inr (Some 8))) open_options \<lparr>keys = [keyed_record], data = empty_db\<rparr>
       \<in> {(Inl inFlight, s1), (Inl idempotencyKeyReused, s1), (Inr 7, s1),
          (Inl (RastaError INTERNAL_ERROR ''A deadline names a refusal its endpoint does not declare''),
           \<lparr>keys = [keyed_record], data = empty_db\<rparr>)}"
proof -
  have "getOrganizationId keyed_caller = Inr ''A''" by (simp add: getOrganizationId_def keyed_caller_def)
  moreover have "findKey ''A'' ''e'' ''k'' (keys \<lparr>keys = [keyed_record], data = empty_db\<rparr>) = Some keyed_record"
    by (simp add: findKey_def at_key_def keyed_record_def)
  moreover have "new_Date keyed_caller n < k_expiresAt keyed_record" for n
    by (simp add: keyed_caller_def keyed_record_def)
  ultimately obtain s1 where s1: "ticked \<lparr>keys = [keyed_record], data = empty_db\<rparr> s1"
    and "run keyed_caller ''e'' ''k'' (JNull, None) 201 (\<lambda>_. liftR (Inr (Some 8))) open_options \<lparr>keys = [keyed_record], data = empty_db\<rparr> \<in>
        {(Inl (RastaError INTERNAL_ERROR ''A deadline names a refusal its endpoint does not declare''), \<lparr>keys = [keyed_record], data = empty_db\<rparr>),
         (Inl inFlight, s1), (Inl idempotencyKeyReused, s1)} \<or>
      run keyed_caller ''e'' ''k'' (JNull, None) 201 (\<lambda>_. liftR (Inr (Some 8))) open_options \<lparr>keys = [keyed_record], data = empty_db\<rparr> =
        replay open_options (case k_responseStatus keyed_record of None \<Rightarrow> 200 | Some st \<Rightarrow> st) (k_responseBody keyed_record) s1"
    using live_record_decides [of keyed_caller "''A''" "''e''" "''k''" "\<lparr>keys = [keyed_record], data = empty_db\<rparr>" keyed_record
        "(JNull, None)" 201 "\<lambda>_. liftR (Inr (Some 8))" open_options] by blast
  moreover have "replay open_options (case k_responseStatus keyed_record of None \<Rightarrow> 200 | Some st \<Rightarrow> st) (k_responseBody keyed_record) s1 = (Inr 7, s1)"
    by (simp add: replay_def open_options_def keyed_record_def REFUSAL_STATUS_FLOOR_def response_of_def bindR_def liftR_def)
  ultimately show ?thesis by (intro exI [of _ s1]) auto
qed

end
