(* ===== verification/Answers.thy ===== *)
theory Answers
  imports Idempotency_Laws
begin

text \<open>
  How a request under a key ends: its effect and the record of its answer commit in one transaction, and a
  retry is answered from that record.
\<close>

section \<open>Effect and answer\<close>

text \<open>A work of one transaction: its effect, then the answer through the key.\<close>

definition in_one_transaction :: "'a tx \<Rightarrow> ('a \<Rightarrow> 'b) \<Rightarrow> 'b idempotent_answer \<Rightarrow> ('b keyed_db, 'b option) request" where
  "in_one_transaction m view answer =
     atomically (bindM (onData m) (\<lambda>x. thenM (respond answer (view x)) (returnM (Some (view x)))))"

lemma findKey_append_new:
  "findKey org endpoint key rs = None \<Longrightarrow> at_key org endpoint key r \<Longrightarrow> findKey org endpoint key (rs @ [r]) = Some r"
  by (induction rs) (auto simp: findKey_def split: if_splits)

lemma owned_new:
  assumes "findKey org endpoint key rs = None"
  shows "owned_count org endpoint key token (rs @ [r]) = (if owned_claim org endpoint key token r then 1 else 0)"
    and "release_rows org endpoint key token (rs @ [r]) = (if owned_claim org endpoint key token r then rs else rs @ [r])"
    and "complete_rows org endpoint key token status body (rs @ [r]) =
      rs @ [if owned_claim org endpoint key token r
            then r\<lparr>k_state := COMPLETED, k_responseStatus := Some status, k_responseBody := Some body\<rparr> else r]"
proof -
  from assms have n: "\<not> owned_claim org endpoint key token x" if "x \<in> set rs" for x
    using that by (auto simp: findKey_def find_None_iff owned_claim_def)
  show "owned_count org endpoint key token (rs @ [r]) = (if owned_claim org endpoint key token r then 1 else 0)"
    using n by (simp add: owned_count_def)
  show "release_rows org endpoint key token (rs @ [r]) = (if owned_claim org endpoint key token r then rs else rs @ [r])"
    using n by (simp add: release_rows_def)
  show "complete_rows org endpoint key token status body (rs @ [r]) =
      rs @ [if owned_claim org endpoint key token r
            then r\<lparr>k_state := COMPLETED, k_responseStatus := Some status, k_responseBody := Some body\<rparr> else r]"
    using n by (simp add: complete_rows_def cong: map_cong)
qed

text \<open>The row a claim without a deadline writes.\<close>

definition claimed_row :: "string \<Rightarrow> string \<Rightarrow> string \<Rightarrow> fingerprints \<Rightarrow> string \<Rightarrow> string \<Rightarrow> int \<Rightarrow> 'b idempotency_key" where
  "claimed_row org endpoint key fps ah token expiresAt =
     \<lparr>k_key = key, k_organizationId = org, k_endpoint = endpoint, k_requestHash = fp_requestHash fps,
      k_canonicalHash = Some (fp_canonicalHash fps), k_actorHash = Some ah, k_claimToken = Some token,
      k_responseStatus = None, k_responseBody = None, k_state = IN_PROGRESS, k_expiresAt = expiresAt\<rparr>"

lemma at_key_update [simp]:
  "at_key org endpoint key (r\<lparr>k_state := st\<rparr>) = at_key org endpoint key r"
  "at_key org endpoint key (r\<lparr>k_responseStatus := rs\<rparr>) = at_key org endpoint key r"
  "at_key org endpoint key (r\<lparr>k_responseBody := rb\<rparr>) = at_key org endpoint key r"
  by (simp_all add: at_key_def)

lemma claimed_row_owned [simp]:
  "at_key org endpoint key (claimed_row org endpoint key fps ah token ex)"
  "owned_claim org endpoint key token (claimed_row org endpoint key fps ah token ex)"
  by (simp_all add: claimed_row_def at_key_def owned_claim_def)

lemma write_claim_writes:
  assumes "findKey org endpoint key (keys s) = None"
  shows "write_claim rt org endpoint key fps ah token ex None s =
    Inr (False, s\<lparr>keys := keys s @ [claimed_row org endpoint key fps ah token ex]\<rparr>)"
  using assms by (simp add: write_claim_def claimed_row_def action_simps insert_free)

lemma write_claim_free:
  assumes "findKey org endpoint key (keys s) = None"
  shows "atomically (write_claim rt org endpoint key fps ah token ex None) s =
    (Inr False, s\<lparr>keys := keys s @ [claimed_row org endpoint key fps ah token ex]\<rparr>)"
  by (simp add: atomically_def write_claim_writes [OF assms])

lemma claim_free:
  assumes "getOrganizationId rt = Inr org" and "findKey org endpoint key (keys s) = None"
  shows "\<exists>s1 token ex. ticked s s1 \<and>
    (claim rt endpoint key body version None s = (Inl inFlight, s1) \<or>
     claim rt endpoint key body version None s =
       (Inr (PROCEED token), s1\<lparr>keys := keys s1 @ [claimed_row org endpoint key (fingerprints_of rt version body) (actor_hash rt) token ex]\<rparr>))"
proof -
  let ?fps = "fingerprints_of rt version body" and ?ah = "actor_hash rt"
  define s1 where "s1 = s\<lparr>data := (data s)\<lparr>ticks := Suc (ticks (data s))\<rparr>\<rparr>"
  define s2 where "s2 = s1\<lparr>data := (data s1)\<lparr>ticks := Suc (ticks (data s1))\<rparr>\<rparr>"
  define s3 where "s3 = s2\<lparr>data := (data s2)\<lparr>ticks := Suc (ticks (data s2))\<rparr>\<rparr>"
  define token where "token = randomUUID rt (ticks (data s2))"
  define ex where "ex = new_Date rt (ticks (data s1)) + ECONOMIC_IDEMPOTENCY_TTL_HOURS rt * 60 * 60 * 1000"
  define deadline where "deadline = new_Date rt (ticks (data s)) + CLAIM_WAIT_MS"
  let ?m = "write_claim rt org endpoint key ?fps ?ah token ex None"
  have t: "ticked s s3" unfolding s1_def s2_def s3_def by (blast intro: ticked_trans ticked_step)
  obtain s4 where s4: "ticked s3 s4"
    "withinBudget rt deadline ?m s3 = (Inl inFlight, s4) \<or> withinBudget rt deadline ?m s3 = atomically ?m s4"
    using withinBudget_cases by blast
  have t4: "ticked s s4" by (rule ticked_trans [OF t s4(1)])
  have "findKey org endpoint key (keys s4) = None" using assms(2) ticked_keys [OF t4] by simp
  note w = write_claim_free [OF this, of rt ?fps ?ah token ex]
  have once: "claimOnce rt endpoint key ?fps ?ah deadline None s1 =
      (case withinBudget rt deadline ?m s3 of
         (Inr refused, s') \<Rightarrow> (Inr (Some (PROCEED token)), s')
       | (Inl (UniqueViolation _), s') \<Rightarrow> claim_lost_insert rt org endpoint key ?fps ?ah (new_Date rt (ticks (data s1))) deadline s'
       | (Inl e, s') \<Rightarrow> (Inl e, s'))"
    unfolding s3_def s2_def token_def ex_def by (simp add: claimOnce_def bindR_def liftR_def assms(1) onData_tick Let_def split: prod.split sum.split)
  have "claim rt endpoint key body version None s = claim_attempts CLAIM_ATTEMPTS (claimOnce rt endpoint key ?fps ?ah deadline None) s1"
    unfolding claim_def s1_def deadline_def by (simp add: bindR_def onData_tick)
  then have "claim rt endpoint key body version None s = (Inl inFlight, s4) \<or>
      claim rt endpoint key body version None s =
        (Inr (PROCEED token), s4\<lparr>keys := keys s4 @ [claimed_row org endpoint key ?fps ?ah token ex]\<rparr>)"
    using s4(2) w by (auto simp: claim_attempts_first once inFlight_def)
  with t4 show ?thesis by blast
qed

text \<open>What an answered work leaves, and a work that ended in an error.\<close>

lemma perform_one_transaction:
  fixes token :: string
  assumes "getOrganizationId rt = Inr org" and free: "findKey org endpoint key (keys s1) = None"
    and r: "r = claimed_row org endpoint key fps ah token ex" and s2: "s2 = s1\<lparr>keys := keys s1 @ [r]\<rparr>"
  shows "perform rt endpoint key token refusals (in_one_transaction m view (answer_of rt endpoint key token status None refusals)) s2 =
    (case m (data s1) of
       Inr (x, d) \<Rightarrow> (Inr (view x), \<lparr>keys = keys s1 @ [r\<lparr>k_state := COMPLETED, k_responseStatus := Some status,
           k_responseBody := Some (Response (view x))\<rparr>], data = d\<rparr>)
     | Inl (TerminalRefusalError name code) \<Rightarrow>
         if refusals name = None then (Inl (TerminalRefusalError name code), s1)
         else (Inl (TerminalRefusalError name code), s1\<lparr>keys := keys s1 @ [r\<lparr>k_state := COMPLETED,
           k_responseStatus := Some (ERROR_STATUS code), k_responseBody := Some (Refusal name)\<rparr>]\<rparr>)
     | Inl e \<Rightarrow> (Inl e, s1))"
proof -
  have own: "owned_claim org endpoint key token r" by (simp add: r)
  note here = owned_new [OF free, where token = token and r = r, simplified own if_True]
  have rel: "atomically (release rt endpoint key token) s2 = (Inr (), s1)"
    using here(2) by (simp add: s2 release_def atomically_def action_simps assms(1))
  have ref: "atomically (completeRefusal rt endpoint key token name code) s2 =
      (Inr True, s1\<lparr>keys := keys s1 @ [r\<lparr>k_state := COMPLETED,
           k_responseStatus := Some (ERROR_STATUS code), k_responseBody := Some (Refusal name)\<rparr>]\<rparr>)" for name code
    using here(1,3) by (simp add: s2 completeRefusal_def atomically_def action_simps assms(1))
  show ?thesis
  proof (cases "m (data s1)")
    case (Inl e)
    then have w: "in_one_transaction m view (answer_of rt endpoint key token status None refusals) s2 = (Inl e, s2)"
      by (simp add: in_one_transaction_def atomically_def bindM_def onData_def s2)
    show ?thesis
      by (cases e) (auto simp: perform_def w Inl rel ref bindR_def liftR_def Let_def)
  next
    case (Inr p)
    obtain x d where p: "p = (x, d)" by (cases p)
    have "complete rt endpoint key token status (Response (view x)) \<lparr>keys = keys s1 @ [r], data = d\<rparr> =
        Inr ((), \<lparr>keys = keys s1 @ [r\<lparr>k_state := COMPLETED, k_responseStatus := Some status,
           k_responseBody := Some (Response (view x))\<rparr>], data = d\<rparr>)"
      using here(1,3) by (simp add: complete_def action_simps assms(1))
    with Inr p have "in_one_transaction m view (answer_of rt endpoint key token status None refusals) s2 =
        (Inr (Some (view x)), \<lparr>keys = keys s1 @ [r\<lparr>k_state := COMPLETED, k_responseStatus := Some status,
           k_responseBody := Some (Response (view x))\<rparr>], data = d\<rparr>)"
      by (cases s1) (simp add: in_one_transaction_def atomically_def onData_def s2 answer_of_def refuseWhenPast_def action_simps)
    with Inr p show ?thesis by (simp add: perform_def)
  qed
qed

lemma run_one_transaction:
  assumes org: "getOrganizationId rt = Inr org" and free: "findKey org endpoint key (keys s) = None" and na: "notAfter opts = None"
  shows "\<exists>s1 token ex. ticked s s1 \<and>
    (run rt endpoint key body status (in_one_transaction m view) opts s = (Inl inFlight, s1) \<or>
     run rt endpoint key body status (in_one_transaction m view) opts s =
       perform rt endpoint key token (terminalRefusals opts)
         (in_one_transaction m view (answer_of rt endpoint key token status None (terminalRefusals opts)))
         (s1\<lparr>keys := keys s1 @ [claimed_row org endpoint key (fingerprints_of rt (fingerprintVersion opts) body) (actor_hash rt) token ex]\<rparr>))"
proof -
  from claim_free [OF org free, of body "fingerprintVersion opts"] obtain s1 token ex where c: "ticked s s1"
    "claim rt endpoint key body (fingerprintVersion opts) None s = (Inl inFlight, s1) \<or>
     claim rt endpoint key body (fingerprintVersion opts) None s = (Inr (PROCEED token),
       s1\<lparr>keys := keys s1 @ [claimed_row org endpoint key (fingerprints_of rt (fingerprintVersion opts) body) (actor_hash rt) token ex]\<rparr>)"
    by blast
  from na have f: "fenceOf (notAfter opts) (terminalRefusals opts) = Inr None" by (simp add: fenceOf_def)
  show ?thesis
    by (rule exI [of _ s1], rule exI [of _ token], rule exI [of _ ex], use c f in \<open>auto simp: run_def bindR_def liftR_def\<close>)
qed

text \<open>C21. An effect and its answer commit together. A request under a free key whose work is one transaction either
  commits the effect of that transaction together with the completed record of exactly the response it
  returns; or fails as its transaction fails (or as in flight), with the service's tables as they
  were: the key is free again, or it holds the refusal, when the endpoint declares the refusal as final.\<close>

theorem answer_commits_with_effect:
  assumes "getOrganizationId rt = Inr org" and "findKey org endpoint key (keys s) = None" and "notAfter opts = None"
  shows "\<exists>s1 row. ticked s s1 \<and> at_key org endpoint key row \<and>
    (case run rt endpoint key body status (in_one_transaction m view) opts s of
       (Inr answer, s') \<Rightarrow> \<exists>x. m (data s1) = Inr (x, data s') \<and> answer = view x \<and> keys s' = keys s @ [row] \<and>
          k_state row = COMPLETED \<and> k_responseStatus row = Some status \<and> k_responseBody row = Some (Response answer)
     | (Inl e, s') \<Rightarrow> (e = inFlight \<or> m (data s1) = Inl e) \<and> data s' = data s1 \<and>
          (keys s' = keys s \<or>
           (\<exists>name code. e = TerminalRefusalError name code \<and> terminalRefusals opts name \<noteq> None \<and> keys s' = keys s @ [row] \<and>
              k_state row = COMPLETED \<and> k_responseStatus row = Some (ERROR_STATUS code) \<and> k_responseBody row = Some (Refusal name))))"
proof -
  let ?fps = "fingerprints_of rt (fingerprintVersion opts) body" and ?refusals = "terminalRefusals opts"
  from run_one_transaction [OF assms, of body status m view] obtain s1 token ex where s1: "ticked s s1"
    "run rt endpoint key body status (in_one_transaction m view) opts s = (Inl inFlight, s1) \<or>
     run rt endpoint key body status (in_one_transaction m view) opts s =
       perform rt endpoint key token ?refusals (in_one_transaction m view (answer_of rt endpoint key token status None ?refusals))
         (s1\<lparr>keys := keys s1 @ [claimed_row org endpoint key ?fps (actor_hash rt) token ex]\<rparr>)" by blast
  let ?r = "claimed_row org endpoint key ?fps (actor_hash rt) token ex"
  have k: "keys s1 = keys s" by (rule ticked_keys [OF s1(1)])
  then have free: "findKey org endpoint key (keys s1) = None" using assms(2) by simp
  note p = perform_one_transaction [OF assms(1) free refl refl, of token ?refusals m view status ?fps "actor_hash rt" ex]
  from s1(2) show ?thesis
  proof
    assume "run rt endpoint key body status (in_one_transaction m view) opts s = (Inl inFlight, s1)"
    then show ?thesis using s1(1) k by (intro exI [of _ s1] exI [of _ ?r]) simp
  next
    assume r: "run rt endpoint key body status (in_one_transaction m view) opts s =
       perform rt endpoint key token ?refusals (in_one_transaction m view (answer_of rt endpoint key token status None ?refusals))
         (s1\<lparr>keys := keys s1 @ [?r]\<rparr>)"
    show ?thesis
    proof (cases "m (data s1)")
      case (Inr q)
      obtain x d where q: "q = (x, d)" by (cases q)
      show ?thesis using s1(1) k r p Inr q
        by (intro exI [of _ s1] exI [of _ "?r\<lparr>k_state := COMPLETED, k_responseStatus := Some status,
              k_responseBody := Some (Response (view x))\<rparr>"]) simp
    next
      case (Inl e)
      let ?row = "case e of TerminalRefusalError name code \<Rightarrow>
          ?r\<lparr>k_state := COMPLETED, k_responseStatus := Some (ERROR_STATUS code), k_responseBody := Some (Refusal name)\<rparr> | _ \<Rightarrow> ?r"
      show ?thesis using s1(1) k r p Inl
        by (intro exI [of _ s1] exI [of _ ?row]) (cases e; simp)
    qed
  qed
qed

theorem answer_commits_with_effect_witness:
  "\<exists>s1 row. ticked \<lparr>keys = [], data = empty_db\<rparr> s1 \<and> at_key ''A'' ''e'' ''k'' row \<and>
    (case run keyed_caller ''e'' ''k'' (JNull, None) 201 (in_one_transaction next_tick (\<lambda>n. 7)) open_options \<lparr>keys = [], data = empty_db\<rparr> of
       (Inr answer, s') \<Rightarrow> answer = 7 \<and> keys s' = [row] \<and> k_state row = COMPLETED \<and> k_responseBody row = Some (Response 7)
     | (Inl e, s') \<Rightarrow> e = inFlight \<and> keys s' = [])"
proof -
  have h: "getOrganizationId keyed_caller = Inr ''A''" "findKey ''A'' ''e'' ''k'' (keys \<lparr>keys = [], data = empty_db\<rparr>) = None"
    "notAfter open_options = None" "terminalRefusals open_options = (\<lambda>_. None)"
    by (simp_all add: getOrganizationId_def keyed_caller_def findKey_def open_options_def)
  from answer_commits_with_effect [OF h(1-3), where body = "(JNull, None)" and status = 201 and m = next_tick and view = "\<lambda>n. 7"]
  show ?thesis by (elim exE) (auto simp: h(4) next_tick_def split: prod.splits sum.splits)
qed

section \<open>The retry\<close>


definition first_run :: "(failure + nat) \<times> nat keyed_db" where
  "first_run = run keyed_caller ''e'' ''k'' (JObject [(''a'', JNull), (''b'', JNull)], None) 201 (in_one_transaction next_tick (\<lambda>n. 7)) open_options
     \<lparr>keys = [], data = empty_db\<rparr>"

lemma first_run_answers: "fst first_run = Inr 7" by code_simp

lemma first_run_expires: "list_all (\<lambda>r. 99 < k_expiresAt r) (keys (snd first_run))" by code_simp


end
