(* ===== verification/Interleaving.thy ===== *)
theory Interleaving
  imports Answers
begin

text \<open>
  Requests that interleave. Each statement the store sends is one step, taken by any request at any time, with
  any delay between the statements of one request: a request may stall between its claim and its effect while its
  record expires, is removed and is claimed by another. A token is never issued twice (a random UUID);
  the clock that decides expiry only moves forward, and a request may act on a reading it took earlier.
\<close>

record effect =
  ef_key :: "string \<times> string \<times> string"
  ef_token :: string
  ef_claimed :: int
  ef_expires :: int

text \<open>The store, the clock, the tokens issued and when their claims were written, the effects committed.\<close>

record 'b system =
  store :: "'b keyed_db"
  now :: int
  issued :: "string set"
  claimed_at :: "string \<Rightarrow> int"
  effects :: "effect list"

definition row_key :: "'b idempotency_key \<Rightarrow> string \<times> string \<times> string" where
  "row_key r = (k_organizationId r, k_endpoint r, k_key r)"

definition expiry_of :: "string \<times> string \<times> string \<Rightarrow> string \<Rightarrow> 'b idempotency_key list \<Rightarrow> int" where
  "expiry_of k token rs = (case find (\<lambda>r. row_key r = k \<and> k_claimToken r = Some token) rs of Some r \<Rightarrow> k_expiresAt r | None \<Rightarrow> 0)"

inductive system_step :: "'b system \<Rightarrow> 'b system \<Rightarrow> bool" where
  clock: "now y \<le> t \<Longrightarrow> system_step y (y\<lparr>now := t\<rparr>)"
| claimed: "write_claim (rt :: keyed_runtime) org endpoint key fps ah token expiresAt fence (store y) = Inr (past, s') \<Longrightarrow> token \<notin> issued y \<Longrightarrow>
    system_step y (y\<lparr>store := s', issued := insert token (issued y), claimed_at := (claimed_at y)(token := now y)\<rparr>)"
| removed: "t \<le> now y \<Longrightarrow>
    system_step y (y\<lparr>store := (store y)\<lparr>keys := delete_expired org endpoint key t (keys (store y))\<rparr>\<rparr>)"
| purged: "t \<le> now y \<Longrightarrow> system_step y (y\<lparr>store := (store y)\<lparr>keys := purge_rows t (keys (store y))\<rparr>\<rparr>)"
| answered: "thenM (onData (m :: unit tx)) (complete (rt :: keyed_runtime) endpoint key token status body) (store y) = Inr (u, s') \<Longrightarrow>
    getOrganizationId rt = Inr org \<Longrightarrow>
    system_step y (y\<lparr>store := s', effects := effects y @
      [\<lparr>ef_key = (org, endpoint, key), ef_token = token, ef_claimed = claimed_at y token,
        ef_expires = expiry_of (org, endpoint, key) token (keys (store y))\<rparr>]\<rparr>)"
| refusal: "completeRefusal (rt :: keyed_runtime) endpoint key token name code (store y) = Inr (recorded, s') \<Longrightarrow>
    system_step y (y\<lparr>store := s'\<rparr>)"
| released: "release (rt :: keyed_runtime) endpoint key token (store y) = Inr (u, s') \<Longrightarrow> system_step y (y\<lparr>store := s'\<rparr>)"
| otherwise: "system_step y (y\<lparr>store := (store y)\<lparr>data := d\<rparr>\<rparr>)"

inductive system_reachable :: "'b system \<Rightarrow> bool" where
  start: "keys (store y) = [] \<Longrightarrow> issued y = {} \<Longrightarrow> effects y = [] \<Longrightarrow> system_reachable y"
| steps: "system_reachable y \<Longrightarrow> system_step y y' \<Longrightarrow> system_reachable y'"

section \<open>The invariant\<close>

text \<open>A row of the table of an earlier effect's key is that effect's own, or was claimed after its record expired.\<close>

definition supersedes :: "('b, 'c) system_scheme \<Rightarrow> 'b idempotency_key \<Rightarrow> effect \<Rightarrow> bool" where
  "supersedes y r e \<longleftrightarrow>
     (k_claimToken r = Some (ef_token e) \<and> k_state r = COMPLETED \<and> k_expiresAt r = ef_expires e) \<or>
     (\<exists>t. k_claimToken r = Some t \<and> t \<noteq> ef_token e \<and> ef_expires e \<le> claimed_at y t)"

lemma supersedes_effects [simp]: "supersedes (y\<lparr>effects := es\<rparr>) r e = supersedes y r e"
  by (simp add: supersedes_def)

definition rows_ok :: "('b, 'c) system_scheme \<Rightarrow> bool" where
  "rows_ok y \<longleftrightarrow>
     distinct (map row_key (keys (store y))) \<and> distinct (map k_claimToken (keys (store y))) \<and>
     (\<forall>r\<in>set (keys (store y)). \<exists>t\<in>issued y. k_claimToken r = Some t) \<and>
     (\<forall>t\<in>issued y. claimed_at y t \<le> now y)"

definition effects_ok :: "('b, 'c) system_scheme \<Rightarrow> bool" where
  "effects_ok y \<longleftrightarrow>
     (\<forall>e\<in>set (effects y). ef_token e \<in> issued y \<and> ef_claimed e = claimed_at y (ef_token e) \<and>
        (\<forall>r\<in>set (keys (store y)). k_claimToken r = Some (ef_token e) \<longrightarrow> row_key r = ef_key e) \<and>
        (if ef_key e \<in> row_key ` set (keys (store y))
         then \<forall>r\<in>set (keys (store y)). row_key r = ef_key e \<longrightarrow> supersedes y r e
         else ef_expires e \<le> now y))"

definition once :: "effect list \<Rightarrow> bool" where
  "once es \<longleftrightarrow> distinct (map ef_token es) \<and>
     sorted_wrt (\<lambda>e f. ef_key e = ef_key f \<longrightarrow> ef_expires e \<le> ef_claimed f) es"

definition system_ok :: "('b, 'c) system_scheme \<Rightarrow> bool" where
  "system_ok y \<longleftrightarrow> rows_ok y \<and> effects_ok y \<and> once (effects y)"

text \<open>Steps that take rows away: an answered one only once it has expired.\<close>

lemma system_ok_filter:
  assumes ok: "system_ok y" and k: "keys s' = filter P (keys (store y))"
    and e: "\<And>r. r \<in> set (keys (store y)) \<Longrightarrow> \<not> P r \<Longrightarrow> k_state r = COMPLETED \<Longrightarrow> k_expiresAt r \<le> now y"
  shows "system_ok (y\<lparr>store := s'\<rparr>)"
proof -
  have "ef_expires x \<le> now y" if x: "x \<in> set (effects y)" and gone: "ef_key x \<notin> row_key ` set (filter P (keys (store y)))" for x
  proof (cases "ef_key x \<in> row_key ` set (keys (store y))")
    case True
    then obtain r where r: "r \<in> set (keys (store y))" "row_key r = ef_key x" by auto
    with x ok True have s: "supersedes y r x" by (auto simp: system_ok_def effects_ok_def)
    from r gone have "\<not> P r" by (auto simp: image_iff)
    with s e [OF r(1)] show ?thesis
    proof (cases "k_claimToken r = Some (ef_token x)")
      case False
      with s obtain t where "k_claimToken r = Some t" "ef_expires x \<le> claimed_at y t" by (auto simp: supersedes_def)
      moreover from this r ok have "claimed_at y t \<le> now y" by (auto simp: system_ok_def rows_ok_def)
      ultimately show ?thesis by simp
    qed (auto simp: supersedes_def)
  next
    case False
    with x ok show ?thesis by (auto simp: system_ok_def effects_ok_def)
  qed
  note gone = this
  have rows: "rows_ok (y\<lparr>store := s'\<rparr>)"
    using ok unfolding system_ok_def rows_ok_def by (auto simp: k distinct_map_filter)
  have "effects_ok (y\<lparr>store := s'\<rparr>)"
    unfolding effects_ok_def
  proof (intro ballI, goal_cases)
    case (1 x)
    then have x: "x \<in> set (effects y)" by simp
    with ok have old: "ef_token x \<in> issued y" "ef_claimed x = claimed_at y (ef_token x)"
      "\<forall>r\<in>set (keys (store y)). k_claimToken r = Some (ef_token x) \<longrightarrow> row_key r = ef_key x"
      by (simp_all add: system_ok_def effects_ok_def)
    have "supersedes (y\<lparr>store := s'\<rparr>) r x" if r: "r \<in> set (keys (store y))" "row_key r = ef_key x" for r
    proof -
      from r have "ef_key x \<in> row_key ` set (keys (store y))" by (metis imageI)
      with ok x r have "supersedes y r x" by (simp add: system_ok_def effects_ok_def)
      then show ?thesis by (simp add: supersedes_def)
    qed
    then show ?case using old gone [OF x] by (simp add: k)
  qed
  with rows ok show ?thesis by (simp add: system_ok_def)
qed


text \<open>Steps that answer a claim in place.\<close>

lemma system_ok_map:
  assumes ok: "system_ok y" and k: "keys s' = map f (keys (store y))"
    and f: "\<And>r. row_key (f r) = row_key r" "\<And>r. k_claimToken (f r) = k_claimToken r" "\<And>r. k_expiresAt (f r) = k_expiresAt r"
      "\<And>r. k_state r = COMPLETED \<Longrightarrow> k_state (f r) = COMPLETED"
  shows "system_ok (y\<lparr>store := s'\<rparr>)"
proof -
  have m: "map row_key (map f rs) = map row_key rs" "map k_claimToken (map f rs) = map k_claimToken rs" for rs
    by (simp_all add: f(1,2))
  have im: "row_key ` f ` A = row_key ` A" for A by (simp add: image_image f(1))
  have "rows_ok (y\<lparr>store := s'\<rparr>)"
    using ok unfolding system_ok_def rows_ok_def by (simp add: k m f(2) del: map_map)
  moreover have "effects_ok (y\<lparr>store := s'\<rparr>)"
    unfolding effects_ok_def
  proof (intro ballI, goal_cases)
    case (1 x)
    have sup: "supersedes (y\<lparr>store := s'\<rparr>) (f r) e" if "supersedes y r e" for r e
      using that f(2,3) f(4) [of r] by (auto simp: supersedes_def)
    from 1 have x: "x \<in> set (effects y)" by simp
    with ok show ?case using sup by (simp add: system_ok_def effects_ok_def k im f(1,2))
  qed
  ultimately show ?thesis using ok by (simp add: system_ok_def)
qed

definition answered_row ::
  "string \<Rightarrow> string \<Rightarrow> string \<Rightarrow> string \<Rightarrow> nat \<Rightarrow> 'b stored \<Rightarrow> 'b idempotency_key \<Rightarrow> 'b idempotency_key"
where
  "answered_row org endpoint key token status body r =
     (if owned_claim org endpoint key token r
      then r\<lparr>k_state := COMPLETED, k_responseStatus := Some status, k_responseBody := Some body\<rparr> else r)"

lemma complete_rows_map: "complete_rows org endpoint key token status body rs = map (answered_row org endpoint key token status body) rs"
  by (simp add: complete_rows_def answered_row_def)

lemma answered_row_facts:
  "row_key (answered_row org endpoint key token status body r) = row_key r"
  "k_claimToken (answered_row org endpoint key token status body r) = k_claimToken r"
  "k_expiresAt (answered_row org endpoint key token status body r) = k_expiresAt r"
  "k_state r = COMPLETED \<Longrightarrow> k_state (answered_row org endpoint key token status body r) = COMPLETED"
  by (simp_all add: answered_row_def row_key_def)

lemma owned_row:
  assumes "owned_count org endpoint key token rs = 1"
  obtains r where "r \<in> set rs" "row_key r = (org, endpoint, key)" "k_claimToken r = Some token" "k_state r = IN_PROGRESS"
proof -
  from assms have "filter (owned_claim org endpoint key token) rs \<noteq> []" by (auto simp: owned_count_def)
  then obtain r where "r \<in> set rs" "owned_claim org endpoint key token r" by (auto simp: filter_empty_conv)
  then show thesis by (intro that) (auto simp: owned_claim_def at_key_def row_key_def)
qed

lemma system_ok_effect:
  assumes ok: "system_ok y" and one: "owned_count org endpoint key token (keys (store y)) = 1"
    and k: "keys s' = complete_rows org endpoint key token status body (keys (store y))"
  shows "system_ok (y\<lparr>store := s', effects := effects y @
      [\<lparr>ef_key = (org, endpoint, key), ef_token = token, ef_claimed = claimed_at y token,
        ef_expires = expiry_of (org, endpoint, key) token (keys (store y))\<rparr>]\<rparr>)"
proof -
  let ?y = "y\<lparr>store := s'\<rparr>" and ?rs = "keys (store y)"
  let ?e = "\<lparr>ef_key = (org, endpoint, key), ef_token = token, ef_claimed = claimed_at y token,
        ef_expires = expiry_of (org, endpoint, key) token ?rs\<rparr>"
  have m: "system_ok ?y" by (rule system_ok_map [OF ok k [unfolded complete_rows_map]]) (simp_all add: answered_row_facts)
  obtain r where r: "r \<in> set ?rs" "row_key r = (org, endpoint, key)" "k_claimToken r = Some token" "k_state r = IN_PROGRESS"
    using owned_row [OF one] .
  have uniq: "q = r" if "q \<in> set ?rs" "row_key q = row_key r \<or> k_claimToken q = k_claimToken r" for q
    using that r(1) ok by (auto simp: system_ok_def rows_ok_def dest: distinct_map_eq)
  have before: "ef_token e \<noteq> token \<and> (ef_key e = (org, endpoint, key) \<longrightarrow> ef_expires e \<le> claimed_at y token)"
    if e: "e \<in> set (effects y)" for e
  proof -
    have own: "k_claimToken r = Some (ef_token e) \<longrightarrow> row_key r = ef_key e"
      using e ok r(1) by (simp add: system_ok_def effects_ok_def)
    have sup: "supersedes y r e" if "row_key r = ef_key e"
    proof -
      from that r(1) have "ef_key e \<in> row_key ` set ?rs" by (metis imageI)
      with that e ok r(1) show ?thesis by (simp add: system_ok_def effects_ok_def)
    qed
    have ne: "ef_token e \<noteq> token"
    proof
      assume eq: "ef_token e = token"
      with own r(3) have "supersedes y r e" by (intro sup) simp
      with eq r(3,4) show False by (simp add: supersedes_def)
    qed
    moreover have "ef_expires e \<le> claimed_at y token" if "ef_key e = (org, endpoint, key)"
    proof -
      from that r(2) have "supersedes y r e" by (intro sup) simp
      with ne r(3) show ?thesis by (simp add: supersedes_def)
    qed
    ultimately show ?thesis by simp
  qed
  let ?f = "answered_row org endpoint key token status body"
  have f: "?f r = r\<lparr>k_state := COMPLETED, k_responseStatus := Some status, k_responseBody := Some body\<rparr>"
    using r by (simp add: answered_row_def owned_claim_def at_key_def row_key_def)
  have ex: "expiry_of (org, endpoint, key) token ?rs = k_expiresAt r"
  proof -
    have "find (\<lambda>q. row_key q = (org, endpoint, key) \<and> k_claimToken q = Some token) ?rs \<noteq> None"
      using r by (auto simp: find_None_iff)
    then obtain q where q: "find (\<lambda>q. row_key q = (org, endpoint, key) \<and> k_claimToken q = Some token) ?rs = Some q" by blast
    then have "q \<in> set ?rs \<and> row_key q = (org, endpoint, key)" by (auto dest: find_SomeD)
    with uniq r(2) have "q = r" by simp
    with q show ?thesis by (simp add: expiry_of_def)
  qed
  have rows: "rows_ok ?y" "effects_ok ?y" "once (effects y)" using m by (simp_all add: system_ok_def)
  have sup: "supersedes (?y\<lparr>effects := effects y @ [?e]\<rparr>) q ?e" if "q \<in> set (keys s')" "row_key q = (org, endpoint, key)" for q
  proof -
    from that(1) obtain p where p: "p \<in> set ?rs" "q = ?f p" unfolding k complete_rows_map by auto
    then have "row_key p = (org, endpoint, key)" using that(2) answered_row_facts(1) by metis
    with uniq p(1) r(2) have "p = r" by simp
    with p(2) f have "q = r\<lparr>k_state := COMPLETED, k_responseStatus := Some status, k_responseBody := Some body\<rparr>" by simp
    with r ex show ?thesis by (simp add: supersedes_def)
  qed
  have "effects_ok (?y\<lparr>effects := effects y @ [?e]\<rparr>)"
    unfolding effects_ok_def
  proof (intro ballI)
    fix e assume "e \<in> set (effects (?y\<lparr>effects := effects y @ [?e]\<rparr>))"
    then consider "e \<in> set (effects y)" | "e = ?e" by auto
    then show "ef_token e \<in> issued (?y\<lparr>effects := effects y @ [?e]\<rparr>) \<and>
        ef_claimed e = claimed_at (?y\<lparr>effects := effects y @ [?e]\<rparr>) (ef_token e) \<and>
        (\<forall>r\<in>set (keys (store (?y\<lparr>effects := effects y @ [?e]\<rparr>))). k_claimToken r = Some (ef_token e) \<longrightarrow> row_key r = ef_key e) \<and>
        (if ef_key e \<in> row_key ` set (keys (store (?y\<lparr>effects := effects y @ [?e]\<rparr>)))
         then \<forall>r\<in>set (keys (store (?y\<lparr>effects := effects y @ [?e]\<rparr>))). row_key r = ef_key e \<longrightarrow>
           supersedes (?y\<lparr>effects := effects y @ [?e]\<rparr>) r e
         else ef_expires e \<le> now (?y\<lparr>effects := effects y @ [?e]\<rparr>))"
    proof cases
      case 1
      from bspec [OF rows(2) [unfolded effects_ok_def], of e] 1 show ?thesis
        by (cases "ef_key e \<in> row_key ` set (keys s')") simp_all
    next
      case 2
      have "token \<in> issued y" using ok r(1,3) by (auto simp: system_ok_def rows_ok_def)
      moreover have "row_key q = (org, endpoint, key)" if "q \<in> set (keys s')" "k_claimToken q = Some token" for q
      proof -
        from that(1) obtain p where p: "p \<in> set ?rs" "q = ?f p" unfolding k complete_rows_map by auto
        then have "k_claimToken p = Some token" using that(2) answered_row_facts(2) by metis
        with uniq p(1) r(3) have "p = r" by simp
        with p(2) r(2) show ?thesis using answered_row_facts(1) by metis
      qed
      moreover have "(org, endpoint, key) \<in> row_key ` set (keys s')"
        unfolding k complete_rows_map using r(1,2) answered_row_facts(1) by (metis image_eqI list.set_map)
      ultimately show ?thesis using 2 sup by simp
    qed
  qed
  moreover have "once (effects y @ [?e])"
    using rows(3) before by (auto simp: once_def sorted_wrt_append)
  ultimately show ?thesis using rows(1) by (simp add: system_ok_def rows_ok_def)
qed

text \<open>A claim that is written found no row at its key.\<close>

lemma insert_key_ok:
  assumes "insert_key n s = Inr (u, s')"
  shows "keys s' = keys s @ [n]" "row_key n \<notin> row_key ` set (keys s)"
  using assms by (auto simp: insert_key_def bindM_Inr thenM_Inr getsM_def assertM_Inr modifyM_def list_ex_iff at_key_def row_key_def)

lemma write_claim_ok:
  assumes "write_claim rt org endpoint key fps ah token expiresAt fence s = Inr (past, s')"
  obtains n where "keys s' = keys s @ [n]" "row_key n \<notin> row_key ` set (keys s)" "k_claimToken n = Some token"
proof -
  have "\<exists>n q. insert_key n q = Inr ((), s') \<and> keys q = keys s \<and> k_claimToken n = Some token"
  proof (cases fence)
    case None
    with assms show ?thesis by (auto simp: write_claim_def bindM_Inr thenM_Inr returnM_def intro!: exI [of _ s])
  next
    case (Some f)
    with assms show ?thesis
      by (force simp: write_claim_def bindM_Inr thenM_Inr returnM_def onData_tick)
  qed
  then obtain n q where i: "insert_key n q = Inr ((), s')" "keys q = keys s" "k_claimToken n = Some token" by blast
  from insert_key_ok [OF i(1)] i(2,3) show thesis by (intro that) simp_all
qed

lemma system_ok_claim:
  assumes ok: "system_ok y" and k: "keys s' = keys (store y) @ [n]" and free: "row_key n \<notin> row_key ` set (keys (store y))"
    and t: "k_claimToken n = Some token" "token \<notin> issued y"
  shows "system_ok (y\<lparr>store := s', issued := insert token (issued y), claimed_at := (claimed_at y)(token := now y)\<rparr>)"
proof -
  let ?y = "y\<lparr>store := s', issued := insert token (issued y), claimed_at := (claimed_at y)(token := now y)\<rparr>"
  have new: "k_claimToken r \<noteq> Some token" if "r \<in> set (keys (store y))" for r
    using that ok t(2) by (auto simp: system_ok_def rows_ok_def)
  then have "Some token \<notin> k_claimToken ` set (keys (store y))" by (metis imageE)
  then have rows: "rows_ok ?y"
    using ok free t(1) by (auto simp: system_ok_def rows_ok_def k)
  have "effects_ok ?y"
    unfolding effects_ok_def
  proof (intro ballI, goal_cases)
    case (1 x)
    then have x: "x \<in> set (effects y)" by simp
    with ok have old: "ef_token x \<in> issued y" "ef_claimed x = claimed_at y (ef_token x)"
      "\<forall>r\<in>set (keys (store y)). k_claimToken r = Some (ef_token x) \<longrightarrow> row_key r = ef_key x"
      by (simp_all add: system_ok_def effects_ok_def)
    then have ne: "ef_token x \<noteq> token" using t(2) by blast
    have live: "supersedes ?y r x" if "r \<in> set (keys (store y))" "row_key r = ef_key x" for r
    proof -
      from that have "ef_key x \<in> row_key ` set (keys (store y))" by (metis imageI)
      with ok x that have "supersedes y r x" by (simp add: system_ok_def effects_ok_def)
      with new [OF that(1)] show ?thesis by (auto simp: supersedes_def)
    qed
    have over: "ef_expires x \<le> now y" if "ef_key x \<notin> row_key ` set (keys (store y))"
      using that ok x by (simp add: system_ok_def effects_ok_def)
    have fresh: "supersedes ?y n x" if "row_key n = ef_key x"
      using over that free t(1) ne by (simp add: supersedes_def)
    show ?case
      using old ne live over fresh t(1) by (simp add: k) 
  qed
  with rows ok show ?thesis by (simp add: system_ok_def)
qed

text \<open>The answer of a success, the recorded refusal, the release.\<close>

lemma onData_keys: "onData m s = Inr (x, s') \<Longrightarrow> keys s' = keys s"
  by (auto simp: onData_def split: sum.splits)

lemma complete_ok:
  assumes "complete rt endpoint key token status body s = Inr (u, s')" and "getOrganizationId rt = Inr org"
  shows "owned_count org endpoint key token (keys s) = 1"
    "keys s' = complete_rows org endpoint key token status body (keys s)"
  using assms by (auto simp: complete_def bindM_Inr thenM_Inr getsM_def assertM_Inr modifyM_def liftM_Inr)

lemma completeRefusal_ok:
  "completeRefusal rt endpoint key token name code s = Inr (b, s') \<Longrightarrow>
   \<exists>org. keys s' = complete_rows org endpoint key token (ERROR_STATUS code) (Refusal name) (keys s)"
  by (auto simp: completeRefusal_def bindM_Inr thenM_Inr getsM_def modifyM_def liftM_Inr returnM_def)

lemma release_ok:
  "release rt endpoint key token s = Inr (u, s') \<Longrightarrow>
   \<exists>org. keys s' = release_rows org endpoint key token (keys s)"
  by (auto simp: release_def bindM_Inr modifyM_def liftM_Inr)

lemma system_ok_clock: "system_ok y \<Longrightarrow> now y \<le> t \<Longrightarrow> system_ok (y\<lparr>now := t\<rparr>)"
  by (force simp: system_ok_def rows_ok_def effects_ok_def supersedes_def)

lemma system_ok_data: "system_ok y \<Longrightarrow> system_ok (y\<lparr>store := (store y)\<lparr>data := d\<rparr>\<rparr>)"
  by (rule system_ok_filter [where P = "\<lambda>_. True"]) simp_all

lemma system_ok_step:
  assumes "system_step y y'" and ok: "system_ok y"
  shows "system_ok y'"
  using assms(1)
proof cases
  case (clock t)
  with ok show ?thesis by (simp add: system_ok_clock)
next
  case (claimed rt org endpoint key fps ah token expiresAt fence past s')
  from write_claim_ok [OF claimed(2)] obtain n where
    "keys s' = keys (store y) @ [n]" "row_key n \<notin> row_key ` set (keys (store y))" "k_claimToken n = Some token" .
  from system_ok_claim [OF ok this claimed(3)] claimed(1) show ?thesis by simp
next
  case (removed t org endpoint key)
  then show ?thesis by (auto intro: system_ok_filter [OF ok] simp: delete_expired_def)
next
  case (purged t)
  then show ?thesis by (auto intro: system_ok_filter [OF ok] simp: purge_rows_def)
next
  case (answered m rt endpoint key token status body u s' org)
  from answered(2) obtain x q where q: "onData m (store y) = Inr (x, q)" "complete rt endpoint key token status body q = Inr (u, s')"
    by (auto simp: thenM_Inr)
  have k: "keys q = keys (store y)" by (rule onData_keys [OF q(1)])
  from complete_ok [OF q(2) answered(3)] have "owned_count org endpoint key token (keys (store y)) = 1"
    "keys s' = complete_rows org endpoint key token status body (keys (store y))" by (simp_all add: k)
  from system_ok_effect [OF ok this] answered(1) show ?thesis by simp
next
  case (refusal rt endpoint key token name code recorded s')
  from completeRefusal_ok [OF refusal(2)] obtain org where
    "keys s' = map (answered_row org endpoint key token (ERROR_STATUS code) (Refusal name)) (keys (store y))"
    by (auto simp: complete_rows_map)
  from system_ok_map [OF ok this answered_row_facts] refusal(1) show ?thesis by simp
next
  case (released rt endpoint key token u s')
  from release_ok [OF released(2)] obtain org where
    k: "keys s' = filter (\<lambda>r. \<not> owned_claim org endpoint key token r) (keys (store y))" by (auto simp: release_rows_def)
  have "system_ok (y\<lparr>store := s'\<rparr>)" by (rule system_ok_filter [OF ok k]) (simp add: owned_claim_def)
  with released(1) show ?thesis by simp
next
  case (otherwise d)
  with ok show ?thesis by (simp add: system_ok_data)
qed

lemma system_reachable_ok: "system_reachable y \<Longrightarrow> system_ok y"
proof (induction rule: system_reachable.induct)
  case (start y)
  then show ?case by (simp add: system_ok_def rows_ok_def effects_ok_def once_def)
next
  case (steps y y')
  then show ?case using system_ok_step by blast
qed

text \<open>C20. At most once. However requests under a key interleave, stall, are purged and come back, an effect commits
  under a claim once; and an effect that follows another under the same key was claimed after the
  first one's record expired. So within the lifetime of a record its key has one effect.\<close>

theorem at_most_once:
  assumes "system_reachable y"
  shows "distinct (map ef_token (effects y)) \<and>
    sorted_wrt (\<lambda>e f. ef_key e = ef_key f \<longrightarrow> ef_expires e \<le> ef_claimed f) (effects y)"
  using system_reachable_ok [OF assms] by (simp add: system_ok_def once_def)

text \<open>A key that is claimed, answered, expires, is removed and is claimed again.\<close>

definition demo_row :: "string \<Rightarrow> int \<Rightarrow> nat idempotency_key" where
  "demo_row token ex = claimed_row ''A'' ''e'' ''k'' \<lparr>fp_requestHash = ''h'', fp_canonicalHash = ''h''\<rparr> ''c'' token ex"

definition demo_answer :: "string \<Rightarrow> int \<Rightarrow> nat idempotency_key" where
  "demo_answer token ex = (demo_row token ex)\<lparr>k_state := COMPLETED, k_responseStatus := Some 201, k_responseBody := Some (Response 7)\<rparr>"

lemma demo_claimed:
  assumes "keys (store y) = []" "token \<notin> issued y"
  shows "system_step y (y\<lparr>store := (store y)\<lparr>keys := [demo_row token ex]\<rparr>, issued := insert token (issued y),
      claimed_at := (claimed_at y)(token := now y)\<rparr>)"
proof -
  have "findKey ''A'' ''e'' ''k'' (keys (store y)) = None" by (simp add: assms(1) findKey_def)
  then have "write_claim keyed_caller ''A'' ''e'' ''k'' \<lparr>fp_requestHash = ''h'', fp_canonicalHash = ''h''\<rparr> ''c'' token ex None (store y) =
      Inr (False, (store y)\<lparr>keys := [demo_row token ex]\<rparr>)"
    by (simp add: write_claim_writes demo_row_def assms(1))
  from system_step.claimed [OF this assms(2)] show ?thesis .
qed

lemma demo_answered:
  assumes "keys (store y) = [demo_row token ex]"
  shows "system_step y (y\<lparr>store := (store y)\<lparr>keys := [demo_answer token ex]\<rparr>, effects := effects y @
      [\<lparr>ef_key = (''A'', ''e'', ''k''), ef_token = token, ef_claimed = claimed_at y token, ef_expires = ex\<rparr>]\<rparr>)"
proof -
  have org: "getOrganizationId keyed_caller = Inr ''A''" by (simp add: getOrganizationId_def keyed_caller_def)
  have "thenM (onData (returnM ())) (complete keyed_caller ''e'' ''k'' token 201 (Response 7)) (store y) =
      Inr ((), (store y)\<lparr>keys := [demo_answer token ex]\<rparr>)"
    using assms owned_new [where org = "''A''" and endpoint = "''e''" and key = "''k''" and rs = "[]" and token = token and r = "demo_row token ex"]
    by (simp add: complete_def action_simps org onData_def demo_answer_def demo_row_def findKey_def)
  moreover have "expiry_of (''A'', ''e'', ''k'') token (keys (store y)) = ex"
    by (simp add: assms expiry_of_def demo_row_def claimed_row_def row_key_def)
  ultimately show ?thesis using system_step.answered [OF _ org] by metis
qed

lemma demo_removed:
  assumes "keys (store y) = [demo_answer token ex]" "ex \<le> now y"
  shows "system_step y (y\<lparr>store := (store y)\<lparr>keys := []\<rparr>\<rparr>)"
  using system_step.removed [OF order_refl, of y "''A''" "''e''" "''k''"] assms
  by (simp add: delete_expired_def demo_answer_def demo_row_def) (simp add: claimed_row_def)

theorem at_most_once_witness:
  "\<exists>y :: nat system. system_reachable y \<and> map ef_token (effects y) = [''a'', ''b''] \<and>
     map ef_key (effects y) = [(''A'', ''e'', ''k''), (''A'', ''e'', ''k'')] \<and> distinct (map ef_token (effects y)) \<and>
     ef_expires (effects y ! 0) \<le> ef_claimed (effects y ! 1)"
proof -
  let ?y0 = "\<lparr>store = \<lparr>keys = [], data = empty_db\<rparr>, now = 0, issued = {}, claimed_at = (\<lambda>_. 0), effects = []\<rparr> :: nat system"
  have "system_reachable ?y0" by (rule system_reachable.start) simp_all
  note r1 = system_reachable.steps [OF this demo_claimed [of ?y0 "''a''" 10], simplified]
  note r2 = system_reachable.steps [OF r1 demo_answered [of _ "''a''" 10], simplified]
  note r3 = system_reachable.steps [OF r2 system_step.clock [of _ 10], simplified]
  note r4 = system_reachable.steps [OF r3 demo_removed [of _ "''a''" 10], simplified]
  note r5 = system_reachable.steps [OF r4 demo_claimed [of _ "''b''" 20], simplified]
  note r6 = system_reachable.steps [OF r5 demo_answered [of _ "''b''" 20], simplified]
  from at_most_once [OF r6] r6 show ?thesis by (intro exI conjI) (rule r6, simp_all)
qed

end
