(* ===== verification/Calendar.thy ===== *)
theory Calendar
  imports Store
begin

text \<open>
  The calendar of \<^verbatim>\<open>reward/rule-engine.ts\<close>: the window a cap counts in, by day, ISO week or month, in UTC.
  An instant is its milliseconds since 1970. The laws: a date and its day number determine each other, and
  two instants are in one another's ISO week exactly when they have the same Thursday.
\<close>

section \<open>The calendar\<close>

text \<open>The proleptic Gregorian calendar, in UTC, as \<open>Date\<close> has it: day 0 is 1970-01-01. Months are 1 to 12.\<close>

definition DAY_MS :: int where
  "DAY_MS = 86400000"

definition days_from_civil :: "int \<Rightarrow> int \<Rightarrow> int \<Rightarrow> int" where
  "days_from_civil year month day =
     (let y = (if month \<le> 2 then year - 1 else year);
          era = y div 400; yoe = y mod 400;
          doy = (153 * ((month + 9) mod 12) + 2) div 5 + day - 1;
          doe = yoe * 365 + yoe div 4 - yoe div 100 + doy
      in era * 146097 + doe - 719468)"

definition year_of_era :: "int \<Rightarrow> int" where
  "year_of_era doe = (doe - doe div 1460 + doe div 36524 - doe div 146096) div 365"

definition civil_from_days :: "int \<Rightarrow> int \<times> int \<times> int" where
  "civil_from_days days =
     (let z = days + 719468;
          era = z div 146097; doe = z mod 146097;
          yoe = year_of_era doe;
          doy = doe - (365 * yoe + yoe div 4 - yoe div 100);
          mp = (5 * doy + 2) div 153;
          day = doy - (153 * mp + 2) div 5 + 1;
          month = (if mp < 10 then mp + 3 else mp - 9);
          year = yoe + era * 400
      in (if month \<le> 2 then year + 1 else year, month, day))"

definition utc_date :: "int \<Rightarrow> int \<times> int \<times> int" where
  "utc_date at = civil_from_days (at div DAY_MS)"

definition getUTCFullYear :: "int \<Rightarrow> int" where
  "getUTCFullYear at = fst (utc_date at)"

text \<open>\<open>Date.UTC\<close>, which takes the years 0 to 99 for 1900 to 1999; \<open>getUTCDay\<close>, Sunday first.\<close>

definition Date_UTC :: "int \<Rightarrow> int \<Rightarrow> int \<Rightarrow> int" where
  "Date_UTC year month day = days_from_civil (if 0 \<le> year \<and> year \<le> 99 then 1900 + year else year) month day * DAY_MS"

definition getUTCDay :: "int \<Rightarrow> int" where
  "getUTCDay at = (at div DAY_MS + 4) mod 7"

definition shift_days :: "int \<Rightarrow> int \<Rightarrow> int" where
  "shift_days at n = at + n * DAY_MS"

definition isoThursday :: "int \<Rightarrow> int" where
  "isoThursday at =
     (let (year, month, day) = utc_date at;
          target = Date_UTC year month day;
          weekday = (getUTCDay target + 6) mod 7
      in shift_days target (3 - weekday))"

definition isoWeek :: "int \<Rightarrow> int" where
  "isoWeek at =
     (let target = isoThursday at;
          firstThursday = Date_UTC (getUTCFullYear target) 1 4;
          firstDay = (getUTCDay firstThursday + 6) mod 7;
          firstThursday' = shift_days firstThursday (3 - firstDay)
      in 1 + (target - firstThursday') div (7 * DAY_MS))"

definition padStart2 :: "int \<Rightarrow> string" where
  "padStart2 n = (let t = bigint_toString n in if length t < 2 then replicate (2 - length t) CHR ''0'' @ t else t)"

fun periodKeyFor :: "period_type option \<Rightarrow> int \<Rightarrow> string" where
  "periodKeyFor None at = ''ALL''"
| "periodKeyFor (Some DAY) at =
     (let (year, month, day) = utc_date at
      in bigint_toString year @ ''-'' @ padStart2 month @ ''-'' @ padStart2 day)"
| "periodKeyFor (Some WEEK) at = bigint_toString (getUTCFullYear (isoThursday at)) @ ''-W'' @ padStart2 (isoWeek at)"
| "periodKeyFor (Some MONTH) at =
     (let (year, month, day) = utc_date at in bigint_toString year @ ''-'' @ padStart2 month)"

record iso_week =
  wk_start :: int
  wk_end :: int
  wk_legacyKeys :: "string list"

text \<open>Monday to Monday, with the keys of its seven days under the calendar's year.\<close>

definition isoWeekWindow :: "int \<Rightarrow> iso_week" where
  "isoWeekWindow at =
     (let start = shift_days (isoThursday at) (-3)
      in \<lparr>wk_start = start, wk_end = shift_days start 7,
          wk_legacyKeys = remdups (map (\<lambda>n. let day = shift_days start n
             in bigint_toString (getUTCFullYear day) @ ''-W'' @ padStart2 (isoWeek day)) [0..6])\<rparr>)"

section \<open>A date and its day\<close>

definition era_days :: "int \<Rightarrow> int" where
  "era_days doe = doe - doe div 1460 + doe div 36524 - doe div 146096"

definition year_start :: "int \<Rightarrow> int" where
  "year_start y = 365 * y + y div 4 - y div 100"

lemma quarter_mono: "(a::int) \<le> b \<Longrightarrow> a - a div 4 \<le> b - b div 4"
  by presburger

lemma era_step: "era_days d \<le> era_days (d + 1)"
proof -
  have e: "x div 146096 = x div 36524 div 4" for x :: int
    using zdiv_zmult2_eq [of 4 x 36524] by simp
  have "(d + 1) div 1460 \<le> (d + 1460) div 1460" by (rule zdiv_mono1) simp_all
  then have "(d + 1) div 1460 \<le> d div 1460 + 1" by simp
  moreover have "d div 36524 - d div 36524 div 4 \<le> (d + 1) div 36524 - (d + 1) div 36524 div 4"
    by (rule quarter_mono) (simp add: zdiv_mono1)
  ultimately show ?thesis unfolding era_days_def e by linarith
qed

lemma era_mono: "c \<le> d \<Longrightarrow> era_days c \<le> era_days d"
proof (induction rule: int_ge_induct)
  case (step d)
  then show ?case using era_step [of d] by linarith
qed simp


lemma year_table: "list_all (\<lambda>y. 365 * y \<le> era_days (year_start y) \<and> era_days (year_start (y + 1) - 1) < 365 * (y + 1) \<and>
    year_start (y + 1) - year_start y \<le> 366) [0..399]"
  by code_simp

lemma year_exists:
  "0 \<le> doe \<Longrightarrow> doe < year_start (int n) \<Longrightarrow> \<exists>y. 0 \<le> y \<and> y < int n \<and> year_start y \<le> doe \<and> doe < year_start (y + 1)"
proof (induction n)
  case 0
  then show ?case by (simp add: year_start_def)
next
  case (Suc n)
  show ?case
  proof (cases "doe < year_start (int n)")
    case True
    with Suc show ?thesis by force
  next
    case False
    with Suc.prems show ?thesis by (intro exI [of _ "int n"]) (simp add: add.commute)
  qed
qed

lemma year_of_era_start:
  assumes "0 \<le> doe" "doe < 146097"
  shows "0 \<le> year_of_era doe \<and> year_of_era doe \<le> 399 \<and> 0 \<le> doe - year_start (year_of_era doe) \<and>
    doe - year_start (year_of_era doe) < 366"
proof (cases "doe = 146096")
  case True
  then show ?thesis by (simp add: year_of_era_def year_start_def)
next
  case False
  have "year_start (int 400) = 146096" by (simp add: year_start_def)
  with assms False year_exists [of doe 400] obtain y where y: "0 \<le> y" "y < 400" "year_start y \<le> doe" "doe < year_start (y + 1)" by auto
  then have "y \<in> set [0..399]" by simp
  with year_table have t: "365 * y \<le> era_days (year_start y)" "era_days (year_start (y + 1) - 1) < 365 * (y + 1)"
    "year_start (y + 1) - year_start y \<le> 366" by (simp_all add: list_all_iff)
  have "365 * y \<le> era_days doe" "era_days doe < 365 * (y + 1)"
    using t(1,2) era_mono [OF y(3)] era_mono [of doe "year_start (y + 1) - 1"] y(4) by linarith+
  then have "year_of_era doe = y" unfolding year_of_era_def era_days_def [symmetric] by (intro int_div_pos_eq [of _ _ _ "era_days doe - 365 * y"]) simp_all
  with y t(3) show ?thesis by simp
qed

lemma month_back:
  fixes mp :: int
  assumes "0 \<le> mp" "mp \<le> 11"
  shows "((if mp < 10 then mp + 3 else mp - 9) + 9) mod 12 = mp" "(if mp < 10 then mp + 3 else mp - 9) \<le> 2 \<longleftrightarrow> \<not> mp < 10"
  using assms by auto

lemma days_from_civil_from_days:
  assumes "civil_from_days d = (y, m, dd)"
  shows "days_from_civil y m dd = d"
proof -
  define doe where "doe = (d + 719468) mod 146097"
  define era where "era = (d + 719468) div 146097"
  define yoe where "yoe = year_of_era doe"
  define doy where "doy = doe - (365 * yoe + yoe div 4 - yoe div 100)"
  define mp where "mp = (5 * doy + 2) div 153"
  have z: "d + 719468 = era * 146097 + doe" unfolding era_def doe_def by simp
  have b: "0 \<le> yoe" "yoe \<le> 399" "0 \<le> doy" "doy < 366"
    using year_of_era_start [of doe] by (simp_all add: yoe_def doy_def year_start_def doe_def)
  then have "0 \<le> mp" "mp < 12" unfolding mp_def by simp_all
  note mb = month_back [of mp, OF this(1)]
  have c: "(if (if mp < 10 then mp + 3 else mp - 9) \<le> 2 then yoe + era * 400 + 1 else yoe + era * 400) = y \<and>
      (if mp < 10 then mp + 3 else mp - 9) = m \<and> doy - (153 * mp + 2) div 5 + 1 = dd"
    using assms unfolding civil_from_days_def Let_def doe_def [symmetric] era_def [symmetric] yoe_def [symmetric]
      doy_def [symmetric] mp_def [symmetric] prod.inject .
  then have "y = (if m \<le> 2 then yoe + era * 400 + 1 else yoe + era * 400)" by blast
  then have y: "(if m \<le> 2 then y - 1 else y) = yoe + era * 400" by simp
  have m: "m = (if mp < 10 then mp + 3 else mp - 9)" and dd: "dd = doy - (153 * mp + 2) div 5 + 1" using c by blast+
  have "(yoe + era * 400) div 400 = era" "(yoe + era * 400) mod 400 = yoe" using b by simp_all
  moreover have "(m + 9) mod 12 = mp" using mb(1) \<open>mp < 12\<close> unfolding m by simp
  ultimately show ?thesis unfolding days_from_civil_def y Let_def dd using z unfolding doy_def by simp
qed

section \<open>ISO weeks\<close>

text \<open>\<open>Date.UTC\<close> moves the years 0 to 99; every other instant keeps its day.\<close>

definition plain_year :: "int \<Rightarrow> bool" where
  "plain_year t \<longleftrightarrow> \<not> (0 \<le> getUTCFullYear t \<and> getUTCFullYear t \<le> 99)"

definition monday_of :: "int \<Rightarrow> int" where
  "monday_of day = day - (day + 3) mod 7"

lemma day_bounds: "d * DAY_MS \<le> t \<longleftrightarrow> d \<le> t div DAY_MS" "t < d * DAY_MS \<longleftrightarrow> t div DAY_MS < d"
proof -
  have pos: "0 < DAY_MS" by (simp add: DAY_MS_def)
  have "d \<le> t div DAY_MS" if "d * DAY_MS \<le> t"
    using zdiv_mono1 [OF that pos] pos by simp
  moreover have "d * DAY_MS \<le> t" if "d \<le> t div DAY_MS"
  proof -
    have "d * DAY_MS \<le> t div DAY_MS * DAY_MS" using that pos by simp
    also have "\<dots> \<le> t" using pos_mod_sign [OF pos, of t] div_mult_mod_eq [of t DAY_MS] by linarith
    finally show ?thesis .
  qed
  ultimately show "d * DAY_MS \<le> t \<longleftrightarrow> d \<le> t div DAY_MS" by blast
  then show "t < d * DAY_MS \<longleftrightarrow> t div DAY_MS < d" by linarith
qed

lemma isoThursday_plain:
  assumes "plain_year t"
  shows "isoThursday t = (monday_of (t div DAY_MS) + 3) * DAY_MS"
proof -
  obtain y m d where u: "utc_date t = (y, m, d)" by (cases "utc_date t") auto
  with assms have "\<not> (0 \<le> y \<and> y \<le> 99)" by (simp add: plain_year_def getUTCFullYear_def)
  moreover have "days_from_civil y m d = t div DAY_MS"
    using u by (intro days_from_civil_from_days) (simp add: utc_date_def)
  ultimately have date: "Date_UTC y m d = t div DAY_MS * DAY_MS" unfolding Date_UTC_def by auto
  have g: "getUTCDay (t div DAY_MS * DAY_MS) = (t div DAY_MS + 4) mod 7" by (simp add: getUTCDay_def DAY_MS_def)
  have w: "((x + 4) mod 7 + 6) mod 7 = (x + 3) mod 7" for x :: int by presburger
  have sh: "x * DAY_MS + (3 - r) * DAY_MS = (x - r + 3) * DAY_MS" for x r by (simp add: algebra_simps)
  show ?thesis
    unfolding isoThursday_def u prod.case Let_def date g w shift_days_def sh monday_of_def ..
qed

lemma isoWeekWindow_bounds:
  assumes "plain_year t"
  shows "wk_start (isoWeekWindow t) = monday_of (t div DAY_MS) * DAY_MS"
    "wk_end (isoWeekWindow t) = (monday_of (t div DAY_MS) + 7) * DAY_MS"
  by (simp_all add: isoWeekWindow_def Let_def shift_days_def isoThursday_plain [OF assms] algebra_simps)

lemma monday_same:
  assumes "monday_of c \<le> d" "d < monday_of c + 7"
  shows "monday_of d = monday_of c"
  using assms unfolding monday_of_def by presburger

lemma within_week:
  assumes "plain_year t" "plain_year u" and "wk_start (isoWeekWindow t) \<le> u" "u < wk_end (isoWeekWindow t)"
  shows "isoWeekWindow u = isoWeekWindow t"
proof -
  have "monday_of (t div DAY_MS) \<le> u div DAY_MS" "u div DAY_MS < monday_of (t div DAY_MS) + 7"
    using assms(3,4) unfolding isoWeekWindow_bounds [OF assms(1)] day_bounds by simp_all
  then have "monday_of (u div DAY_MS) = monday_of (t div DAY_MS)" by (rule monday_same)
  then have "isoThursday u = isoThursday t" by (simp add: isoThursday_plain assms(1,2))
  then show ?thesis by (simp add: isoWeekWindow_def)
qed

lemma in_own_week:
  assumes "plain_year t"
  shows "wk_start (isoWeekWindow t) \<le> t \<and> t < wk_end (isoWeekWindow t)"
proof -
  have "monday_of (t div DAY_MS) \<le> t div DAY_MS" "t div DAY_MS < monday_of (t div DAY_MS) + 7"
    unfolding monday_of_def by (simp_all add: pos_mod_bound)
  then show ?thesis unfolding isoWeekWindow_bounds [OF assms] day_bounds by simp
qed

end
