(* ===== verification/Reward_Engine.thy ===== *)
theory Reward_Engine
  imports Calendar
begin

text \<open>
  The pure part of rewards: \<^verbatim>\<open>reward/exact-comparison.ts\<close> and \<^verbatim>\<open>reward/rule-engine.ts\<close>. Conditions over the
  JSON facts of an event, exact comparison of decimal text, the calendar window a cap counts in, and what
  one rule grants for one fact. An instant is its milliseconds since 1970; a payload is what reading a field of it
  gives, \<open>None\<close> for \<open>undefined\<close>.
\<close>

section \<open>Exact comparison\<close>

datatype numeric_type = NUM_INTEGER | NUM_DECIMAL

definition NUMERIC_FACT_TYPES :: "string \<Rightarrow> numeric_type option" where
  "NUMERIC_FACT_TYPES field =
     (if field \<in> {''totalCostMinor'', ''downtimeMinutes''} then Some NUM_INTEGER
      else if field \<in> {''hours'', ''kilometres'', ''hourMeter'', ''odometer''} then Some NUM_DECIMAL
      else None)"

definition MAX_SAFE_INTEGER :: int where
  "MAX_SAFE_INTEGER = 9007199254740991"

text \<open>A number by its text: it is a safe integer when the text is one.\<close>

definition safeNumericOperand :: "string \<Rightarrow> bool" where
  "safeNumericOperand t \<longleftrightarrow> signed_digits t \<and> \<bar>BigInt t\<bar> \<le> MAX_SAFE_INTEGER"

definition MAX_DECIMAL_LENGTH :: nat where
  "MAX_DECIMAL_LENGTH = 256"

definition unsigned :: "string \<Rightarrow> string" where
  "unsigned s = (case s of c # cs \<Rightarrow> if c = CHR ''+'' \<or> c = CHR ''-'' then cs else s | [] \<Rightarrow> [])"

definition INTEGER_text :: "string \<Rightarrow> bool" where
  "INTEGER_text s \<longleftrightarrow> digits_only (unsigned s)"

definition before_point :: "string \<Rightarrow> string" where
  "before_point s = takeWhile (\<lambda>c. c \<noteq> CHR ''.'') s"

definition after_point :: "string \<Rightarrow> string" where
  "after_point s = drop 1 (dropWhile (\<lambda>c. c \<noteq> CHR ''.'') s)"

text \<open>Digits with an optional point and digits after it, or a point and digits.\<close>

definition DECIMAL_text :: "string \<Rightarrow> bool" where
  "DECIMAL_text s \<longleftrightarrow>
     list_all is_digit (before_point (unsigned s)) \<and> list_all is_digit (after_point (unsigned s)) \<and>
     (before_point (unsigned s) \<noteq> [] \<or> after_point (unsigned s) \<noteq> [])"

text \<open>A coefficient and the number of digits after the point.\<close>

definition decimal_of_text :: "string \<Rightarrow> bool \<Rightarrow> (int \<times> nat) option" where
  "decimal_of_text s integer =
     (if length s > MAX_DECIMAL_LENGTH then None
      else if \<not> (if integer then INTEGER_text s else DECIMAL_text s) then None
      else let whole = before_point s; fraction = after_point s;
               sign = (if take 1 whole = ''-'' then -1 else 1);
               digits = unsigned whole @ fraction
           in Some (sign * int (digits_value digits), length fraction))"

definition decimal :: "json option \<Rightarrow> bool \<Rightarrow> (int \<times> nat) option" where
  "decimal v integer =
     (case v of
        Some (JNumber t) \<Rightarrow> if safeNumericOperand t then decimal_of_text t integer else None
      | Some (JString s) \<Rightarrow> decimal_of_text s integer
      | _ \<Rightarrow> None)"

definition exactComparison :: "json option \<Rightarrow> json option \<Rightarrow> string \<Rightarrow> int option" where
  "exactComparison left right field =
     (let integer = (NUMERIC_FACT_TYPES field = Some NUM_INTEGER) in
      case (decimal left integer, decimal right integer) of
        (Some (ca, sa), Some (cb, sb)) \<Rightarrow>
          (let scale = max sa sb; x = ca * 10 ^ (scale - sa); y = cb * 10 ^ (scale - sb)
           in Some (if x < y then -1 else if x > y then 1 else 0))
      | _ \<Rightarrow> None)"

section \<open>Conditions\<close>

text \<open>\<open>String(value)\<close>; an array joins its elements with commas, null as nothing.\<close>

fun js_String :: "json \<Rightarrow> string" and
  js_join :: "json list \<Rightarrow> string" and js_element :: "json \<Rightarrow> string"
where
  "js_String JNull = ''null''"
| "js_String (JBool b) = (if b then ''true'' else ''false'')"
| "js_String (JNumber t) = t"
| "js_String (JString s) = s"
| "js_String (JArray xs) = js_join xs"
| "js_String (JObject ms) = ''[object Object]''"
| "js_join [] = []"
| "js_join [x] = js_element x"
| "js_join (x # xs) = js_element x @ '','' @ js_join xs"
| "js_element JNull = []"
| "js_element (JBool b) = (if b then ''true'' else ''false'')"
| "js_element (JNumber t) = t"
| "js_element (JString s) = s"
| "js_element (JArray xs) = js_join xs"
| "js_element (JObject ms) = ''[object Object]''"

type_synonym facts_of = "string \<Rightarrow> json option"

definition nullish :: "json option \<Rightarrow> bool" where
  "nullish v \<longleftrightarrow> v = None \<or> v = Some JNull"

definition is_number :: "json option \<Rightarrow> bool" where
  "is_number v \<longleftrightarrow> (case v of Some (JNumber _) \<Rightarrow> True | _ \<Rightarrow> False)"

text \<open>One operator on the field's value and the condition's.\<close>

definition equal_operands :: "bool \<Rightarrow> json option \<Rightarrow> json option \<Rightarrow> string \<Rightarrow> bool" where
  "equal_operands wanted actual expected field =
     (if nullish actual \<or> nullish expected then False
      else if NUMERIC_FACT_TYPES field \<noteq> None \<or> is_number actual \<or> is_number expected
      then (case exactComparison actual expected field of None \<Rightarrow> False | Some c \<Rightarrow> (c = 0) = wanted)
      else (js_String (the actual) = js_String (the expected)) = wanted)"

definition operatorMet :: "string \<Rightarrow> json option \<Rightarrow> json option \<Rightarrow> string \<Rightarrow> bool" where
  "operatorMet op' actual expected field =
     (if op' = ''present'' then \<not> nullish actual
      else if op' = ''absent'' then nullish actual
      else if op' = ''eq'' then equal_operands True actual expected field
      else if op' = ''neq'' then equal_operands False actual expected field
      else if op' \<in> {''gte'', ''gt'', ''lte'', ''lt''}
      then (case exactComparison actual expected field of
              None \<Rightarrow> False
            | Some c \<Rightarrow> if op' = ''gte'' then c \<ge> 0 else if op' = ''gt'' then c > 0
                        else if op' = ''lte'' then c \<le> 0 else c < 0)
      else False)"

text \<open>A member of a node, the last of its name.\<close>

definition own :: "string \<Rightarrow> (string \<times> json) list \<Rightarrow> json option" where
  "own k ms = map_of (rev ms) k"

lemma size_own: "own k ms = Some v \<Longrightarrow> size v < Suc (size_list (size_prod (\<lambda>_. 0) size) ms)"
proof -
  assume "own k ms = Some v"
  then have "(k, v) \<in> set ms" by (auto simp: own_def dest: map_of_SomeD)
  then show ?thesis by (induction ms) auto
qed

lemma size_own_child:
  "own k ms = Some (JArray cs) \<Longrightarrow> c \<in> set cs \<Longrightarrow> size c < Suc (size_list (size_prod (\<lambda>_. 0) size) ms)"
proof -
  assume o: "own k ms = Some (JArray cs)" and c: "c \<in> set cs"
  from c have "size c < Suc (size_list size cs)" by (induction cs) auto
  with size_own [OF o] show ?thesis by simp
qed

function conditionMet :: "json \<Rightarrow> facts_of \<Rightarrow> bool" where
  "conditionMet JNull payload = True"
| "conditionMet (JBool b) payload = False"
| "conditionMet (JNumber t) payload = False"
| "conditionMet (JString s) payload = False"
| "conditionMet (JArray xs) payload = False"
| "conditionMet (JObject ms) payload =
     (case own ''all'' ms of
        Some (JArray cs) \<Rightarrow> (\<forall>c\<in>set cs. conditionMet c payload)
      | _ \<Rightarrow>
        (case own ''any'' ms of
           Some (JArray cs) \<Rightarrow> (\<exists>c\<in>set cs. conditionMet c payload)
         | _ \<Rightarrow>
           (case (own ''field'' ms, own ''op'' ms) of
              (Some (JString field), Some (JString op')) \<Rightarrow> operatorMet op' (payload field) (own ''value'' ms) field
            | _ \<Rightarrow> False)))"
  by pat_completeness auto
termination
  by (relation "measure (\<lambda>(c, p). size c)") (auto intro: size_own_child)

text \<open>An absent condition is met.\<close>

definition conditionHolds :: "json option \<Rightarrow> facts_of \<Rightarrow> bool" where
  "conditionHolds condition payload = (case condition of None \<Rightarrow> True | Some c \<Rightarrow> conditionMet c payload)"

section \<open>Rules\<close>

record reward_rule =
  rw_id :: string
  rw_organizationId :: "string option"
  rw_triggerEvent :: string
  rw_rewardType :: reward_type
  rw_condition :: "json option"
  rw_points :: int
  rw_creditPerPointMinor :: "int option"
  rw_periodCap :: "int option"
  rw_periodType :: "period_type option"
  rw_validFrom :: int
  rw_validTo :: "int option"
  rw_status :: rule_status
  rw_label :: "string option"
  rw_createdAt :: int
  rw_createdBy :: string
  rw_updatedAt :: int
  rw_updatedBy :: string

record status_entry =
  sh_id :: nat
  sh_ruleId :: string
  sh_status :: rule_status
  sh_effectiveAt :: int

text \<open>A rule as the engine sees it: with its status history, newest first.\<close>

type_synonym rule_view = "reward_rule \<times> status_entry list"

definition statusAt :: "rule_view \<Rightarrow> int \<Rightarrow> rule_status option" where
  "statusAt rule at = map_option sh_status (find (\<lambda>e. sh_effectiveAt e \<le> at) (snd rule))"

definition applicableRules :: "rule_view list \<Rightarrow> string \<Rightarrow> string \<Rightarrow> int \<Rightarrow> rule_view list" where
  "applicableRules rs org triggerEvent occurredAt =
     filter (\<lambda>v. statusAt v occurredAt = Some R_ACTIVE \<and> rw_triggerEvent (fst v) = triggerEvent \<and>
        (rw_organizationId (fst v) = None \<or> rw_organizationId (fst v) = Some org) \<and>
        rw_validFrom (fst v) \<le> occurredAt \<and>
        (case rw_validTo (fst v) of None \<Rightarrow> True | Some validTo \<Rightarrow> validTo > occurredAt)) rs"

definition remainingCap :: "reward_rule \<Rightarrow> int \<Rightarrow> int option" where
  "remainingCap rule alreadyGranted = map_option (\<lambda>cap. max 0 (cap - alreadyGranted)) (rw_periodCap rule)"

record reward_decision =
  de_points :: int
  de_creditAmountMinor :: int
  de_monetised :: bool
  de_periodKey :: string

datatype reward_refusal = NO_RULE | CONDITION_UNMET | CAP_REACHED int

definition evaluate :: "reward_rule \<Rightarrow> facts_of \<Rightarrow> int \<Rightarrow> int \<Rightarrow> reward_refusal + reward_decision" where
  "evaluate rule payload at alreadyGranted =
     (if \<not> conditionHolds (rw_condition rule) payload then Inl CONDITION_UNMET
      else let remaining = remainingCap rule alreadyGranted in
      if (case remaining of Some r \<Rightarrow> r \<le> 0 | None \<Rightarrow> False)
      then Inl (CAP_REACHED (case rw_periodCap rule of Some c \<Rightarrow> c | None \<Rightarrow> 0))
      else let points = (case remaining of None \<Rightarrow> rw_points rule | Some r \<Rightarrow> min (rw_points rule) r);
               creditAmountMinor = (case rw_creditPerPointMinor rule of None \<Rightarrow> 0 | Some rate \<Rightarrow> points * rate)
           in Inr \<lparr>de_points = points, de_creditAmountMinor = creditAmountMinor,
                   de_monetised = (creditAmountMinor > 0), de_periodKey = periodKeyFor (rw_periodType rule) at\<rparr>)"

record reward_level =
  lv_id :: string
  lv_organizationId :: "string option"
  lv_name :: string
  lv_rank :: int
  lv_minPoints :: int
  lv_status :: rule_status

definition levelFor :: "reward_level list \<Rightarrow> int \<Rightarrow> reward_level option" where
  "levelFor levels totalPoints =
     (case sort_key (\<lambda>l. - lv_rank l) (filter (\<lambda>l. lv_status l = R_ACTIVE \<and> lv_minPoints l \<le> totalPoints) levels) of
        [] \<Rightarrow> None | l # _ \<Rightarrow> Some l)"

end
