(* ===== verification/Reward.thy ===== *)
theory Reward
  imports Reward_Engine Wallet Commission Idempotency
begin

text \<open>
  Rewards: \<^verbatim>\<open>reward/reward.service.ts\<close>. A confirmed fact is evaluated by every rule that applies to it, each
  rule in a transaction of its own: under the lock of the subject's balance row the cap is counted, the
  points and the credit are decided, the wallet is credited, and the reward, the balance, the level and the
  event are written. Then the administration of rules. The tables stand beside the service's other tables.
\<close>

section \<open>Tables\<close>

record reward =
  rd_id :: string
  rd_organizationId :: string
  rd_userId :: string
  rd_ruleId :: string
  rd_triggerEvent :: string
  rd_sourceReference :: string
  rd_points :: int
  rd_creditAmountMinor :: int
  rd_currency :: string
  rd_monetised :: bool
  rd_journalId :: "string option"
  rd_periodKey :: string
  rd_occurredAt :: "int option"
  rd_grantedAt :: int

record reward_balance =
  rb_organizationId :: string
  rb_userId :: string
  rb_totalPoints :: int
  rb_levelId :: "string option"
  rb_lifetimeCreditMinor :: int

text \<open>The columns of an evaluation that a cap reads.\<close>

record source_evaluation =
  se_organizationId :: string
  se_triggerEvent :: string
  se_sourceReference :: string
  se_occurredAt :: "int option"

record reward_db =
  books :: db
  rewardRules :: "reward_rule list"
  statusHistory :: "status_entry list"
  rewards :: "reward list"
  balances_of :: "reward_balance list"
  rewardLevels :: "reward_level list"
  sourceEvaluations :: "source_evaluation list"

record reward_runtime = runtime +
  ECONOMIC_REWARD_CASHBACK_ENABLED :: bool

type_synonym 'a reward_tx = "(reward_db, 'a) action"

definition onBooks :: "'a tx \<Rightarrow> 'a reward_tx" where
  "onBooks m = (\<lambda>s. case m (books s) of Inl e \<Rightarrow> Inl e | Inr (x, d) \<Rightarrow> Inr (x, s\<lparr>books := d\<rparr>))"

text \<open>A transaction ends with the deferred triggers of the ledger.\<close>

definition rewardTransaction :: "'a reward_tx \<Rightarrow> 'a reward_tx" where
  "rewardTransaction body =
     bindM body (\<lambda>x.
     bindM (getsM (\<lambda>s. commit_ok (books s))) (\<lambda>ok.
     thenM (assertM ok (ConstraintViolation ''trg_journal_balanced'')) (returnM x)))"

section \<open>The balance row\<close>

definition of_subject :: "string \<Rightarrow> string \<Rightarrow> reward_balance \<Rightarrow> bool" where
  "of_subject org user b \<longleftrightarrow> rb_organizationId b = org \<and> rb_userId b = user"

definition ensureBalanceRow :: "string \<Rightarrow> string \<Rightarrow> unit reward_tx" where
  "ensureBalanceRow org user =
     modifyM (\<lambda>s. if list_ex (of_subject org user) (balances_of s) then s
       else s\<lparr>balances_of := balances_of s @ [\<lparr>rb_organizationId = org, rb_userId = user, rb_totalPoints = 0,
              rb_levelId = None, rb_lifetimeCreditMinor = 0\<rparr>]\<rparr>)"

definition lockBalance :: "string \<Rightarrow> string \<Rightarrow> reward_balance reward_tx" where
  "lockBalance org user =
     bindM (getsM (\<lambda>s. find (of_subject org user) (balances_of s))) (\<lambda>row.
     case row of None \<Rightarrow> throwM (RastaError INTERNAL_ERROR ''Reward balance row vanished while locking it'')
     | Some b \<Rightarrow> returnM b)"

section \<open>What a cap has counted\<close>

definition MAX_TOTAL_POINTS :: int where
  "MAX_TOTAL_POINTS = 2147483647"

text \<open>When a reward's fact happened: its own column, or the evaluation's.\<close>

definition occurrence :: "source_evaluation list \<Rightarrow> reward \<Rightarrow> int option" where
  "occurrence evaluations r =
     (case rd_occurredAt r of Some t \<Rightarrow> Some t
      | None \<Rightarrow>
          (case find (\<lambda>e. se_organizationId e = rd_organizationId r \<and> se_triggerEvent e = rd_triggerEvent r \<and>
                       se_sourceReference e = rd_sourceReference r) evaluations of
             Some e \<Rightarrow> se_occurredAt e | None \<Rightarrow> None))"

definition in_week :: "source_evaluation list \<Rightarrow> iso_week \<Rightarrow> reward \<Rightarrow> bool" where
  "in_week evaluations week r \<longleftrightarrow>
     (case occurrence evaluations r of
        Some t \<Rightarrow> wk_start week \<le> t \<and> t < wk_end week
      | None \<Rightarrow> rd_periodKey r \<in> set (wk_legacyKeys week))"

definition counted :: "source_evaluation list \<Rightarrow> period_type option \<Rightarrow> int \<Rightarrow> reward \<Rightarrow> bool" where
  "counted evaluations periodType occurredAt r \<longleftrightarrow>
     (if periodType = Some WEEK then in_week evaluations (isoWeekWindow occurredAt) r
      else rd_periodKey r = periodKeyFor periodType occurredAt)"

definition window_points :: "reward_db \<Rightarrow> string \<Rightarrow> string \<Rightarrow> string \<Rightarrow> period_type option \<Rightarrow> int \<Rightarrow> int" where
  "window_points s org user ruleId periodType occurredAt =
     sum_list (map rd_points (filter (\<lambda>r. rd_organizationId r = org \<and> rd_userId r = user \<and> rd_ruleId r = ruleId \<and>
        counted (sourceEvaluations s) periodType occurredAt r) (rewards s)))"

text \<open>The weekly sum saturates.\<close>

definition pointsInPeriod :: "string \<Rightarrow> string \<Rightarrow> string \<Rightarrow> period_type option \<Rightarrow> int \<Rightarrow> int reward_tx" where
  "pointsInPeriod org user ruleId periodType occurredAt =
     getsM (\<lambda>s. let points = window_points s org user ruleId periodType occurredAt in
       if periodType = Some WEEK \<and> points > MAX_TOTAL_POINTS then MAX_TOTAL_POINTS else points)"

section \<open>One grant\<close>

datatype grant_outcome =
    GRANTED (go_rewardId: string) (go_ruleId: string) (go_points: int) (go_creditAmountMinor: int) (go_monetised: bool)
      (go_levelChangedTo: "string option")
  | SKIPPED (go_reason: string) (go_skippedRule: string)

fun refusal_reason :: "reward_refusal \<Rightarrow> string" where
  "refusal_reason NO_RULE = ''no_rule''"
| "refusal_reason CONDITION_UNMET = ''condition_unmet''"
| "refusal_reason (CAP_REACHED _) = ''cap_reached''"

record grant_input =
  gi_organizationId :: string
  gi_userId :: string
  gi_triggerEvent :: string
  gi_sourceReference :: string
  gi_occurredAt :: int
  gi_payload :: facts_of

definition insert_reward :: "reward \<Rightarrow> unit reward_tx" where
  "insert_reward r =
     bindM (getsM (\<lambda>s. (rd_id r \<notin> rd_id ` set (rewards s),
        \<not> list_ex (\<lambda>q. rd_ruleId q = rd_ruleId r \<and> rd_sourceReference q = rd_sourceReference r) (rewards s),
        list_ex (\<lambda>w. rw_id w = rd_ruleId r) (rewardRules s)))) (\<lambda>(fresh, first, rule_exists).
     thenM (assertM (0 < rd_points r \<and>
              (if rd_monetised r then 0 < rd_creditAmountMinor r \<and> rd_journalId r \<noteq> None
               else rd_creditAmountMinor r = 0 \<and> rd_journalId r = None)) (ConstraintViolation ''ck_reward_monetisation''))
    (thenM (assertM fresh (UniqueViolation ''reward_pkey''))
    (thenM (assertM first (UniqueViolation ''reward_rule_id_source_reference_key''))
    (thenM (assertM rule_exists (ConstraintViolation ''reward_rule_id_fkey''))
           (modifyM (\<lambda>s. s\<lparr>rewards := rewards s @ [r]\<rparr>))))))"

definition applyLevel ::
  "'a reward_runtime_scheme \<Rightarrow> string \<Rightarrow> string \<Rightarrow> int \<Rightarrow> string option \<Rightarrow> int \<Rightarrow> int \<Rightarrow> string option reward_tx"
where
  "applyLevel rt org user totalPoints previousLevelId creditDelta changedAt =
     bindM (getsM (\<lambda>s. filter (\<lambda>l. lv_status l = R_ACTIVE \<and> (lv_organizationId l = None \<or> lv_organizationId l = Some org))
                         (rewardLevels s))) (\<lambda>levels.
     let level = levelFor levels totalPoints in
     thenM (modifyM (\<lambda>s. s\<lparr>balances_of := map (\<lambda>b. if of_subject org user b
          then b\<lparr>rb_totalPoints := totalPoints,
                 rb_levelId := (case level of Some l \<Rightarrow> Some (lv_id l) | None \<Rightarrow> previousLevelId),
                 rb_lifetimeCreditMinor := rb_lifetimeCreditMinor b + creditDelta\<rparr>
          else b) (balances_of s)\<rparr>))
     (case level of
        None \<Rightarrow> returnM None
      | Some l \<Rightarrow>
          if Some (lv_id l) = previousLevelId then returnM None
          else thenM (onBooks (enqueue rt (org @ '':'' @ user) org
                 (RewardLevelChanged org user (map_option lv_name (find (\<lambda>c. Some (lv_id c) = previousLevelId) levels))
                    (lv_name l) totalPoints changedAt) None))
               (returnM (Some (lv_name l)))))"

text \<open>The monetised half: the organization's wallet, against the platform's reward expense.\<close>

definition credit_reward :: "'a reward_runtime_scheme \<Rightarrow> string \<Rightarrow> string \<Rightarrow> string \<Rightarrow> int \<Rightarrow> string tx" where
  "credit_reward rt org rewardId triggerEvent amount =
     bindM (resolveCounterpartyWallet rt org ''IRR'') (\<lambda>wallet.
     bindM (credit rt wallet amount REWARD_EXPENSE REWARD_GRANT (''Reward '' @ rewardId @ '' for '' @ triggerEvent) None
              SERVICE_NAME) (\<lambda>credited.
     returnM (fst credited)))"

text \<open>The decision, once it is one: the totals, the money, the rows and the event.\<close>

definition award ::
  "'a reward_runtime_scheme \<Rightarrow> reward_rule \<Rightarrow> grant_input \<Rightarrow> reward_balance \<Rightarrow> reward_decision \<Rightarrow> grant_outcome reward_tx"
where
  "award rt rule input balance decision =
     (let org = gi_organizationId input; user = gi_userId input in
      thenM (assertM (isStorableMinor (de_creditAmountMinor decision))
              (RastaError BUSINESS_RULE_VIOLATION ''This reward rule would pay more than the largest storable amount''))
     (thenM (assertM (\<not> (rb_totalPoints balance + de_points decision > MAX_TOTAL_POINTS \<or>
                          \<not> isStorableMinor (rb_lifetimeCreditMinor balance + de_creditAmountMinor decision)))
              (RastaError BUSINESS_RULE_VIOLATION ''This grant would take the subject past the largest reward balance it can hold''))
     (bindM (onBooks (prefixed_ulid rt ''RWD'')) (\<lambda>rewardId.
      bindM (onBooks (hostDate rt)) (\<lambda>grantedAt.
      bindM (if de_monetised decision
             then bindM (onBooks (credit_reward rt org rewardId (gi_triggerEvent input) (de_creditAmountMinor decision)))
                    (\<lambda>j. returnM (Some j))
             else returnM None) (\<lambda>journalId.
      thenM (insert_reward \<lparr>rd_id = rewardId, rd_organizationId = org, rd_userId = user, rd_ruleId = rw_id rule,
          rd_triggerEvent = gi_triggerEvent input, rd_sourceReference = gi_sourceReference input,
          rd_points = de_points decision, rd_creditAmountMinor = de_creditAmountMinor decision, rd_currency = ''IRR'',
          rd_monetised = de_monetised decision, rd_journalId = journalId, rd_periodKey = de_periodKey decision,
          rd_occurredAt = Some (gi_occurredAt input), rd_grantedAt = grantedAt\<rparr>)
     (bindM (applyLevel rt org user (rb_totalPoints balance + de_points decision) (rb_levelId balance)
               (de_creditAmountMinor decision) grantedAt) (\<lambda>levelChange.
      thenM (onBooks (enqueue rt rewardId org
              (RewardGranted rewardId org user (rw_id rule) (gi_triggerEvent input) (gi_sourceReference input)
                 (de_points decision) (formatMinor (de_creditAmountMinor decision)) ''IRR'' (de_monetised decision)
                 journalId grantedAt) None))
            (returnM (GRANTED rewardId (rw_id rule) (de_points decision) (de_creditAmountMinor decision)
                        (de_monetised decision) levelChange))))))))))"

definition grant_body :: "'a reward_runtime_scheme \<Rightarrow> reward_rule \<Rightarrow> grant_input \<Rightarrow> grant_outcome reward_tx" where
  "grant_body rt rule input =
     (let org = gi_organizationId input; user = gi_userId input in
      thenM (ensureBalanceRow org user)
     (bindM (lockBalance org user) (\<lambda>balance.
      bindM (getsM (\<lambda>s. find (\<lambda>r. rd_ruleId r = rw_id rule \<and> rd_sourceReference r = gi_sourceReference input) (rewards s)))
        (\<lambda>existing.
      case existing of
        Some r \<Rightarrow>
          thenM (assertM (\<not> (rd_organizationId r \<noteq> org \<or> rd_userId r \<noteq> user \<or> rd_triggerEvent r \<noteq> gi_triggerEvent input))
                  idempotencyKeyReused)
                (returnM (SKIPPED ''duplicate'' (rw_id rule)))
      | None \<Rightarrow>
          if rw_rewardType rule = CASHBACK \<and> \<not> ECONOMIC_REWARD_CASHBACK_ENABLED rt
          then returnM (SKIPPED ''cashback_disabled'' (rw_id rule))
          else bindM (pointsInPeriod org user (rw_id rule) (rw_periodType rule) (gi_occurredAt input)) (\<lambda>alreadyGranted.
               case evaluate rule (gi_payload input) (gi_occurredAt input) alreadyGranted of
                 Inl refusal \<Rightarrow> returnM (SKIPPED (refusal_reason refusal) (rw_id rule))
               | Inr decision \<Rightarrow> award rt rule input balance decision)))))"

definition grantOne :: "'a reward_runtime_scheme \<Rightarrow> reward_rule \<Rightarrow> grant_input \<Rightarrow> (reward_db, grant_outcome) request" where
  "grantOne rt rule input = (\<lambda>s.
     case atomically (rewardTransaction (grant_body rt rule input)) s of
       (Inl (UniqueViolation c), s') \<Rightarrow>
         if c = ''reward_rule_id_source_reference_key'' \<and>
            list_ex (\<lambda>r. rd_organizationId r = gi_organizationId input \<and> rd_userId r = gi_userId input \<and>
              rd_ruleId r = rw_id rule \<and> rd_triggerEvent r = gi_triggerEvent input \<and>
              rd_sourceReference r = gi_sourceReference input) (rewards s')
         then (Inr (SKIPPED ''duplicate'' (rw_id rule)), s')
         else (Inl (UniqueViolation c), s')
     | answer \<Rightarrow> answer)"

text \<open>\<open>grantFor\<close>: every rule is attempted; the failures are thrown together, after the others committed.\<close>

datatype grant_report =
    Outcomes "grant_outcome list"
  | RewardGrantError "grant_outcome list" "(string \<times> failure) list"

definition historyAt :: "status_entry list \<Rightarrow> string \<Rightarrow> int \<Rightarrow> status_entry list" where
  "historyAt history ruleId occurredAt =
     take 1 (rev (sort_key (\<lambda>e. (sh_effectiveAt e, sh_id e))
       (filter (\<lambda>e. sh_ruleId e = ruleId \<and> sh_effectiveAt e \<le> occurredAt) history)))"

definition candidateRewardRules :: "string \<Rightarrow> string \<Rightarrow> int \<Rightarrow> rule_view list reward_tx" where
  "candidateRewardRules org triggerEvent occurredAt =
     getsM (\<lambda>s. map (\<lambda>r. (r, historyAt (statusHistory s) (rw_id r) occurredAt))
       (filter (\<lambda>r. rw_triggerEvent r = triggerEvent \<and> (rw_organizationId r = None \<or> rw_organizationId r = Some org))
          (rewardRules s)))"

definition applicableRuleIds :: "string \<Rightarrow> string \<Rightarrow> int \<Rightarrow> string list reward_tx" where
  "applicableRuleIds org triggerEvent occurredAt =
     bindM (candidateRewardRules org triggerEvent occurredAt) (\<lambda>views.
     returnM (sort (map (\<lambda>v. rw_id (fst v)) (applicableRules views org triggerEvent occurredAt))))"

fun grant_each ::
  "'a reward_runtime_scheme \<Rightarrow> grant_input \<Rightarrow> reward_rule list \<Rightarrow> reward_db \<Rightarrow>
     (grant_outcome list \<times> (string \<times> failure) list) \<times> reward_db"
where
  "grant_each rt input [] s = (([], []), s)"
| "grant_each rt input (rule # others) s =
     (case grantOne rt rule input s of
        (Inr outcome, s1) \<Rightarrow> (case grant_each rt input others s1 of ((os, fs), s2) \<Rightarrow> ((outcome # os, fs), s2))
      | (Inl e, s1) \<Rightarrow> (case grant_each rt input others s1 of ((os, fs), s2) \<Rightarrow> ((os, (rw_id rule, e) # fs), s2)))"

definition grantFor ::
  "'a reward_runtime_scheme \<Rightarrow> string \<Rightarrow> string option \<Rightarrow> string \<Rightarrow> string \<Rightarrow> int \<Rightarrow> facts_of \<Rightarrow> string list option \<Rightarrow>
     reward_db \<Rightarrow> (failure + grant_report) \<times> reward_db"
where
  "grantFor rt org user triggerEvent sourceReference occurredAt payload onlyRuleIds =
     (case user of
        None \<Rightarrow> liftR (Inr (Outcomes []))
      | Some subject_id \<Rightarrow>
          if subject_id = [] then liftR (Inr (Outcomes []))
          else bindR (atomically (candidateRewardRules org triggerEvent occurredAt)) (\<lambda>views.
          let applicable = (case onlyRuleIds of
                None \<Rightarrow> applicableRules views org triggerEvent occurredAt
              | Some ids \<Rightarrow> filter (\<lambda>v. rw_id (fst v) \<in> set ids) views) in
          if applicable = [] then liftR (Inr (Outcomes []))
          else (\<lambda>s. case grant_each rt \<lparr>gi_organizationId = org, gi_userId = subject_id, gi_triggerEvent = triggerEvent,
                  gi_sourceReference = sourceReference, gi_occurredAt = occurredAt, gi_payload = payload\<rparr>
                  (map fst applicable) s of
                ((os, fs), s') \<Rightarrow> (Inr (if fs = [] then Outcomes os else RewardGrantError os fs), s'))))"

text \<open>Which failures a retry would repeat.\<close>

definition isPermanentGrantFailure :: "failure \<Rightarrow> bool" where
  "isPermanentGrantFailure e =
     (case e of
        RastaError code _ \<Rightarrow> code \<in> {VALIDATION_FAILED, BUSINESS_RULE_VIOLATION, LEDGER_UNBALANCED}
      | TerminalRefusalError _ code \<Rightarrow> code \<in> {VALIDATION_FAILED, BUSINESS_RULE_VIOLATION, LEDGER_UNBALANCED}
      | _ \<Rightarrow> False)"

fun permanent :: "grant_report \<Rightarrow> bool" where
  "permanent (Outcomes _) = False"
| "permanent (RewardGrantError _ fs) = list_all (\<lambda>(ruleId, e). isPermanentGrantFailure e) fs"

section \<open>Rules\<close>

record create_reward_rule_dto =
  cw_organizationId :: "string option"
  cw_triggerEvent :: string
  cw_rewardType :: "reward_type option"
  cw_condition :: "json option"
  cw_points :: int
  cw_creditPerPointMinor :: "string option"
  cw_periodCap :: "int option"
  cw_periodType :: "period_type option"
  cw_validFrom :: "int option"
  cw_validTo :: "int option"
  cw_status :: "rule_status option"
  cw_label :: "string option"

text \<open>The CHECKs of the table; a cap and its period come together.\<close>

definition reward_rule_row_ok :: "reward_rule \<Rightarrow> bool" where
  "reward_rule_row_ok r \<longleftrightarrow>
     0 < rw_points r \<and> (case rw_creditPerPointMinor r of Some c \<Rightarrow> 0 < c | None \<Rightarrow> True) \<and>
     (case (rw_periodCap r, rw_periodType r) of (None, None) \<Rightarrow> True | (Some c, Some _) \<Rightarrow> 0 < c | _ \<Rightarrow> False) \<and>
     (case rw_validTo r of Some v \<Rightarrow> rw_validFrom r < v | None \<Rightarrow> True) \<and>
     rw_points r \<le> MAX_TOTAL_POINTS \<and> (case rw_periodCap r of Some c \<Rightarrow> c \<le> MAX_TOTAL_POINTS | None \<Rightarrow> True)"

definition rewardRuleTermsOf :: "reward_rule \<Rightarrow> reward_rule_terms" where
  "rewardRuleTermsOf r =
     \<lparr>rwt_organizationId = rw_organizationId r, rwt_triggerEvent = rw_triggerEvent r, rwt_rewardType = rw_rewardType r,
      rwt_condition = rw_condition r, rwt_points = rw_points r,
      rwt_creditPerPointMinor = map_option formatMinor (rw_creditPerPointMinor r), rwt_periodCap = rw_periodCap r,
      rwt_periodType = rw_periodType r, rwt_validFrom = rw_validFrom r, rwt_validTo = rw_validTo r,
      rwt_status = rw_status r, rwt_label = rw_label r\<rparr>"

definition recordRewardRuleChange ::
  "'a reward_runtime_scheme \<Rightarrow> reward_rule \<Rightarrow> reward_rule option \<Rightarrow> string \<Rightarrow> unit reward_tx"
where
  "recordRewardRuleChange rt rule earlier actor =
     bindM (liftM (case rw_organizationId rule of Some org \<Rightarrow> Inr org | None \<Rightarrow> getOrganizationId rt)) (\<lambda>org.
     onBooks (enqueue rt (rw_id rule) org
       (RewardRuleChanged (rw_id rule) (if earlier = None then CHANGE_CREATED else CHANGE_UPDATED) actor (rw_updatedAt rule)
          (map_option rewardRuleTermsOf earlier) (rewardRuleTermsOf rule)) None))"

definition insert_status :: "string \<Rightarrow> rule_status \<Rightarrow> int \<Rightarrow> unit reward_tx" where
  "insert_status ruleId status effectiveAt =
     modifyM (\<lambda>s. s\<lparr>statusHistory := statusHistory s @
       [\<lparr>sh_id = Suc (length (statusHistory s)), sh_ruleId = ruleId, sh_status = status, sh_effectiveAt = effectiveAt\<rparr>]\<rparr>)"

text \<open>The transaction of a new rule; \<open>answer\<close> stores the answer of the key in it.\<close>

definition store_reward_rule ::
  "'a reward_runtime_scheme \<Rightarrow> reward_rule \<Rightarrow> (reward_rule \<Rightarrow> unit reward_tx) \<Rightarrow> reward_rule reward_tx"
where
  "store_reward_rule rt created answer =
     bindM (getsM (\<lambda>s. rw_id created \<notin> rw_id ` set (rewardRules s))) (\<lambda>fresh.
     thenM (assertM (reward_rule_row_ok created) (ConstraintViolation ''ck_reward_rule''))
    (thenM (assertM fresh (UniqueViolation ''reward_rule_pkey''))
    (thenM (modifyM (\<lambda>s. s\<lparr>rewardRules := rewardRules s @ [created]\<rparr>))
    (thenM (insert_status (rw_id created) (rw_status created)
              (if rw_validFrom created < rw_createdAt created then rw_validFrom created else rw_createdAt created))
    (thenM (recordRewardRuleChange rt created None (rw_updatedBy created))
    (thenM (answer created) (returnM created)))))))"

definition createRewardRule ::
  "'a reward_runtime_scheme \<Rightarrow> create_reward_rule_dto \<Rightarrow> (reward_rule \<Rightarrow> unit reward_tx) \<Rightarrow> reward_rule reward_tx"
where
  "createRewardRule rt dto answer =
     (let actor = actor_name rt in
      thenM (assertM (\<not> (cw_rewardType dto = Some CASHBACK \<and> \<not> ECONOMIC_REWARD_CASHBACK_ENABLED rt))
              (RastaError BUSINESS_RULE_VIOLATION ''Cashback rewards are disabled''))
     (bindM (liftM (parse_bound (cw_creditPerPointMinor dto))) (\<lambda>rate.
      thenM (assertM (case rate of Some r \<Rightarrow> isStorableMinor (cw_points dto * r) | None \<Rightarrow> True)
              (RastaError VALIDATION_FAILED ''Reward value out of range''))
     (bindM (onBooks (prefixed_ulid rt ''RWR'')) (\<lambda>i.
      bindM (case cw_validFrom dto of Some d \<Rightarrow> returnM d | None \<Rightarrow> onBooks (hostDate rt)) (\<lambda>validFrom.
      rewardTransaction
       (bindM (onBooks (databaseNow rt)) (\<lambda>createdAt.
        bindM (onBooks (hostDate rt)) (\<lambda>updatedAt.
        store_reward_rule rt
          \<lparr>rw_id = i, rw_organizationId = cw_organizationId dto, rw_triggerEvent = cw_triggerEvent dto,
           rw_rewardType = (case cw_rewardType dto of Some t \<Rightarrow> t | None \<Rightarrow> POINTS), rw_condition = cw_condition dto,
           rw_points = cw_points dto, rw_creditPerPointMinor = rate, rw_periodCap = cw_periodCap dto,
           rw_periodType = cw_periodType dto, rw_validFrom = validFrom, rw_validTo = cw_validTo dto,
           rw_status = (case cw_status dto of Some st \<Rightarrow> st | None \<Rightarrow> R_ACTIVE), rw_label = cw_label dto,
           rw_createdAt = createdAt, rw_createdBy = actor, rw_updatedAt = updatedAt, rw_updatedBy = actor\<rparr>
          answer)))))))))"

record update_reward_rule_dto =
  uw_status :: "rule_status option"
  uw_validTo :: "int option option"
  uw_label :: "string option"

definition changed_rule :: "reward_rule \<Rightarrow> update_reward_rule_dto \<Rightarrow> int option \<Rightarrow> int \<Rightarrow> string \<Rightarrow> reward_rule" where
  "changed_rule existing dto validTo clock actor =
     existing\<lparr>rw_status := (case uw_status dto of Some st \<Rightarrow> st | None \<Rightarrow> rw_status existing),
       rw_validTo := validTo,
       rw_label := (case uw_label dto of Some l \<Rightarrow> Some l | None \<Rightarrow> rw_label existing),
       rw_updatedAt := clock, rw_updatedBy := actor\<rparr>"

definition store_rule_change :: "'a reward_runtime_scheme \<Rightarrow> reward_rule \<Rightarrow> reward_rule \<Rightarrow> reward_rule reward_tx" where
  "store_rule_change rt existing updated =
     thenM (assertM (reward_rule_row_ok updated) (ConstraintViolation ''ck_reward_rule''))
    (thenM (modifyM (\<lambda>s. s\<lparr>rewardRules := map (\<lambda>r. if rw_id r = rw_id existing then updated else r) (rewardRules s)\<rparr>))
    (thenM (if rw_status updated \<noteq> rw_status existing
            then insert_status (rw_id existing) (rw_status updated) (rw_updatedAt updated) else returnM ())
    (thenM (recordRewardRuleChange rt updated (Some existing) (rw_updatedBy updated)) (returnM updated))))"

definition updateRewardRule :: "'a reward_runtime_scheme \<Rightarrow> string \<Rightarrow> update_reward_rule_dto \<Rightarrow> reward_rule reward_tx" where
  "updateRewardRule rt i dto =
     (let actor = actor_name rt in
      rewardTransaction
       (bindM (getsM (\<lambda>s. find (\<lambda>r. rw_id r = i) (rewardRules s))) (\<lambda>row.
        case row of
          None \<Rightarrow> throwM (RastaError NOT_FOUND ''RewardRule'')
        | Some existing \<Rightarrow>
            bindM (onBooks (databaseNow rt)) (\<lambda>clock.
            bindM (case uw_validTo dto of
                     None \<Rightarrow> returnM (rw_validTo existing)
                   | Some requested \<Rightarrow> liftM (nextValidTo (rw_validFrom existing) (rw_validTo existing) requested clock)) (\<lambda>validTo.
            store_rule_change rt existing (changed_rule existing dto validTo clock actor))))))"

end
