(* ===== verification/Reward_Laws.thy ===== *)
theory Reward_Laws
  imports Reward Service
begin

text \<open>
  What grants keep: the caps, one grant of a fact by a rule, the balances, the terms of the rules, and the
  books of the service. Then how one grant moves the money.
\<close>

section \<open>Running on the books\<close>

lemma onBooks_Inr: "onBooks m s = Inr (x, s') \<longleftrightarrow> (\<exists>d. m (books s) = Inr (x, d) \<and> s' = s\<lparr>books := d\<rparr>)"
  by (auto simp: onBooks_def split: sum.splits)

lemma rewardTransaction_Inr:
  "rewardTransaction body s = Inr (x, s') \<longleftrightarrow> body s = Inr (x, s') \<and> commit_ok (books s')"
  by (auto simp: rewardTransaction_def bindM_Inr thenM_Inr getsM_def assertM_Inr returnM_def)

lemma only_books:
  "s' = s\<lparr>books := b\<rparr> \<Longrightarrow> rewards s' = rewards s \<and> rewardRules s' = rewardRules s \<and> balances_of s' = balances_of s \<and>
     statusHistory s' = statusHistory s \<and> sourceEvaluations s' = sourceEvaluations s \<and> rewardLevels s' = rewardLevels s"
  by simp

lemma only_rows:
  "s' = s\<lparr>rewards := rs, balances_of := bs, books := b\<rparr> \<Longrightarrow> rewards s' = rs \<and> rewardRules s' = rewardRules s \<and>
     balances_of s' = bs \<and> statusHistory s' = statusHistory s \<and> sourceEvaluations s' = sourceEvaluations s"
  by simp

section \<open>One award\<close>

definition reward_row :: "reward_rule \<Rightarrow> grant_input \<Rightarrow> reward_decision \<Rightarrow> string \<Rightarrow> string option \<Rightarrow> int \<Rightarrow> reward" where
  "reward_row rule input d rewardId journalId grantedAt =
     \<lparr>rd_id = rewardId, rd_organizationId = gi_organizationId input, rd_userId = gi_userId input, rd_ruleId = rw_id rule,
      rd_triggerEvent = gi_triggerEvent input, rd_sourceReference = gi_sourceReference input, rd_points = de_points d,
      rd_creditAmountMinor = de_creditAmountMinor d, rd_currency = ''IRR'', rd_monetised = de_monetised d,
      rd_journalId = journalId, rd_periodKey = de_periodKey d, rd_occurredAt = Some (gi_occurredAt input),
      rd_grantedAt = grantedAt\<rparr>"

definition added :: "string \<Rightarrow> string \<Rightarrow> int \<Rightarrow> string option \<Rightarrow> int \<Rightarrow> reward_balance \<Rightarrow> reward_balance" where
  "added org user points level credit' b =
     (if of_subject org user b
      then b\<lparr>rb_totalPoints := points, rb_levelId := level, rb_lifetimeCreditMinor := rb_lifetimeCreditMinor b + credit'\<rparr> else b)"

text \<open>The books after the money of an award and its events.\<close>

definition paid :: "'a reward_runtime_scheme \<Rightarrow> grant_input \<Rightarrow> reward_decision \<Rightarrow> string \<Rightarrow> string option \<Rightarrow> db \<Rightarrow> db \<Rightarrow> bool" where
  "paid rt input d rewardId journalId b b' \<longleftrightarrow>
     (if de_monetised d
      then \<exists>j n. journalId = Some j \<and> credit_reward rt (gi_organizationId input) rewardId (gi_triggerEvent input) (de_creditAmountMinor d)
             (b\<lparr>ticks := n\<rparr>) = Inr (j, b')
      else journalId = None \<and> (\<exists>n. b' = b\<lparr>ticks := n\<rparr>))"

lemma applyLevel_Inr:
  assumes "applyLevel rt org user points previous credit' at s = Inr (lvl, s')"
  shows "\<exists>level b'. s' = s\<lparr>balances_of := map (added org user points level credit') (balances_of s), books := b'\<rparr> \<and>
      (b' = books s \<or> (\<exists>aid p u. enqueue rt aid org p None (books s) = Inr (u, b')))"
proof -
  let ?levels = "filter (\<lambda>l. lv_status l = R_ACTIVE \<and> (lv_organizationId l = None \<or> lv_organizationId l = Some org)) (rewardLevels s)"
  have up: "(\<lambda>b. if of_subject org user b then b\<lparr>rb_totalPoints := points, rb_levelId := level,
        rb_lifetimeCreditMinor := rb_lifetimeCreditMinor b + credit'\<rparr> else b) = added org user points level credit'" for level
    by (simp add: fun_eq_iff added_def)
  show ?thesis
  proof (cases "levelFor ?levels points")
    case None
    with assms have "s' = s\<lparr>balances_of := map (added org user points previous credit') (balances_of s), books := books s\<rparr>"
      by (cases s) (auto simp: applyLevel_def Let_def bindM_Inr thenM_Inr getsM_def modifyM_def returnM_def up)
    then show ?thesis by blast
  next
    case (Some l)
    let ?s1 = "s\<lparr>balances_of := map (added org user points (Some (lv_id l)) credit') (balances_of s)\<rparr>"
    from assms Some have r: "(if Some (lv_id l) = previous then returnM None
          else thenM (onBooks (enqueue rt (org @ '':'' @ user) org
                 (RewardLevelChanged org user (map_option lv_name (find (\<lambda>c. Some (lv_id c) = previous) ?levels))
                    (lv_name l) points at) None)) (returnM (Some (lv_name l)))) ?s1 = Inr (lvl, s')"
      by (simp add: applyLevel_def Let_def bindM_Inr thenM_Inr getsM_def modifyM_def up)
    show ?thesis
    proof (cases "Some (lv_id l) = previous")
      case True
      with r have "s' = s\<lparr>balances_of := map (added org user points (Some (lv_id l)) credit') (balances_of s), books := books s\<rparr>"
        by (cases s) (auto simp: returnM_def)
      then show ?thesis by blast
    next
      case False
      with r obtain u d where "enqueue rt (org @ '':'' @ user) org
                 (RewardLevelChanged org user (map_option lv_name (find (\<lambda>c. Some (lv_id c) = previous) ?levels))
                    (lv_name l) points at) None (books s) = Inr (u, d)" and "s' = ?s1\<lparr>books := d\<rparr>"
        by (auto simp: thenM_Inr onBooks_Inr returnM_def)
      then show ?thesis by (intro exI [of _ "Some (lv_id l)"] exI [of _ d]) auto
    qed
  qed
qed

lemma insert_reward_Inr:
  "insert_reward r s = Inr (u, s') \<longleftrightarrow>
     0 < rd_points r \<and> (if rd_monetised r then 0 < rd_creditAmountMinor r \<and> rd_journalId r \<noteq> None
        else rd_creditAmountMinor r = 0 \<and> rd_journalId r = None) \<and> rd_id r \<notin> rd_id ` set (rewards s) \<and>
     (\<forall>q\<in>set (rewards s). \<not> (rd_ruleId q = rd_ruleId r \<and> rd_sourceReference q = rd_sourceReference r)) \<and>
     (\<exists>w\<in>set (rewardRules s). rw_id w = rd_ruleId r) \<and> s' = s\<lparr>rewards := rewards s @ [r]\<rparr>"
  by (auto simp: insert_reward_def bindM_Inr thenM_Inr getsM_def assertM_Inr modifyM_def list_ex_iff)

lemma award_Inr:
  assumes "award rt rule input balance d s = Inr (outcome, s')"
  shows "\<exists>rewardId journalId grantedAt level lvl b1 b2 u.
    outcome = GRANTED rewardId (rw_id rule) (de_points d) (de_creditAmountMinor d) (de_monetised d) lvl \<and>
    s' = s\<lparr>rewards := rewards s @ [reward_row rule input d rewardId journalId grantedAt],
        balances_of := map (added (gi_organizationId input) (gi_userId input) (rb_totalPoints balance + de_points d) level
          (de_creditAmountMinor d)) (balances_of s), books := books s'\<rparr> \<and>
    paid rt input d rewardId journalId (books s) b1 \<and>
    (b2 = b1 \<or> (\<exists>aid p u. enqueue rt aid (gi_organizationId input) p None b1 = Inr (u, b2))) \<and>
    enqueue rt rewardId (gi_organizationId input) (RewardGranted rewardId (gi_organizationId input) (gi_userId input) (rw_id rule)
       (gi_triggerEvent input) (gi_sourceReference input) (de_points d) (formatMinor (de_creditAmountMinor d)) ''IRR''
       (de_monetised d) journalId grantedAt) None b2 = Inr (u, books s') \<and>
    isStorableMinor (de_creditAmountMinor d) \<and> rb_totalPoints balance + de_points d \<le> MAX_TOTAL_POINTS \<and>
    isStorableMinor (rb_lifetimeCreditMinor balance + de_creditAmountMinor d) \<and>
    0 < de_points d \<and> (\<exists>w\<in>set (rewardRules s). rw_id w = rw_id rule) \<and>
    (\<forall>q\<in>set (rewards s). \<not> (rd_ruleId q = rw_id rule \<and> rd_sourceReference q = gi_sourceReference input))"
proof -
  let ?org = "gi_organizationId input" and ?user = "gi_userId input"
  from assms obtain rid s1 at s2 jid s3 u1 s4 lvl s5 u2 where
    ok: "isStorableMinor (de_creditAmountMinor d)" "rb_totalPoints balance + de_points d \<le> MAX_TOTAL_POINTS"
      "isStorableMinor (rb_lifetimeCreditMinor balance + de_creditAmountMinor d)"
    and src: "onBooks (prefixed_ulid rt ''RWD'') s = Inr (rid, s1)" "onBooks (hostDate rt) s1 = Inr (at, s2)"
    and pay: "(if de_monetised d
             then bindM (onBooks (credit_reward rt ?org rid (gi_triggerEvent input) (de_creditAmountMinor d)))
                    (\<lambda>j. returnM (Some j))
             else returnM None) s2 = Inr (jid, s3)"
    and ins: "insert_reward (reward_row rule input d rid jid at) s3 = Inr (u1, s4)"
    and lev: "applyLevel rt ?org ?user (rb_totalPoints balance + de_points d) (rb_levelId balance) (de_creditAmountMinor d) at s4 = Inr (lvl, s5)"
    and enq: "onBooks (enqueue rt rid ?org (RewardGranted rid ?org ?user (rw_id rule) (gi_triggerEvent input) (gi_sourceReference input)
                 (de_points d) (formatMinor (de_creditAmountMinor d)) ''IRR'' (de_monetised d) jid at) None) s5 = Inr (u2, s')"
    and out: "outcome = GRANTED rid (rw_id rule) (de_points d) (de_creditAmountMinor d) (de_monetised d) lvl"
    unfolding award_def Let_def bindM_Inr thenM_Inr assertM_Inr reward_row_def returnM_def by auto
  from src obtain n where s2: "s2 = s\<lparr>books := (books s)\<lparr>ticks := n\<rparr>\<rparr>"
    by (auto simp: onBooks_Inr prefixed_ulid_Inr hostDate_Inr)
  have p: "paid rt input d rid jid (books s) (books s3) \<and> s3 = s\<lparr>books := books s3\<rparr>"
    using pay by (cases "de_monetised d"; cases s) (auto simp: paid_def bindM_Inr onBooks_Inr returnM_def s2)
  from ins have i: "0 < de_points d" "\<exists>w\<in>set (rewardRules s3). rw_id w = rw_id rule"
    "\<forall>q\<in>set (rewards s3). \<not> (rd_ruleId q = rw_id rule \<and> rd_sourceReference q = gi_sourceReference input)"
    "s4 = s3\<lparr>rewards := rewards s3 @ [reward_row rule input d rid jid at]\<rparr>"
    by (simp_all add: insert_reward_Inr reward_row_def)
  from applyLevel_Inr [OF lev] obtain level b2 where l: "s5 = s4\<lparr>balances_of := map (added ?org ?user (rb_totalPoints balance + de_points d) level
        (de_creditAmountMinor d)) (balances_of s4), books := b2\<rparr>"
    "b2 = books s4 \<or> (\<exists>aid p u. enqueue rt aid ?org p None (books s4) = Inr (u, b2))" by blast
  from enq obtain b3 where e: "enqueue rt rid ?org (RewardGranted rid ?org ?user (rw_id rule) (gi_triggerEvent input) (gi_sourceReference input)
                 (de_points d) (formatMinor (de_creditAmountMinor d)) ''IRR'' (de_monetised d) jid at) None b2 = Inr (u2, b3)"
    "s' = s5\<lparr>books := b3\<rparr>" by (auto simp: onBooks_Inr l(1))
  have f: "rewards s3 = rewards s" "rewardRules s3 = rewardRules s" "balances_of s3 = balances_of s"
    using only_books [OF p [THEN conjunct2]] by blast+
  have "s' = s\<lparr>rewards := rewards s @ [reward_row rule input d rid jid at],
        balances_of := map (added ?org ?user (rb_totalPoints balance + de_points d) level
          (de_creditAmountMinor d)) (balances_of s), books := books s'\<rparr>"
    unfolding e(2) l(1) i(4) using p f by (cases s; cases s3) simp
  moreover have "books s4 = books s3" "books s' = b3" using i(4) e(2) by simp_all
  moreover note out p l(2) e(1) ok i(1) i(2,3) [unfolded f]
  ultimately show ?thesis
    by (rule_tac exI [of _ rid], rule_tac exI [of _ jid], rule_tac exI [of _ at], rule_tac exI [of _ level], rule_tac exI [of _ lvl],
        rule_tac exI [of _ "books s3"], rule_tac exI [of _ b2], rule_tac exI [of _ u2]) (simp only: simp_thms)
qed

section \<open>One grant\<close>

definition ensured :: "string \<Rightarrow> string \<Rightarrow> reward_db \<Rightarrow> reward_db" where
  "ensured org user s =
     (if list_ex (of_subject org user) (balances_of s) then s
      else s\<lparr>balances_of := balances_of s @ [\<lparr>rb_organizationId = org, rb_userId = user, rb_totalPoints = 0,
             rb_levelId = None, rb_lifetimeCreditMinor = 0\<rparr>]\<rparr>)"

lemma ensured_simps [simp]:
  "books (ensured org user s) = books s" "rewards (ensured org user s) = rewards s"
  "rewardRules (ensured org user s) = rewardRules s" "sourceEvaluations (ensured org user s) = sourceEvaluations s"
  "statusHistory (ensured org user s) = statusHistory s" "rewardLevels (ensured org user s) = rewardLevels s"
  "window_points (ensured org user s) = window_points s"
  by (simp_all add: ensured_def window_points_def fun_eq_iff)

definition granted_before :: "reward_db \<Rightarrow> reward_rule \<Rightarrow> grant_input \<Rightarrow> int" where
  "granted_before s rule input =
     (let points = window_points s (gi_organizationId input) (gi_userId input) (rw_id rule) (rw_periodType rule) (gi_occurredAt input)
      in if rw_periodType rule = Some WEEK \<and> points > MAX_TOTAL_POINTS then MAX_TOTAL_POINTS else points)"

lemma grant_body_Inr:
  assumes "grant_body rt rule input s = Inr (outcome, s')"
  shows "(\<exists>reason. outcome = SKIPPED reason (rw_id rule) \<and> s' = ensured (gi_organizationId input) (gi_userId input) s) \<or>
    (\<exists>d balance. evaluate rule (gi_payload input) (gi_occurredAt input) (granted_before s rule input) = Inr d \<and>
       find (of_subject (gi_organizationId input) (gi_userId input)) (balances_of (ensured (gi_organizationId input) (gi_userId input) s)) = Some balance \<and>
       award rt rule input balance d (ensured (gi_organizationId input) (gi_userId input) s) = Inr (outcome, s'))"
proof -
  let ?org = "gi_organizationId input" and ?user = "gi_userId input"
  let ?s = "ensured ?org ?user s"
  have en: "ensureBalanceRow ?org ?user s = Inr ((), ?s)" by (simp add: ensureBalanceRow_def ensured_def)
  define k where "k = (\<lambda>(balance :: reward_balance) (existing :: reward option). case existing of
        Some r \<Rightarrow>
          thenM (assertM (\<not> (rd_organizationId r \<noteq> ?org \<or> rd_userId r \<noteq> ?user \<or> rd_triggerEvent r \<noteq> gi_triggerEvent input))
                  idempotencyKeyReused)
                (returnM (SKIPPED ''duplicate'' (rw_id rule)))
      | None \<Rightarrow>
          if rw_rewardType rule = CASHBACK \<and> \<not> ECONOMIC_REWARD_CASHBACK_ENABLED rt
          then returnM (SKIPPED ''cashback_disabled'' (rw_id rule))
          else bindM (pointsInPeriod ?org ?user (rw_id rule) (rw_periodType rule) (gi_occurredAt input)) (\<lambda>alreadyGranted.
               case evaluate rule (gi_payload input) (gi_occurredAt input) alreadyGranted of
                 Inl refusal \<Rightarrow> returnM (SKIPPED (refusal_reason refusal) (rw_id rule))
               | Inr decision \<Rightarrow> award rt rule input balance decision))"
  have body: "grant_body rt rule input = thenM (ensureBalanceRow ?org ?user) (bindM (lockBalance ?org ?user) (\<lambda>balance.
      bindM (getsM (\<lambda>s. find (\<lambda>r. rd_ruleId r = rw_id rule \<and> rd_sourceReference r = gi_sourceReference input) (rewards s))) (k balance)))"
    unfolding grant_body_def Let_def k_def ..
  have "bindM (lockBalance ?org ?user) (\<lambda>balance.
      bindM (getsM (\<lambda>s. find (\<lambda>r. rd_ruleId r = rw_id rule \<and> rd_sourceReference r = gi_sourceReference input) (rewards s))) (k balance)) ?s
      = Inr (outcome, s')"
    using assms unfolding body thenM_Inr en by simp
  then obtain balance where b: "find (of_subject ?org ?user) (balances_of ?s) = Some balance"
    and "k balance (find (\<lambda>r. rd_ruleId r = rw_id rule \<and> rd_sourceReference r = gi_sourceReference input) (rewards s)) ?s = Inr (outcome, s')"
    by (cases "find (of_subject ?org ?user) (balances_of ?s)")
       (simp_all add: bindM_Inr lockBalance_def)
  note r = this(2) [unfolded k_def]
  have p: "pointsInPeriod ?org ?user (rw_id rule) (rw_periodType rule) (gi_occurredAt input) ?s = Inr (granted_before s rule input, ?s)"
    by (simp add: pointsInPeriod_def granted_before_def)
  show ?thesis
  proof (cases "find (\<lambda>r. rd_ruleId r = rw_id rule \<and> rd_sourceReference r = gi_sourceReference input) (rewards s)")
    case (Some q)
    with r show ?thesis by (auto simp: thenM_Inr assertM_Inr)
  next
    case None
    show ?thesis
    proof (cases "rw_rewardType rule = CASHBACK \<and> \<not> ECONOMIC_REWARD_CASHBACK_ENABLED rt")
      case True
      with r None show ?thesis by (auto simp: returnM_def)
    next
      case False
      with r None have "bindM (pointsInPeriod ?org ?user (rw_id rule) (rw_periodType rule) (gi_occurredAt input)) (\<lambda>alreadyGranted.
               case evaluate rule (gi_payload input) (gi_occurredAt input) alreadyGranted of
                 Inl refusal \<Rightarrow> returnM (SKIPPED (refusal_reason refusal) (rw_id rule))
               | Inr decision \<Rightarrow> award rt rule input balance decision) ?s = Inr (outcome, s')" by (simp only: option.case if_False)
      then have e: "(case evaluate rule (gi_payload input) (gi_occurredAt input) (granted_before s rule input) of
                 Inl refusal \<Rightarrow> returnM (SKIPPED (refusal_reason refusal) (rw_id rule))
               | Inr decision \<Rightarrow> award rt rule input balance decision) ?s = Inr (outcome, s')" by (simp add: bindM_Inr p)
      show ?thesis
        using e b by (cases "evaluate rule (gi_payload input) (gi_occurredAt input) (granted_before s rule input)")
          (auto simp: returnM_def)
    qed
  qed
qed

lemma evaluate_Inr:
  assumes "evaluate rule payload t already = Inr d"
  shows "conditionHolds (rw_condition rule) payload \<and> de_periodKey d = periodKeyFor (rw_periodType rule) t \<and>
    de_points d = (case rw_periodCap rule of None \<Rightarrow> rw_points rule | Some cap \<Rightarrow> min (rw_points rule) (cap - already)) \<and>
    (case rw_periodCap rule of None \<Rightarrow> True | Some cap \<Rightarrow> already < cap) \<and>
    de_creditAmountMinor d = (case rw_creditPerPointMinor rule of None \<Rightarrow> 0 | Some rate \<Rightarrow> de_points d * rate) \<and>
    de_monetised d = (de_creditAmountMinor d > 0)"
  using assms
  by (cases "rw_periodCap rule"; cases "rw_creditPerPointMinor rule")
     (auto simp: evaluate_def remainingCap_def Let_def max_def split: if_splits)

section \<open>The invariant\<close>

definition rules_wf :: "reward_db \<Rightarrow> bool" where
  "rules_wf s \<longleftrightarrow> distinct (map rw_id (rewardRules s)) \<and> (\<forall>w\<in>set (rewardRules s). reward_rule_row_ok w)"

text \<open>A reward is what its rule says: its period, its value.\<close>

definition reward_wf :: "reward_rule list \<Rightarrow> reward \<Rightarrow> bool" where
  "reward_wf ws r \<longleftrightarrow>
     (\<exists>w\<in>set ws. rw_id w = rd_ruleId r \<and> 0 < rd_points r \<and> rd_points r \<le> rw_points w \<and>
        rd_creditAmountMinor r = (case rw_creditPerPointMinor w of None \<Rightarrow> 0 | Some rate \<Rightarrow> rd_points r * rate) \<and>
        (\<exists>t. rd_occurredAt r = Some t \<and> plain_year t \<and> rd_periodKey r = periodKeyFor (rw_periodType w) t))"

definition subject_sum :: "(reward \<Rightarrow> int) \<Rightarrow> reward list \<Rightarrow> string \<Rightarrow> string \<Rightarrow> int" where
  "subject_sum f rs org user = sum_list (map f (filter (\<lambda>r. rd_organizationId r = org \<and> rd_userId r = user) rs))"

definition balances_wf :: "reward_db \<Rightarrow> bool" where
  "balances_wf s \<longleftrightarrow>
     distinct (map (\<lambda>b. (rb_organizationId b, rb_userId b)) (balances_of s)) \<and>
     (\<forall>r\<in>set (rewards s). \<exists>b\<in>set (balances_of s). of_subject (rd_organizationId r) (rd_userId r) b) \<and>
     (\<forall>b\<in>set (balances_of s).
        rb_totalPoints b = subject_sum rd_points (rewards s) (rb_organizationId b) (rb_userId b) \<and>
        rb_lifetimeCreditMinor b = subject_sum rd_creditAmountMinor (rewards s) (rb_organizationId b) (rb_userId b) \<and>
        rb_totalPoints b \<le> MAX_TOTAL_POINTS \<and> rb_lifetimeCreditMinor b \<le> MAX_AMOUNT_MINOR)"

definition capped :: "reward_db \<Rightarrow> bool" where
  "capped s \<longleftrightarrow>
     (\<forall>w\<in>set (rewardRules s). \<forall>cap org user t. rw_periodCap w = Some cap \<longrightarrow> plain_year t \<longrightarrow>
        window_points s org user (rw_id w) (rw_periodType w) t \<le> cap)"

definition rewards_ok :: "reward_db \<Rightarrow> bool" where
  "rewards_ok s \<longleftrightarrow> rules_wf s \<and> (\<forall>r\<in>set (rewards s). reward_wf (rewardRules s) r) \<and>
     distinct (map (\<lambda>r. (rd_ruleId r, rd_sourceReference r)) (rewards s)) \<and> balances_wf s \<and> capped s"

text \<open>What a grant may have read of a rule earlier: everything but its end, status and label.\<close>

definition same_reward_terms :: "reward_rule \<Rightarrow> reward_rule \<Rightarrow> bool" where
  "same_reward_terms w v \<longleftrightarrow>
     rw_id w = rw_id v \<and> rw_organizationId w = rw_organizationId v \<and> rw_triggerEvent w = rw_triggerEvent v \<and>
     rw_rewardType w = rw_rewardType v \<and> rw_condition w = rw_condition v \<and> rw_points w = rw_points v \<and>
     rw_creditPerPointMinor w = rw_creditPerPointMinor v \<and> rw_periodCap w = rw_periodCap v \<and>
     rw_periodType w = rw_periodType v \<and> rw_validFrom w = rw_validFrom v"

section \<open>Caps\<close>

lemma same_window:
  assumes "plain_year t" "plain_year u" and c: "counted ev pt t r" and "rd_occurredAt r = Some u" "rd_periodKey r = periodKeyFor pt u"
  shows "counted ev pt t q = counted ev pt u q"
proof (cases "pt = Some WEEK")
  case True
  with c assms(4) have "wk_start (isoWeekWindow t) \<le> u" "u < wk_end (isoWeekWindow t)"
    by (simp_all add: counted_def in_week_def occurrence_def)
  from within_week [OF assms(1,2) this] True show ?thesis by (simp add: counted_def)
next
  case False
  with c assms(5) show ?thesis by (simp add: counted_def)
qed

lemma counted_own:
  assumes "plain_year u" "rd_occurredAt r = Some u" "rd_periodKey r = periodKeyFor pt u"
  shows "counted ev pt u r"
  using in_own_week [OF assms(1)] assms(2,3) by (simp add: counted_def in_week_def occurrence_def)

lemma window_points_snoc:
  "window_points (s\<lparr>rewards := rs @ [r], balances_of := bs, books := b\<rparr>) org user i pt t =
   window_points (s\<lparr>rewards := rs\<rparr>) org user i pt t +
     (if rd_organizationId r = org \<and> rd_userId r = user \<and> rd_ruleId r = i \<and> counted (sourceEvaluations s) pt t r then rd_points r else 0)"
  by (simp add: window_points_def)

lemma window_points_same:
  assumes "\<And>q. counted (sourceEvaluations s) pt t q = counted (sourceEvaluations s) pt u q"
  shows "window_points s org user i pt t = window_points s org user i pt u"
  unfolding window_points_def by (simp add: assms)

lemma capped_award:
  assumes ok: "rules_wf s" "capped s" and w: "w \<in> set (rewardRules s)" "same_reward_terms w rule"
    and plain: "plain_year (gi_occurredAt input)"
    and ev: "evaluate rule payload (gi_occurredAt input) (granted_before s rule input) = Inr d"
    and s': "s' = s\<lparr>rewards := rewards s @ [reward_row rule input d rewardId journalId grantedAt], balances_of := bs, books := b\<rparr>"
  shows "capped s'"
  unfolding capped_def
proof (intro ballI allI impI)
  fix v cap org user t
  assume v: "v \<in> set (rewardRules s')" and cap: "rw_periodCap v = Some cap" and t: "plain_year t"
  let ?r = "reward_row rule input d rewardId journalId grantedAt"
  have v': "v \<in> set (rewardRules s)" using v s' by simp
  have before: "window_points s org user (rw_id v) (rw_periodType v) u \<le> cap" if "plain_year u" for u
    using ok(2) v' cap that by (simp add: capped_def)
  have e: "window_points s' org user (rw_id v) (rw_periodType v) t = window_points s org user (rw_id v) (rw_periodType v) t +
      (if rd_organizationId ?r = org \<and> rd_userId ?r = user \<and> rd_ruleId ?r = rw_id v \<and>
          counted (sourceEvaluations s) (rw_periodType v) t ?r then rd_points ?r else 0)"
    unfolding s' window_points_snoc by (simp add: window_points_def)
  show "window_points s' org user (rw_id v) (rw_periodType v) t \<le> cap"
  proof (cases "rd_organizationId ?r = org \<and> rd_userId ?r = user \<and> rd_ruleId ?r = rw_id v \<and>
          counted (sourceEvaluations s) (rw_periodType v) t ?r")
    case False
    from e [unfolded if_not_P [OF this]] before [OF t] show ?thesis by simp
  next
    case True
    then have c: "counted (sourceEvaluations s) (rw_periodType v) t ?r" by blast
    from True have m: "gi_organizationId input = org" "gi_userId input = user" "rw_id rule = rw_id v"
      by (simp_all add: reward_row_def)
    have "w = v" using ok(1) w v' m(3) by (auto simp: rules_wf_def same_reward_terms_def dest: distinct_map_eq)
    with w(2) cap have r: "rw_periodCap rule = Some cap" "rw_periodType rule = rw_periodType v" by (simp_all add: same_reward_terms_def)
    note d = evaluate_Inr [OF ev]
    have row: "rd_occurredAt ?r = Some (gi_occurredAt input)" "rd_periodKey ?r = periodKeyFor (rw_periodType v) (gi_occurredAt input)"
      using d r(2) by (simp_all add: reward_row_def)
    have same: "window_points s org user (rw_id v) (rw_periodType v) t =
        window_points s org user (rw_id v) (rw_periodType v) (gi_occurredAt input)"
      by (rule window_points_same) (rule same_window [OF t plain c row])
    have "cap \<le> MAX_TOTAL_POINTS" using ok(1) v' cap by (auto simp: rules_wf_def reward_rule_row_ok_def)
    then have "granted_before s rule input = window_points s org user (rw_id v) (rw_periodType v) (gi_occurredAt input)"
      using before [OF plain] m r(2) by (simp add: granted_before_def Let_def)
    then have "de_points d \<le> cap - window_points s org user (rw_id v) (rw_periodType v) t" using d r(1) same by simp
    moreover have "rd_points ?r = de_points d" by (simp add: reward_row_def)
    ultimately show ?thesis using e [unfolded if_P [OF True]] by simp
  qed
qed

section \<open>Balances\<close>

lemma subject_sum_snoc:
  "subject_sum f (rs @ [r]) org user = subject_sum f rs org user + (if rd_organizationId r = org \<and> rd_userId r = user then f r else 0)"
  by (simp add: subject_sum_def)

lemma subject_sum_none:
  "\<forall>r\<in>set rs. \<not> (rd_organizationId r = org \<and> rd_userId r = user) \<Longrightarrow> subject_sum f rs org user = 0"
  by (simp add: subject_sum_def filter_False)

lemma added_key: "(rb_organizationId (added org user p l c b), rb_userId (added org user p l c b)) = (rb_organizationId b, rb_userId b)"
  by (simp add: added_def)

lemma ensured_balances:
  assumes "balances_wf s"
  shows "balances_wf (ensured org user s)"
proof (cases "list_ex (of_subject org user) (balances_of s)")
  case True
  with assms show ?thesis by (simp add: ensured_def)
next
  case False
  then have none: "\<not> of_subject org user b" if "b \<in> set (balances_of s)" for b using that by (simp add: list_ex_iff)
  have no: "\<forall>r\<in>set (rewards s). \<not> (rd_organizationId r = org \<and> rd_userId r = user)"
    using assms none by (auto simp: balances_wf_def)
  from False assms none show ?thesis
    by (auto simp: ensured_def balances_wf_def of_subject_def subject_sum_none [OF no] MAX_TOTAL_POINTS_def MAX_AMOUNT_MINOR_def)
qed

lemma award_balances:
  assumes ok: "balances_wf s" and b: "find (of_subject org user) (balances_of s) = Some balance"
    and r: "rd_organizationId r = org" "rd_userId r = user"
    and bounds: "rb_totalPoints balance + rd_points r \<le> MAX_TOTAL_POINTS" "isStorableMinor (rb_lifetimeCreditMinor balance + rd_creditAmountMinor r)"
    and s': "s' = s\<lparr>rewards := rewards s @ [r],
        balances_of := map (added org user (rb_totalPoints balance + rd_points r) level (rd_creditAmountMinor r)) (balances_of s), books := bk\<rparr>"
  shows "balances_wf s'"
proof -
  let ?f = "added org user (rb_totalPoints balance + rd_points r) level (rd_creditAmountMinor r)"
  have mem: "balance \<in> set (balances_of s)" "of_subject org user balance" using b by (auto dest: find_SomeD)
  have one: "q = balance" if "q \<in> set (balances_of s)" "of_subject org user q" for q
    using ok that mem by (auto simp: balances_wf_def of_subject_def dest: distinct_map_eq)
  have keys: "map (\<lambda>b. (rb_organizationId b, rb_userId b)) (map ?f (balances_of s)) = map (\<lambda>b. (rb_organizationId b, rb_userId b)) (balances_of s)"
    by (simp add: added_def)
  have sub: "of_subject o' u' (?f q) = of_subject o' u' q" for o' u' q by (simp add: added_def of_subject_def)
  have rows: "rb_totalPoints (?f q) = subject_sum rd_points (rewards s @ [r]) (rb_organizationId (?f q)) (rb_userId (?f q)) \<and>
      rb_lifetimeCreditMinor (?f q) = subject_sum rd_creditAmountMinor (rewards s @ [r]) (rb_organizationId (?f q)) (rb_userId (?f q)) \<and>
      rb_totalPoints (?f q) \<le> MAX_TOTAL_POINTS \<and> rb_lifetimeCreditMinor (?f q) \<le> MAX_AMOUNT_MINOR"
    if q: "q \<in> set (balances_of s)" for q
  proof (cases "of_subject org user q")
    case True
    with one [OF q] have "q = balance" by simp
    with True ok q bounds r show ?thesis
      by (simp add: added_def balances_wf_def subject_sum_snoc of_subject_def isStorableMinor_def)
  next
    case False
    with ok q r show ?thesis by (auto simp: added_def balances_wf_def subject_sum_snoc of_subject_def)
  qed
  have ex: "\<exists>b\<in>set (map ?f (balances_of s)). of_subject (rd_organizationId q) (rd_userId q) b" if "q \<in> set (rewards s @ [r])" for q
  proof -
    have "\<exists>b\<in>set (balances_of s). of_subject (rd_organizationId q) (rd_userId q) b"
      using that ok mem r by (auto simp: balances_wf_def)
    then show ?thesis using sub by auto
  qed
  show ?thesis
    unfolding balances_wf_def
  proof (intro conjI ballI)
    show "distinct (map (\<lambda>b. (rb_organizationId b, rb_userId b)) (balances_of s'))"
      using ok by (simp add: s' keys balances_wf_def del: map_map)
  next
    fix q assume "q \<in> set (rewards s')"
    with ex show "\<exists>b\<in>set (balances_of s'). of_subject (rd_organizationId q) (rd_userId q) b" by (simp add: s')
  next
    fix c assume "c \<in> set (balances_of s')"
    then obtain q where q: "q \<in> set (balances_of s)" "c = ?f q" by (auto simp: s')
    have "rewards s' = rewards s @ [r]" by (simp add: s')
    with rows [OF q(1)] q(2) show "rb_totalPoints c = subject_sum rd_points (rewards s') (rb_organizationId c) (rb_userId c)"
      "rb_lifetimeCreditMinor c = subject_sum rd_creditAmountMinor (rewards s') (rb_organizationId c) (rb_userId c)"
      "rb_totalPoints c \<le> MAX_TOTAL_POINTS" "rb_lifetimeCreditMinor c \<le> MAX_AMOUNT_MINOR" by simp_all
  qed
qed

section \<open>Grants keep the invariant\<close>

lemma rewards_ok_ensured: "rewards_ok s \<Longrightarrow> rewards_ok (ensured org user s)"
  using ensured_balances [of s org user] by (simp add: rewards_ok_def rules_wf_def capped_def)

lemma rewards_ok_award:
  assumes ok: "rewards_ok s" and w: "w \<in> set (rewardRules s)" "same_reward_terms w rule"
    and plain: "plain_year (gi_occurredAt input)"
    and ev: "evaluate rule (gi_payload input) (gi_occurredAt input) (granted_before s rule input) = Inr d"
    and b: "find (of_subject (gi_organizationId input) (gi_userId input)) (balances_of s) = Some balance"
    and aw: "award rt rule input balance d s = Inr (outcome, s')"
  shows "rewards_ok s'"
proof -
  from award_Inr [OF aw] obtain rewardId journalId grantedAt level where
    s': "s' = s\<lparr>rewards := rewards s @ [reward_row rule input d rewardId journalId grantedAt],
        balances_of := map (added (gi_organizationId input) (gi_userId input) (rb_totalPoints balance + de_points d) level
          (de_creditAmountMinor d)) (balances_of s), books := books s'\<rparr>"
    and bounds: "rb_totalPoints balance + de_points d \<le> MAX_TOTAL_POINTS"
      "isStorableMinor (rb_lifetimeCreditMinor balance + de_creditAmountMinor d)" "0 < de_points d"
    and new: "\<forall>q\<in>set (rewards s). \<not> (rd_ruleId q = rw_id rule \<and> rd_sourceReference q = gi_sourceReference input)" by blast
  let ?r = "reward_row rule input d rewardId journalId grantedAt"
  note e = evaluate_Inr [OF ev]
  have wf: "rules_wf s" "capped s" "balances_wf s" "\<forall>r\<in>set (rewards s). reward_wf (rewardRules s) r"
    "distinct (map (\<lambda>r. (rd_ruleId r, rd_sourceReference r)) (rewards s))" using ok by (simp_all add: rewards_ok_def)
  have "de_points d \<le> rw_points rule" using e by (auto split: option.splits)
  then have "reward_wf (rewardRules s) ?r"
  proof -
    have t: "rw_id w = rw_id rule" "rw_points w = rw_points rule" "rw_creditPerPointMinor w = rw_creditPerPointMinor rule"
      "rw_periodType w = rw_periodType rule" using w(2) by (simp_all add: same_reward_terms_def)
    have row: "rd_ruleId ?r = rw_id rule" "rd_points ?r = de_points d" "rd_creditAmountMinor ?r = de_creditAmountMinor d"
      "rd_occurredAt ?r = Some (gi_occurredAt input)" "rd_periodKey ?r = de_periodKey d" by (simp_all add: reward_row_def)
    have v: "de_creditAmountMinor d = (case rw_creditPerPointMinor w of None \<Rightarrow> 0 | Some rate \<Rightarrow> de_points d * rate)"
      "de_periodKey d = periodKeyFor (rw_periodType w) (gi_occurredAt input)" unfolding t using e by blast+
    show ?thesis if "de_points d \<le> rw_points rule"
      unfolding reward_wf_def row using w(1) t(1,2) v plain bounds(3) that by (intro bexI [of _ w]) simp_all
  qed
  moreover have "rules_wf s'" using wf(1) s' unfolding rules_wf_def by (metis only_rows)
  moreover have "capped s'" by (rule capped_award [OF wf(1,2) w plain ev s'])
  moreover have "balances_wf s'"
    by (rule award_balances [OF wf(3) b, of ?r, where level = level and bk = "books s'"])
       (use bounds s' in \<open>simp_all add: reward_row_def\<close>)
  moreover have rows: "rewards s' = rewards s @ [?r]" "rewardRules s' = rewardRules s" using s' only_rows by blast+
  moreover have "distinct (map (\<lambda>r. (rd_ruleId r, rd_sourceReference r)) (rewards s'))"
    using wf(5) new by (auto simp: rows reward_row_def)
  ultimately show ?thesis using wf(4) by (simp add: rewards_ok_def)
qed

end
