(* ===== verification/Reward_Runs.thy ===== *)
theory Reward_Runs
  imports Reward_Laws
begin

text \<open>
  Grants and the books of the service: what a grant leaves, how it ends, that it keeps the invariants.
\<close>

section \<open>The books\<close>

lemma keeps_resolve_wallet: "keeps service_ok (resolveCounterpartyWallet rt org cur)"
proof (rule keeps_service)
  fix I :: "db \<Rightarrow> bool" assume "I \<in> {txns_ok, streams_ok, rules_ok, books_ok}"
  moreover have "keeps books_ok (resolveCounterpartyWallet rt org cur)"
    by (rule keepsI) (auto dest: resolveCounterpartyWallet_Inr)
  ultimately show "keeps I (resolveCounterpartyWallet rt org cur)" by (auto intro: keeps_rules intro!: keeps_rules_unchanged unchanged_rules)
qed (rule keeps_settled_others)

lemma bal_at_ticks [simp]: "bal_at (s\<lparr>ticks := n\<rparr>) k = bal_at s k"
  by (rule bal_at_cong) (simp add: ledger_part_def)

lemma credit_reward_Inr:
  assumes ok: "service_ok s" and c: "credit_reward rt org rewardId ev amount s = Inr (j, s')"
  shows "service_ok s' \<and> 0 < amount \<and>
    (\<forall>k. bal_at s' k = bal_at s k + (if k = (org, WALLET, ''IRR'') then amount else 0) -
       (if k = (ECONOMIC_PLATFORM_ORGANIZATION_ID rt, REWARD_EXPENSE, ''IRR'') then amount else 0))"
proof -
  from c obtain w s1 b where w: "resolveCounterpartyWallet rt org ''IRR'' s = Inr (w, s1)"
    and cr: "credit rt w amount REWARD_EXPENSE REWARD_GRANT (''Reward '' @ rewardId @ '' for '' @ ev) None SERVICE_NAME s1 = Inr ((j, b), s')"
    by (auto simp: credit_reward_def bindM_Inr returnM_def simp del: append.simps)
  have ok1: "service_ok s1" by (rule keepsD [OF keeps_resolve_wallet ok w])
  have "books_ok s" "books_ok s1" using ok ok1 by (simp_all add: service_ok_def)
  note r = resolveCounterpartyWallet_Inr [OF this(1) w]
  have cp: "isPlatformPurpose REWARD_EXPENSE" by (simp add: isPlatformPurpose_def TENANT_OWNED_def)
  have mem: "w \<in> set (wallets s1)" and key: "w_organizationId w = org" "w_currency w = ''IRR''"
    using r by (simp_all add: wallet_key_def)
  from keeps_service_credit [OF ok1 mem cp cr] credit_Inr [OF \<open>books_ok s1\<close> mem cp cr] r key show ?thesis by simp
qed

lemma service_paid:
  assumes ok: "service_ok b" and p: "paid rt input d rewardId journalId b b'"
  shows "service_ok b' \<and> (\<forall>k. bal_at b' k = bal_at b k +
      (if de_monetised d \<and> k = (gi_organizationId input, WALLET, ''IRR'') then de_creditAmountMinor d else 0) -
      (if de_monetised d \<and> k = (ECONOMIC_PLATFORM_ORGANIZATION_ID rt, REWARD_EXPENSE, ''IRR'') then de_creditAmountMinor d else 0))"
proof (cases "de_monetised d")
  case True
  with p obtain j n where c: "credit_reward rt (gi_organizationId input) rewardId (gi_triggerEvent input) (de_creditAmountMinor d)
      (b\<lparr>ticks := n\<rparr>) = Inr (j, b')" by (auto simp: paid_def)
  have t: "service_ok (b\<lparr>ticks := n\<rparr>)" using ok tickless_service unfolding tickless_def by blast
  from credit_reward_Inr [OF t c] True show ?thesis by simp
next
  case False
  with p obtain n where "b' = b\<lparr>ticks := n\<rparr>" by (auto simp: paid_def)
  with False ok tickless_service show ?thesis unfolding tickless_def by simp
qed


lemma service_enqueue:
  assumes "service_ok b" and "enqueue rt aid org p c b = Inr (u, b')"
  shows "service_ok b' \<and> (\<forall>k. bal_at b' k = bal_at b k)"
proof -
  have "ledger_part b' = ledger_part b" using unchangedD [OF unchanged_enqueue [of ledger_part] assms(2)] by simp
  then have "bal_at b' k = bal_at b k" for k by (rule bal_at_cong)
  then show ?thesis using keepsD [OF keeps_service_enqueue assms(1,2)] by blast
qed

section \<open>What one grant does\<close>

text \<open>The money of a decision.\<close>

definition moves_reward :: "'a reward_runtime_scheme \<Rightarrow> string \<Rightarrow> int \<Rightarrow> db \<Rightarrow> db \<Rightarrow> bool" where
  "moves_reward rt org amount b b' \<longleftrightarrow>
     (\<forall>k. bal_at b' k = bal_at b k + (if k = (org, WALLET, ''IRR'') then amount else 0) -
       (if k = (ECONOMIC_PLATFORM_ORGANIZATION_ID rt, REWARD_EXPENSE, ''IRR'') then amount else 0))"

lemma award_books:
  assumes ok: "service_ok (books s)" and nn: "de_monetised d = (de_creditAmountMinor d > 0)" "0 \<le> de_creditAmountMinor d"
    and aw: "award rt rule input balance d s = Inr (outcome, s')"
  shows "service_ok (books s') \<and> moves_reward rt (gi_organizationId input) (de_creditAmountMinor d) (books s) (books s')"
proof -
  from award_Inr [OF aw] obtain rewardId journalId b1 b2 p u where
    pd: "paid rt input d rewardId journalId (books s) b1"
    and l: "b2 = b1 \<or> (\<exists>aid p u. enqueue rt aid (gi_organizationId input) p None b1 = Inr (u, b2))"
    and e: "enqueue rt rewardId (gi_organizationId input) p None b2 = Inr (u, books s')" by blast
  note one = service_paid [OF ok pd]
  have two: "service_ok b2 \<and> (\<forall>k. bal_at b2 k = bal_at b1 k)"
    using l one service_enqueue by blast
  note three = service_enqueue [OF conjunct1 [OF two] e]
  show ?thesis
  proof (cases "de_monetised d")
    case True
    with one two three show ?thesis by (simp add: moves_reward_def)
  next
    case False
    with nn have "de_creditAmountMinor d = 0" by simp
    with False one two three show ?thesis by (simp add: moves_reward_def)
  qed
qed

lemma rate_pos: "reward_rule_row_ok w \<Longrightarrow> rw_creditPerPointMinor w = Some c \<Longrightarrow> 0 < c"
  by (simp add: reward_rule_row_ok_def)

lemma decision_value:
  assumes "evaluate rule payload t already = Inr d" and w: "w \<in> set (rewardRules s)" "same_reward_terms w rule" and "rules_wf s"
    and "0 < de_points d"
  shows "de_monetised d = (de_creditAmountMinor d > 0)" "0 \<le> de_creditAmountMinor d"
proof -
  show "de_monetised d = (de_creditAmountMinor d > 0)" using evaluate_Inr [OF assms(1)] by blast
  have "reward_rule_row_ok w" using w(1) assms(4) by (simp add: rules_wf_def)
  moreover have "rw_creditPerPointMinor w = rw_creditPerPointMinor rule" using w(2) by (simp add: same_reward_terms_def)
  ultimately have "case rw_creditPerPointMinor rule of None \<Rightarrow> True | Some c \<Rightarrow> 0 < c"
    using rate_pos by (auto split: option.splits)
  then show "0 \<le> de_creditAmountMinor d"
    using evaluate_Inr [OF assms(1)] assms(5) by (auto split: option.splits)
qed

text \<open>How a grant ends: nothing but an empty balance row, or the award of a decision.\<close>

lemma grantOne_cases:
  assumes "grantOne rt rule input s = (answer, s')"
  obtains (error) e where "answer = Inl e" "s' = s"
  | (duplicate) "answer = Inr (SKIPPED ''duplicate'' (rw_id rule))" "s' = s"
  | (skipped) reason where "answer = Inr (SKIPPED reason (rw_id rule))"
      "s' = ensured (gi_organizationId input) (gi_userId input) s"
  | (granted) d balance outcome where "answer = Inr outcome"
      "evaluate rule (gi_payload input) (gi_occurredAt input) (granted_before s rule input) = Inr d"
      "find (of_subject (gi_organizationId input) (gi_userId input)) (balances_of (ensured (gi_organizationId input) (gi_userId input) s)) = Some balance"
      "award rt rule input balance d (ensured (gi_organizationId input) (gi_userId input) s) = Inr (outcome, s')"
      "commit_ok (books s')"
proof (cases "rewardTransaction (grant_body rt rule input) s")
  case (Inl e)
  with assms show ?thesis
    by (cases e) (auto simp: grantOne_def atomically_def split: if_splits intro: error duplicate)
next
  case (Inr p)
  then obtain outcome t where o: "rewardTransaction (grant_body rt rule input) s = Inr (outcome, t)" by (cases p) simp
  with assms have a: "answer = Inr outcome" "s' = t" by (simp_all add: grantOne_def atomically_def)
  from o have b: "grant_body rt rule input s = Inr (outcome, t)" "commit_ok (books t)" by (simp_all add: rewardTransaction_Inr)
  from grant_body_Inr [OF b(1)] show ?thesis
    using a b(2) skipped granted by blast
qed

lemma grantOne_keeps:
  assumes ok: "rewards_ok s" "service_ok (books s)" and w: "w \<in> set (rewardRules s)" "same_reward_terms w rule"
    and plain: "plain_year (gi_occurredAt input)" and g: "grantOne rt rule input s = (answer, s')"
  shows "rewards_ok s' \<and> service_ok (books s')"
  using g
proof (cases rule: grantOne_cases)
  case (granted d balance outcome)
  let ?s = "ensured (gi_organizationId input) (gi_userId input) s"
  have w': "w \<in> set (rewardRules ?s)" using w(1) by simp
  have ev: "evaluate rule (gi_payload input) (gi_occurredAt input) (granted_before ?s rule input) = Inr d"
    using granted(2) by (simp add: granted_before_def)
  have "rules_wf s" using ok(1) by (simp add: rewards_ok_def)
  moreover have "0 < de_points d" using award_Inr [OF granted(4)] by blast
  ultimately have v: "de_monetised d = (de_creditAmountMinor d > 0)" "0 \<le> de_creditAmountMinor d"
    using decision_value [OF granted(2) w] by blast+
  have "service_ok (books ?s)" using ok(2) by simp
  from award_books [OF this v granted(4)] rewards_ok_award [OF rewards_ok_ensured [OF ok(1)] w' w(2) plain ev granted(3,4)]
  show ?thesis by blast
qed (use ok rewards_ok_ensured in auto)

end
