(* ===== verification/Reward_Changes.thy ===== *)
theory Reward_Changes
  imports Reward_Runs
begin

text \<open>
  Changes of rules: what creating and updating a rule writes, and that a rule's terms never change.
\<close>

section \<open>Changes of rules\<close>

text \<open>An answer is written beside these tables.\<close>

definition leaves :: "('a \<Rightarrow> unit reward_tx) \<Rightarrow> bool" where
  "leaves answer \<longleftrightarrow> (\<forall>x s u s'. answer x s = Inr (u, s') \<longrightarrow> s' = s)"

definition announced :: "'a reward_runtime_scheme \<Rightarrow> db \<Rightarrow> db \<Rightarrow> bool" where
  "announced rt b b' \<longleftrightarrow> (\<exists>n aid org p u. enqueue rt aid org p None (b\<lparr>ticks := n\<rparr>) = Inr (u, b'))"

lemma announced_service: "announced rt b b' \<Longrightarrow> service_ok b \<Longrightarrow> service_ok b'"
  using tickless_service service_enqueue unfolding announced_def tickless_def by blast

lemma recordRewardRuleChange_Inr:
  assumes "recordRewardRuleChange rt rule earlier actor s = Inr (u, s')" and "books s = b\<lparr>ticks := n\<rparr>"
  shows "s' = s\<lparr>books := books s'\<rparr> \<and> announced rt b (books s')"
  using assms by (auto simp: recordRewardRuleChange_def bindM_Inr liftM_Inr onBooks_Inr announced_def) blast

lemma store_reward_rule_Inr:
  assumes c: "store_reward_rule rt created answer s = Inr (r, s')" and "leaves answer" and n: "books s = b\<lparr>ticks := n\<rparr>"
  shows "r = created \<and> (\<exists>sh. s' = s\<lparr>rewardRules := rewardRules s @ [r], statusHistory := sh, books := books s'\<rparr>) \<and>
    reward_rule_row_ok r \<and> rw_id r \<notin> rw_id ` set (rewardRules s) \<and> announced rt b (books s')"
proof -
  from c obtain sh s1 where ok: "r = created" "reward_rule_row_ok r" "rw_id r \<notin> rw_id ` set (rewardRules s)"
    and rec: "recordRewardRuleChange rt r None (rw_updatedBy r) (s\<lparr>rewardRules := rewardRules s @ [r], statusHistory := sh\<rparr>) = Inr ((), s1)"
    and ans: "answer r s1 = Inr ((), s')"
    by (auto simp: store_reward_rule_def action_Inr insert_status_def)
  from ans \<open>leaves answer\<close> have "s1 = s'" by (auto simp: leaves_def)
  with recordRewardRuleChange_Inr [OF rec, of n b] ok n show ?thesis by (auto intro!: exI [of _ sh])
qed

definition clocked :: "reward_db \<Rightarrow> reward_db \<Rightarrow> bool" where
  "clocked s s' \<longleftrightarrow> (\<exists>n. s' = s\<lparr>books := (books s)\<lparr>ticks := n\<rparr>\<rparr>)"

lemma clocked_trans: "clocked s t \<Longrightarrow> clocked t u \<Longrightarrow> clocked s u"
  by (auto simp: clocked_def)

lemma clocked_sources:
  "onBooks (prefixed_ulid rt p) s = Inr (i, s') \<Longrightarrow> clocked s s'"
  "onBooks (hostDate rt) s = Inr (t, s') \<Longrightarrow> clocked s s'"
  "onBooks (databaseNow rt) s = Inr (t, s') \<Longrightarrow> clocked s s'"
  "(case v of Some d \<Rightarrow> returnM d | None \<Rightarrow> onBooks (hostDate rt)) s = Inr (t, s') \<Longrightarrow> clocked s s'"
proof -
  show "onBooks (prefixed_ulid rt p) s = Inr (i, s') \<Longrightarrow> clocked s s'" "onBooks (databaseNow rt) s = Inr (t, s') \<Longrightarrow> clocked s s'"
    by (auto simp: clocked_def onBooks_Inr source_Inr)
  show h: "onBooks (hostDate rt) s = Inr (t, s') \<Longrightarrow> clocked s s'" by (auto simp: clocked_def onBooks_Inr source_Inr)
  have "clocked s s" by (auto simp: clocked_def intro!: exI [of _ "ticks (books s)"])
  then show "(case v of Some d \<Rightarrow> returnM d | None \<Rightarrow> onBooks (hostDate rt)) s = Inr (t, s') \<Longrightarrow> clocked s s'"
    using h by (cases v) auto
qed

lemma createRewardRule_Inr:
  assumes c: "createRewardRule rt dto answer s = Inr (r, s')" and l: "leaves answer"
  shows "\<exists>sh. s' = s\<lparr>rewardRules := rewardRules s @ [r], statusHistory := sh, books := books s'\<rparr> \<and>
    reward_rule_row_ok r \<and> rw_id r \<notin> rw_id ` set (rewardRules s) \<and> announced rt (books s) (books s')"
proof -
  from c obtain i s1 validFrom s2 createdAt s3 updatedAt s4 created where
    src: "onBooks (prefixed_ulid rt ''RWR'') s = Inr (i, s1)"
      "(case cw_validFrom dto of Some d \<Rightarrow> returnM d | None \<Rightarrow> onBooks (hostDate rt)) s1 = Inr (validFrom, s2)"
      "onBooks (databaseNow rt) s2 = Inr (createdAt, s3)" "onBooks (hostDate rt) s3 = Inr (updatedAt, s4)"
    and st: "store_reward_rule rt created answer s4 = Inr (r, s')"
    unfolding createRewardRule_def Let_def bindM_Inr thenM_Inr assertM_Inr liftM_Inr rewardTransaction_Inr by blast
  have "clocked s s4" using src(1) [THEN clocked_sources(1)] src(2) [THEN clocked_sources(4)] src(3) [THEN clocked_sources(3)]
      src(4) [THEN clocked_sources(2)] clocked_trans by blast
  then obtain n where s4: "s4 = s\<lparr>books := (books s)\<lparr>ticks := n\<rparr>\<rparr>" by (auto simp: clocked_def)
  from store_reward_rule_Inr [OF st l, of n "books s"] s4 show ?thesis by auto
qed

lemma store_rule_change_Inr:
  assumes c: "store_rule_change rt w v s = Inr (r, s')" and n: "books s = b\<lparr>ticks := n\<rparr>"
  shows "r = v \<and> (\<exists>sh. s' = s\<lparr>rewardRules := map (\<lambda>x. if rw_id x = rw_id w then r else x) (rewardRules s), statusHistory := sh,
      books := books s'\<rparr>) \<and> reward_rule_row_ok r \<and> announced rt b (books s')"
proof -
  let ?s1 = "s\<lparr>rewardRules := map (\<lambda>x. if rw_id x = rw_id w then v else x) (rewardRules s)\<rparr>"
  from c obtain s2 where ok: "r = v" "reward_rule_row_ok r"
    and st: "(if rw_status v \<noteq> rw_status w then insert_status (rw_id w) (rw_status v) (rw_updatedAt v) else returnM ()) ?s1 = Inr ((), s2)"
    and rec: "recordRewardRuleChange rt v (Some w) (rw_updatedBy v) s2 = Inr ((), s')"
    unfolding store_rule_change_def action_Inr by auto
  from st obtain sh where s2: "s2 = ?s1\<lparr>statusHistory := sh\<rparr>"
    by (cases s) (auto simp: insert_status_def returnM_def split: if_splits)
  with n have "books s2 = b\<lparr>ticks := n\<rparr>" by simp
  from recordRewardRuleChange_Inr [OF rec this] ok show ?thesis unfolding s2 by (auto intro!: exI [of _ sh])
qed

lemma updateRewardRule_Inr:
  assumes u: "updateRewardRule rt i dto s = Inr (r, s')"
  shows "\<exists>sh w. s' = s\<lparr>rewardRules := map (\<lambda>v. if rw_id v = i then r else v) (rewardRules s), statusHistory := sh, books := books s'\<rparr> \<and>
    w \<in> set (rewardRules s) \<and> rw_id w = i \<and> same_reward_terms w r \<and> reward_rule_row_ok r \<and> announced rt (books s) (books s')"
proof -
  from u obtain w where f: "find (\<lambda>r. rw_id r = i) (rewardRules s) = Some w"
    by (cases "find (\<lambda>r. rw_id r = i) (rewardRules s)") (simp_all add: updateRewardRule_def Let_def rewardTransaction_Inr bindM_Inr)
  then have w: "w \<in> set (rewardRules s)" "rw_id w = i" by (auto dest: find_SomeD)
  let ?s1 = "s\<lparr>books := (books s)\<lparr>ticks := Suc (ticks (books s))\<rparr>\<rparr>"
  let ?c = "clock_timestamp rt (ticks (books s))"
  from u f obtain vt where st: "store_rule_change rt w (changed_rule w dto vt ?c (actor_name rt)) ?s1 = Inr (r, s')"
    by (cases "uw_validTo dto") (auto simp: updateRewardRule_def Let_def rewardTransaction_Inr bindM_Inr onBooks_Inr databaseNow_Inr liftM_Inr)
  from store_rule_change_Inr [OF st, of "Suc (ticks (books s))" "books s"] w show ?thesis
    by (auto simp: same_reward_terms_def changed_rule_def)
qed

end
