(* ===== verification/Reward_Life.thy ===== *)
theory Reward_Life
  imports Reward_Changes
begin

text \<open>
  Rewards in the life of the service: every step keeps the invariant; the reachable states of a run of grants, changes of
  rules, evaluations and the other operations, in any order; a fact's grants as a sequence of steps.
\<close>

section \<open>Changes of rules keep the invariant\<close>

lemma only_rules:
  "s' = s\<lparr>rewardRules := ws, statusHistory := sh, books := b\<rparr> \<Longrightarrow> rewardRules s' = ws \<and> rewards s' = rewards s \<and>
     balances_of s' = balances_of s \<and> sourceEvaluations s' = sourceEvaluations s"
  by simp

lemma balances_wf_cong: "rewards s' = rewards s \<Longrightarrow> balances_of s' = balances_of s \<Longrightarrow> balances_wf s' = balances_wf s"
  unfolding balances_wf_def by (simp only:)

lemma rewards_ok_cong:
  "rewards s' = rewards s \<Longrightarrow> balances_of s' = balances_of s \<Longrightarrow> rewardRules s' = rewardRules s \<Longrightarrow>
   window_points s' = window_points s \<Longrightarrow> rewards_ok s' = rewards_ok s"
  unfolding rewards_ok_def rules_wf_def capped_def using balances_wf_cong [of s' s] by (simp only:)

lemma reward_wf_mono:
  assumes "reward_wf ws r" and "\<And>w. w \<in> set ws \<Longrightarrow> \<exists>v\<in>set ws'. same_reward_terms w v"
  shows "reward_wf ws' r"
proof -
  from assms(1) obtain w where w: "w \<in> set ws" "rw_id w = rd_ruleId r" "0 < rd_points r" "rd_points r \<le> rw_points w"
    "rd_creditAmountMinor r = (case rw_creditPerPointMinor w of None \<Rightarrow> 0 | Some rate \<Rightarrow> rd_points r * rate)"
    "\<exists>t. rd_occurredAt r = Some t \<and> plain_year t \<and> rd_periodKey r = periodKeyFor (rw_periodType w) t" by (auto simp: reward_wf_def)
  from assms(2) [OF w(1)] obtain v where v: "v \<in> set ws'" "same_reward_terms w v" by blast
  show ?thesis unfolding reward_wf_def by (rule bexI [OF _ v(1)]) (use v(2) w in \<open>simp add: same_reward_terms_def\<close>)
qed

lemma same_terms_refl [simp]: "same_reward_terms w w"
  by (simp add: same_reward_terms_def)

lemma cap_pos: "reward_rule_row_ok w \<Longrightarrow> rw_periodCap w = Some c \<Longrightarrow> 0 < c"
  by (cases "rw_periodType w") (simp_all add: reward_rule_row_ok_def)

text \<open>Rules that keep their terms, and new ones under identities of their own.\<close>

lemma rewards_ok_rules:
  assumes ok: "rewards_ok s" and s': "rewards s' = rewards s" "balances_of s' = balances_of s" "sourceEvaluations s' = sourceEvaluations s"
    and wf: "rules_wf s'" and old: "\<And>w. w \<in> set (rewardRules s) \<Longrightarrow> \<exists>v\<in>set (rewardRules s'). same_reward_terms w v"
    and new: "\<And>v. v \<in> set (rewardRules s') \<Longrightarrow> (\<exists>w\<in>set (rewardRules s). same_reward_terms w v) \<or> rw_id v \<notin> rw_id ` set (rewardRules s)"
  shows "rewards_ok s'"
proof -
  have win: "window_points s' = window_points s" by (simp add: window_points_def fun_eq_iff s')
  have "capped s'"
    unfolding capped_def
  proof (intro ballI allI impI)
    fix v cap org user t assume v: "v \<in> set (rewardRules s')" "rw_periodCap v = Some cap" and t: "plain_year t"
    from new [OF v(1)] consider (kept) w where "w \<in> set (rewardRules s)" "same_reward_terms w v"
      | (fresh) "rw_id v \<notin> rw_id ` set (rewardRules s)" by blast
    then show "window_points s' org user (rw_id v) (rw_periodType v) t \<le> cap"
    proof cases
      case kept
      then have e: "rw_id v = rw_id w" "rw_periodType v = rw_periodType w" "rw_periodCap w = Some cap"
        using v(2) by (simp_all add: same_reward_terms_def)
      have "window_points s org user (rw_id w) (rw_periodType w) t \<le> cap"
        using ok kept(1) e(3) t by (simp add: rewards_ok_def capped_def)
      with e show ?thesis by (simp add: win)
    next
      case fresh
      have "rd_ruleId r \<noteq> rw_id v" if "r \<in> set (rewards s)" for r
        using ok that fresh unfolding rewards_ok_def reward_wf_def by (metis image_eqI)
      then have "window_points s org user (rw_id v) (rw_periodType v) t = 0" by (auto simp: window_points_def filter_empty_conv)
      moreover have "0 < cap" using cap_pos [of v cap] wf v by (simp add: rules_wf_def)
      ultimately show ?thesis by (simp add: win)
    qed
  qed
  moreover have "balances_wf s'" using ok balances_wf_cong [OF s'(1,2)] by (simp add: rewards_ok_def)
  moreover have "\<forall>r\<in>set (rewards s'). reward_wf (rewardRules s') r"
    using ok old reward_wf_mono [of "rewardRules s" _ "rewardRules s'"] by (simp add: rewards_ok_def s')
  ultimately show ?thesis using ok wf by (simp add: rewards_ok_def s')
qed

lemma createRewardRule_keeps:
  assumes ok: "rewards_ok s" "service_ok (books s)" and c: "createRewardRule rt dto answer s = Inr (r, s')" and l: "leaves answer"
  shows "rewards_ok s' \<and> service_ok (books s')"
proof -
  from createRewardRule_Inr [OF c l] obtain sh where
    s': "s' = s\<lparr>rewardRules := rewardRules s @ [r], statusHistory := sh, books := books s'\<rparr>"
    and r: "reward_rule_row_ok r" "rw_id r \<notin> rw_id ` set (rewardRules s)" and an: "announced rt (books s) (books s')" by blast
  from s' have t: "rewardRules s' = rewardRules s @ [r]" "rewards s' = rewards s" "balances_of s' = balances_of s"
    "sourceEvaluations s' = sourceEvaluations s"
    using only_rules [OF s'] by blast+
  have "rules_wf s'" using ok(1) r by (auto simp: rules_wf_def rewards_ok_def t)
  then have "rewards_ok s'"
  proof (rule rewards_ok_rules [OF ok(1) t(2-4)])
    show "\<exists>v\<in>set (rewardRules s'). same_reward_terms w v" if "w \<in> set (rewardRules s)" for w
      by (rule bexI [of _ w]) (use that t(1) in simp_all)
    show "(\<exists>w\<in>set (rewardRules s). same_reward_terms w v) \<or> rw_id v \<notin> rw_id ` set (rewardRules s)"
      if "v \<in> set (rewardRules s')" for v
    proof (cases "v = r")
      case True
      with r(2) show ?thesis by simp
    next
      case False
      with that t(1) have "v \<in> set (rewardRules s)" by simp
      with same_terms_refl [of v] show ?thesis by blast
    qed
  qed
  with announced_service [OF an ok(2)] show ?thesis by blast
qed

lemma updateRewardRule_keeps:
  assumes ok: "rewards_ok s" "service_ok (books s)" and u: "updateRewardRule rt i dto s = Inr (r, s')"
  shows "rewards_ok s' \<and> service_ok (books s')"
proof -
  from updateRewardRule_Inr [OF u] obtain sh w where
    s': "s' = s\<lparr>rewardRules := map (\<lambda>v. if rw_id v = i then r else v) (rewardRules s), statusHistory := sh, books := books s'\<rparr>"
    and w: "w \<in> set (rewardRules s)" "rw_id w = i" "same_reward_terms w r" "reward_rule_row_ok r" and an: "announced rt (books s) (books s')" by blast
  from s' have t: "rewardRules s' = map (\<lambda>v. if rw_id v = i then r else v) (rewardRules s)" "rewards s' = rewards s"
    "balances_of s' = balances_of s" "sourceEvaluations s' = sourceEvaluations s"
    using only_rules [OF s'] by blast+
  have d: "distinct (map rw_id (rewardRules s))" "\<forall>v\<in>set (rewardRules s). reward_rule_row_ok v"
    using ok(1) by (simp_all add: rewards_ok_def rules_wf_def)
  have "rw_id r = i" using w by (simp add: same_reward_terms_def)
  then have ids: "map rw_id (rewardRules s') = map rw_id (rewardRules s)" by (simp add: t)
  have wf: "rules_wf s'" using d w(4) by (auto simp: rules_wf_def ids) (auto simp: t)
  have only: "v = w" if "v \<in> set (rewardRules s)" "rw_id v = i" for v using d(1) w(1,2) that by (auto dest: distinct_map_eq)
  have "rewards_ok s'"
  proof (rule rewards_ok_rules [OF ok(1) t(2-4) wf])
    fix v assume v: "v \<in> set (rewardRules s)"
    let ?x = "if rw_id v = i then r else v"
    have "?x \<in> set (rewardRules s')" using v unfolding t(1) set_map by (rule rev_image_eqI) (rule refl)
    moreover have "same_reward_terms v ?x"
    proof (cases "rw_id v = i")
      case True
      from only [OF v True] w(3) True show ?thesis by simp
    qed simp
    ultimately show "\<exists>x\<in>set (rewardRules s'). same_reward_terms v x" by (rule rev_bexI)
  next
    fix x assume "x \<in> set (rewardRules s')"
    then have "x = r \<or> x \<in> set (rewardRules s)" unfolding t(1) by (auto split: if_splits)
    then show "(\<exists>v\<in>set (rewardRules s). same_reward_terms v x) \<or> rw_id x \<notin> rw_id ` set (rewardRules s)"
      using w same_terms_refl [of x] by blast
  qed
  with announced_service [OF an ok(2)] show ?thesis by blast
qed

section \<open>Reachable states\<close>

lemma grantOne_rules:
  assumes "grantOne rt rule input s = (answer, s')"
  shows "rewardRules s' = rewardRules s"
  using assms
proof (cases rule: grantOne_cases)
  case (granted d balance outcome)
  let ?s = "ensured (gi_organizationId input) (gi_userId input) s"
  from award_Inr [OF granted(4)] obtain rs bs where "s' = ?s\<lparr>rewards := rs, balances_of := bs, books := books s'\<rparr>" by blast
  then have "rewardRules s' = rewardRules ?s" using only_rows by blast
  then show ?thesis by simp
qed simp_all

text \<open>
  One committed step. A grant runs with a rule read earlier, perhaps before its rows changed; the evaluations and the levels
  are written by other parts; the rest of the service goes on in the books.
\<close>

inductive reward_step :: "reward_db \<Rightarrow> reward_db \<Rightarrow> bool" where
  step_grant: "grantOne (rt :: reward_runtime) rule input s = (answer, s') \<Longrightarrow> w \<in> set (rewardRules s) \<Longrightarrow>
     same_reward_terms w rule \<Longrightarrow> plain_year (gi_occurredAt input) \<Longrightarrow> reward_step s s'"
| step_new_rule: "createRewardRule (rt :: reward_runtime) dto reply s = Inr (r, s') \<Longrightarrow> leaves reply \<Longrightarrow> reward_step s s'"
| step_rule_change: "updateRewardRule (rt :: reward_runtime) i change s = Inr (r, s') \<Longrightarrow> reward_step s s'"
| step_evaluations: "reward_step s (s\<lparr>sourceEvaluations := es\<rparr>)"
| step_levels: "reward_step s (s\<lparr>rewardLevels := ls\<rparr>)"
| step_books: "service_step (books s) b \<Longrightarrow> reward_step s (s\<lparr>books := b\<rparr>)"

definition empty_rewards :: "db \<Rightarrow> reward_db" where
  "empty_rewards b = \<lparr>books = b, rewardRules = [], statusHistory = [], rewards = [], balances_of = [], rewardLevels = [],
     sourceEvaluations = []\<rparr>"

inductive reward_reachable :: "reward_db \<Rightarrow> bool" where
  rewards_start: "reachable b \<Longrightarrow> reward_reachable (empty_rewards b)"
| rewards_step: "reward_reachable s \<Longrightarrow> reward_step s s' \<Longrightarrow> reward_reachable s'"

text \<open>No reward counts through an evaluation: every one has its own instant.\<close>

lemma window_points_evaluations:
  assumes "rewards_ok s"
  shows "window_points (s\<lparr>sourceEvaluations := es\<rparr>) = window_points s"
proof -
  have "counted es pt t r = counted (sourceEvaluations s) pt t r" if "r \<in> set (rewards s)" for r pt t
    using assms that by (auto simp: rewards_ok_def reward_wf_def counted_def in_week_def occurrence_def)
  then show ?thesis by (auto simp: window_points_def fun_eq_iff cong: filter_cong)
qed

lemma reward_step_keeps: "reward_step s s' \<Longrightarrow> rewards_ok s \<and> service_ok (books s) \<Longrightarrow> rewards_ok s' \<and> service_ok (books s')"
proof (induction rule: reward_step.induct)
  case (step_grant rt rule input s answer s' w)
  then show ?case using grantOne_keeps by blast
next
  case (step_new_rule rt dto reply s r s')
  then show ?case using createRewardRule_keeps by blast
next
  case (step_rule_change rt i change s r s')
  then show ?case using updateRewardRule_keeps by blast
next
  case (step_evaluations s es)
  have "rewards_ok (s\<lparr>sourceEvaluations := es\<rparr>)"
    using step_evaluations window_points_evaluations [of s es] by (subst rewards_ok_cong [where s = s]) simp_all
  with step_evaluations show ?case by simp
next
  case (step_levels s ls)
  have "rewards_ok (s\<lparr>rewardLevels := ls\<rparr>)"
    using step_levels by (subst rewards_ok_cong [where s = s]) (simp_all add: window_points_def fun_eq_iff)
  with step_levels show ?case by simp
next
  case (step_books s b)
  then have "service_ok b" using service_step_keeps by blast
  moreover have "rewards_ok (s\<lparr>books := b\<rparr>)"
    using step_books by (subst rewards_ok_cong [where s = s]) (simp_all add: window_points_def fun_eq_iff)
  ultimately show ?case by simp
qed

lemma reward_reachable_ok: "reward_reachable s \<Longrightarrow> rewards_ok s \<and> service_ok (books s)"
proof (induction rule: reward_reachable.induct)
  case (rewards_start b)
  then show ?case using reachable_service_ok
    by (simp add: empty_rewards_def rewards_ok_def rules_wf_def balances_wf_def capped_def)
next
  case (rewards_step s s')
  then show ?case using reward_step_keeps by blast
qed


lemma granted_rule:
  assumes "grantOne rt rule input s = (Inr (GRANTED i ruleId p m z l), s')"
  shows "ruleId = rw_id rule"
  using assms by (cases rule: grantOne_cases) (auto dest!: award_Inr)

section \<open>Granting for a fact\<close>

text \<open>All the rules of a fact: a sequence of steps, whichever of them fail.\<close>

lemma grant_each_steps:
  "grant_each (rt :: reward_runtime) input ws s = (r, s') \<Longrightarrow> set ws \<subseteq> set (rewardRules s) \<Longrightarrow>
     plain_year (gi_occurredAt input) \<Longrightarrow> reward_step\<^sup>*\<^sup>* s s'"
proof (induction ws arbitrary: s r)
  case (Cons w ws)
  obtain a s1 where g: "grantOne rt w input s = (a, s1)" by (cases "grantOne rt w input s")
  obtain r2 s2 where e: "grant_each rt input ws s1 = (r2, s2)" by (cases "grant_each rt input ws s1")
  have "s2 = s'" using Cons.prems(1) g e by (auto split: sum.splits prod.splits)
  moreover have "reward_step s s1" using Cons.prems(2,3) by (intro step_grant [OF g, of w]) simp_all
  moreover have "set ws \<subseteq> set (rewardRules s1)" using grantOne_rules [OF g] Cons.prems(2) by simp
  ultimately show ?case using Cons.IH [of s1 r2] e Cons.prems(3) by (blast intro: converse_rtranclp_into_rtranclp)
qed simp

lemma grantFor_steps:
  assumes g: "grantFor (rt :: reward_runtime) org user triggerEvent source occurredAt payload only s = (r, s')" and "plain_year occurredAt"
  shows "reward_step\<^sup>*\<^sup>* s s'"
proof -
  define views where "views = map (\<lambda>r. (r, historyAt (statusHistory s) (rw_id r) occurredAt))
     (filter (\<lambda>r. rw_triggerEvent r = triggerEvent \<and> (rw_organizationId r = None \<or> rw_organizationId r = Some org)) (rewardRules s))"
  define applicable where "applicable = (case only of None \<Rightarrow> applicableRules views org triggerEvent occurredAt
     | Some ids \<Rightarrow> filter (\<lambda>v. rw_id (fst v) \<in> set ids) views)"
  have sub: "set (map fst applicable) \<subseteq> set (rewardRules s)"
  proof -
    have "fst ` set views \<subseteq> set (rewardRules s)" by (auto simp: views_def)
    moreover have "set applicable \<subseteq> set views" by (cases only) (simp_all add: applicable_def applicableRules_def)
    ultimately show ?thesis by auto
  qed
  have c: "candidateRewardRules org triggerEvent occurredAt s = Inr (views, s)"
    by (simp add: candidateRewardRules_def views_def)
  show ?thesis
  proof (cases "user = None \<or> user = Some [] \<or> applicable = []")
    case True
    with g have "s' = s"
      by (cases user) (auto simp: grantFor_def bindR_def atomically_def c liftR_def Let_def applicable_def split: if_splits)
    then show ?thesis by simp
  next
    case False
    then obtain u where u: "user = Some u" "u \<noteq> []" "applicable \<noteq> []" by (cases user) auto
    let ?input = "\<lparr>gi_organizationId = org, gi_userId = u, gi_triggerEvent = triggerEvent, gi_sourceReference = source,
       gi_occurredAt = occurredAt, gi_payload = payload\<rparr>"
    obtain a s1 where e: "grant_each rt ?input (map fst applicable) s = (a, s1)" by (cases "grant_each rt ?input (map fst applicable) s")
    have "s' = s1"
      using g u e unfolding grantFor_def bindR_def atomically_def applicable_def
      by (simp add: c Let_def split: prod.splits)
    with grant_each_steps [OF e sub] assms(2) show ?thesis by simp
  qed
qed

end
