(* ===== verification/Reward_Scenario.thy ===== *)
theory Reward_Scenario
  imports Reward_Life Scenario
begin

text \<open>
  A run of grants: a rule with a monthly cap, and facts of one month. The kernel evaluates the model's definitions on it; the
  examples of the properties use its states.
\<close>

lemmas reward_run_code [code] =
  onBooks_def [THEN fun_cong] rewardTransaction_def [THEN fun_cong] ensureBalanceRow_def [THEN fun_cong]
  lockBalance_def [THEN fun_cong] pointsInPeriod_def [THEN fun_cong] insert_reward_def [THEN fun_cong]
  applyLevel_def [THEN fun_cong] credit_reward_def [THEN fun_cong] award_def [THEN fun_cong]
  grant_body_def [THEN fun_cong] candidateRewardRules_def [THEN fun_cong] recordRewardRuleChange_def [THEN fun_cong]
  insert_status_def [THEN fun_cong] store_reward_rule_def [THEN fun_cong] createRewardRule_def [THEN fun_cong]
  store_rule_change_def [THEN fun_cong] updateRewardRule_def [THEN fun_cong] grantFor_def [THEN fun_cong]

definition reward_rt :: reward_runtime where
  "reward_rt = \<lparr>correlationId = ''c'', organizationId = Some ''A'', userId = None, roles = [], authType = SERVICE,
     callerService = Some ''contract-service'', isUnscoped = False, ECONOMIC_PLATFORM_ORGANIZATION_ID = ''P'',
     ECONOMIC_SETTLEMENT_REQUIRE_COMMISSION_RULE = True, ECONOMIC_REFUND_BY_PAYEE_ENABLED = True,
     ulid = scenario_ulid, new_Date = int, clock_timestamp = int, gen_random_uuid = scenario_ulid,
     withinVersion = scenario_hierarchy, ECONOMIC_REWARD_CASHBACK_ENABLED = False\<rparr>"

definition monthly_rule :: create_reward_rule_dto where
  "monthly_rule = \<lparr>cw_organizationId = None, cw_triggerEvent = ''E'', cw_rewardType = None,
     cw_condition = Some (JObject [(''field'', JString ''hours''), (''op'', JString ''gte''), (''value'', JNumber ''8'')]),
     cw_points = 60, cw_creditPerPointMinor = Some ''5'', cw_periodCap = Some 100, cw_periodType = Some MONTH,
     cw_validFrom = Some 0, cw_validTo = None, cw_status = None, cw_label = None\<rparr>"

text \<open>Fact \<open>n\<close>: a day of eight and a half hours, in January 1970.\<close>

definition monthly_fact :: "string \<Rightarrow> int \<Rightarrow> grant_input" where
  "monthly_fact source day = \<lparr>gi_organizationId = ''A'', gi_userId = ''u'', gi_triggerEvent = ''E'', gi_sourceReference = source,
     gi_occurredAt = day * DAY_MS, gi_payload = (\<lambda>f. if f = ''hours'' then Some (JString ''8.50'') else None)\<rparr>"

definition reward_store_after :: "reward_db \<Rightarrow> failure + 'a \<times> reward_db \<Rightarrow> reward_db" where
  "reward_store_after s r = (case r of Inl e \<Rightarrow> s | Inr (x, s') \<Rightarrow> s')"

definition rewards_ruled :: reward_db where
  "rewards_ruled = (let s = empty_rewards (scenario_topped_up scenario_start) in
     reward_store_after s (createRewardRule reward_rt monthly_rule (\<lambda>r. returnM ()) s))"

definition granted_after :: "string \<Rightarrow> int \<Rightarrow> reward_db \<Rightarrow> (failure + grant_outcome) \<times> reward_db" where
  "granted_after source day s = grantOne reward_rt (hd (rewardRules s)) (monthly_fact source day) s"

definition rewards_granted :: reward_db where
  "rewards_granted = snd (granted_after ''b'' 1 (snd (granted_after ''a'' 0 rewards_ruled)))"

text \<open>The states of the run are reachable.\<close>

lemma rewards_ruled_eval: "length (rewardRules rewards_ruled) = 1"
  by code_simp

lemma reachable_ruled: "reward_reachable rewards_ruled"
proof -
  let ?s = "empty_rewards (scenario_topped_up scenario_start)"
  let ?r = "createRewardRule reward_rt monthly_rule (\<lambda>r. returnM ()) ?s"
  have s: "reward_reachable ?s" by (rule rewards_start [OF reachable_topped_up [OF reachable_scenario_start]])
  have l: "leaves (\<lambda>r :: reward_rule. returnM ())" by (simp add: leaves_def)
  have e: "rewards_ruled = reward_store_after ?s ?r" by (simp add: rewards_ruled_def Let_def)
  show ?thesis
  proof (cases ?r)
    case (Inl x)
    with s e show ?thesis by (simp add: reward_store_after_def)
  next
    case (Inr p)
    then obtain x s' where r: "?r = Inr (x, s')" by (cases p) simp
    with e have "rewards_ruled = s'" by (simp add: reward_store_after_def)
    with rewards_step [OF s step_new_rule [OF r l]] show ?thesis by simp
  qed
qed

lemma plain_days: "plain_year 0" "plain_year (1 * DAY_MS)" "plain_year (2 * DAY_MS)" "plain_year (5 * DAY_MS)"
  unfolding plain_year_def by code_simp+

lemma granted_after_rules: "length (rewardRules (snd (granted_after source day s))) = length (rewardRules s)"
proof -
  obtain a s' where g: "granted_after source day s = (a, s')" by (cases "granted_after source day s")
  show ?thesis using grantOne_rules [OF g [unfolded granted_after_def]] g by simp
qed

lemma granted_after_reachable:
  assumes s: "reward_reachable s" and r: "length (rewardRules s) = 1" and d: "plain_year (day * DAY_MS)"
  shows "reward_reachable (snd (granted_after source day s))"
proof -
  obtain a s' where g: "granted_after source day s = (a, s')" by (cases "granted_after source day s")
  have "hd (rewardRules s) \<in> set (rewardRules s)" using r by (cases "rewardRules s") simp_all
  moreover have "plain_year (gi_occurredAt (monthly_fact source day))" using d by (simp add: monthly_fact_def)
  ultimately have "reward_step s s'" by (rule step_grant [OF g [unfolded granted_after_def] _ same_terms_refl])
  with s g show ?thesis by (simp add: rewards_step)
qed

lemma reachable_granted: "reward_reachable rewards_granted"
  unfolding rewards_granted_def
  by (intro granted_after_reachable reachable_ruled)
     (use rewards_ruled_eval plain_days in \<open>simp_all add: granted_after_rules\<close>)

text \<open>What it shows: sixty points, then the forty the cap leaves.\<close>

lemma monthly_first:
  "let (a, s1) = granted_after ''a'' 0 rewards_ruled in
   (case a of Inl e \<Rightarrow> False | Inr g \<Rightarrow> (case g of GRANTED i r p m z l \<Rightarrow> p = 60 \<and> m = 300 | _ \<Rightarrow> False))"
  by code_simp

lemma monthly_second:
  "let s = rewards_granted in
   length (rewards s) = 2 \<and> length (rewardRules s) = 1 \<and> rw_periodCap (hd (rewardRules s)) = Some 100 \<and>
   window_points s ''A'' ''u'' (rw_id (hd (rewardRules s))) (rw_periodType (hd (rewardRules s))) (5 * DAY_MS) = 100 \<and>
   length (balances_of s) = 1 \<and> rb_totalPoints (hd (balances_of s)) = 100 \<and> rb_lifetimeCreditMinor (hd (balances_of s)) = 500"
  by code_simp

lemma monthly_rows:
  "let s = rewards_granted; r = hd (rewards s) in length (rewards s) = 2 \<and> rd_sourceReference r = ''a'' \<and>
     rd_ruleId r = rw_id (hd (rewardRules s)) \<and> rd_organizationId r = ''A'' \<and> rd_userId r = ''u'' \<and> rd_triggerEvent r = ''E''"
  by code_simp

end
