(* ===== verification/Reward_Promises.thy ===== *)
theory Reward_Promises
  imports Reward_Scenario
begin

text \<open>
  What rewards promise: a cap is never exceeded, a fact pays once per rule, a subject's balance is the sum of its rewards, and
  a grant pays its value, points and money, or nothing.
\<close>

text \<open>C24. A cap holds. In every reachable state, and whatever grants, changes of rules, late facts and retries led to it, the
  points a capped rule has given one subject in one window (day, week, month) are at most its cap.\<close>

theorem caps_hold:
  assumes "reward_reachable s" and "w \<in> set (rewardRules s)" and "rw_periodCap w = Some cap" and "plain_year t"
  shows "window_points s org user (rw_id w) (rw_periodType w) t \<le> cap"
  using reward_reachable_ok [OF assms(1)] assms(2-4) by (simp add: rewards_ok_def capped_def)

theorem caps_hold_witness:
  "\<exists>w. rewardRules rewards_granted = [w] \<and> window_points rewards_granted ''A'' ''u'' (rw_id w) (rw_periodType w) (5 * DAY_MS) = 100 \<and>
     window_points rewards_granted ''A'' ''u'' (rw_id w) (rw_periodType w) (5 * DAY_MS) \<le> 100"
proof -
  note f = monthly_second [unfolded Let_def]
  then obtain w where w: "rewardRules rewards_granted = [w]" by (cases "rewardRules rewards_granted") auto
  with caps_hold [OF reachable_granted, of w 100 "5 * DAY_MS"] f plain_days show ?thesis by simp
qed

text \<open>C27. Balances are the rewards. In every reachable state a subject has one balance row, its points and its lifetime credit
  are the sums over the subject's rewards, both within their columns, and each reward lies in its rule's terms: at
  most the rule's points, worth points times rate, counted in the window of its own instant.\<close>

theorem balances_are_the_rewards:
  assumes "reward_reachable s"
  shows "(\<forall>b\<in>set (balances_of s).
      rb_totalPoints b = sum_list (map rd_points (filter (\<lambda>r. of_subject (rd_organizationId r) (rd_userId r) b) (rewards s))) \<and>
      rb_lifetimeCreditMinor b =
        sum_list (map rd_creditAmountMinor (filter (\<lambda>r. of_subject (rd_organizationId r) (rd_userId r) b) (rewards s))) \<and>
      rb_totalPoints b \<le> MAX_TOTAL_POINTS \<and> rb_lifetimeCreditMinor b \<le> MAX_AMOUNT_MINOR) \<and>
    (\<forall>r\<in>set (rewards s). \<exists>!b. b \<in> set (balances_of s) \<and> of_subject (rd_organizationId r) (rd_userId r) b) \<and>
    (\<forall>r\<in>set (rewards s). \<exists>w\<in>set (rewardRules s). rw_id w = rd_ruleId r \<and> 0 < rd_points r \<and> rd_points r \<le> rw_points w \<and>
      rd_creditAmountMinor r = (case rw_creditPerPointMinor w of None \<Rightarrow> 0 | Some rate \<Rightarrow> rd_points r * rate) \<and>
      rd_periodKey r = periodKeyFor (rw_periodType w) (the (rd_occurredAt r)))"
proof -
  from reward_reachable_ok [OF assms] have ok: "balances_wf s" "\<forall>r\<in>set (rewards s). reward_wf (rewardRules s) r"
    by (simp_all add: rewards_ok_def)
  have f: "subject_sum g (rewards s) (rb_organizationId b) (rb_userId b) =
      sum_list (map g (filter (\<lambda>r. of_subject (rd_organizationId r) (rd_userId r) b) (rewards s)))" for g b
    unfolding subject_sum_def of_subject_def by (intro arg_cong [of _ _ sum_list] arg_cong [of _ _ "map g"] filter_cong) auto
  have one: "b = c" if "b \<in> set (balances_of s)" "c \<in> set (balances_of s)" "of_subject org user b" "of_subject org user c" for b c org user
    using ok(1) that by (auto simp: balances_wf_def of_subject_def dest: distinct_map_eq)
  have "\<forall>r\<in>set (rewards s). \<exists>!b. b \<in> set (balances_of s) \<and> of_subject (rd_organizationId r) (rd_userId r) b"
    using ok(1) one unfolding balances_wf_def by blast
  moreover have "\<forall>r\<in>set (rewards s). \<exists>w\<in>set (rewardRules s). rw_id w = rd_ruleId r \<and> 0 < rd_points r \<and> rd_points r \<le> rw_points w \<and>
      rd_creditAmountMinor r = (case rw_creditPerPointMinor w of None \<Rightarrow> 0 | Some rate \<Rightarrow> rd_points r * rate) \<and>
      rd_periodKey r = periodKeyFor (rw_periodType w) (the (rd_occurredAt r))"
    using ok(2) unfolding reward_wf_def by fastforce
  moreover note ok(1) [unfolded balances_wf_def f]
  ultimately show ?thesis by blast
qed

theorem balances_are_the_rewards_witness:
  "\<exists>b. balances_of rewards_granted = [b] \<and> rb_totalPoints b = 100 \<and> rb_lifetimeCreditMinor b = 500 \<and>
     sum_list (map rd_points (filter (\<lambda>r. of_subject (rd_organizationId r) (rd_userId r) b) (rewards rewards_granted))) = 100"
proof -
  note f = monthly_second [unfolded Let_def]
  then obtain b where b: "balances_of rewards_granted = [b]" by (cases "balances_of rewards_granted") auto
  with balances_are_the_rewards [OF reachable_granted] f show ?thesis by simp
qed

text \<open>C25. A grant pays its value, or nothing. When a rule grants for a fact, its condition held; the points are the rule's, or what its
  cap leaves of them; the credit is points times rate; exactly that credit moves from the platform's reward expense to the
  organization's wallet and no other balance moves; one reward is recorded. Every other answer, skipped or failed,
  leaves the rewards and the books as they were.\<close>

theorem grant_pays_its_value:
  assumes "reward_reachable s" and "w \<in> set (rewardRules s)" and "same_reward_terms w rule" and "plain_year (gi_occurredAt input)"
    and g: "grantOne rt rule input s = (answer, s')"
  shows "case answer of
      Inr (GRANTED i ruleId points amount monetised level) \<Rightarrow>
        conditionHolds (rw_condition rule) (gi_payload input) \<and> 0 < points \<and>
        points = (case rw_periodCap rule of None \<Rightarrow> rw_points rule
          | Some cap \<Rightarrow> min (rw_points rule) (cap - window_points s (gi_organizationId input) (gi_userId input) (rw_id rule)
              (rw_periodType rule) (gi_occurredAt input))) \<and>
        amount = (case rw_creditPerPointMinor rule of None \<Rightarrow> 0 | Some rate \<Rightarrow> points * rate) \<and>
        (\<forall>k. bal_at (books s') k = bal_at (books s) k + (if k = (gi_organizationId input, WALLET, ''IRR'') then amount else 0) -
           (if k = (ECONOMIC_PLATFORM_ORGANIZATION_ID rt, REWARD_EXPENSE, ''IRR'') then amount else 0)) \<and>
        (\<exists>r. rewards s' = rewards s @ [r] \<and> rd_id r = i \<and> rd_organizationId r = gi_organizationId input \<and>
           rd_userId r = gi_userId input \<and> rd_ruleId r = rw_id rule \<and> rd_sourceReference r = gi_sourceReference input \<and>
           rd_points r = points \<and> rd_creditAmountMinor r = amount)
    | _ \<Rightarrow> rewards s' = rewards s \<and> books s' = books s"
  using g
proof (cases rule: grantOne_cases)
  case (granted d balance outcome)
  let ?s = "ensured (gi_organizationId input) (gi_userId input) s"
  from reward_reachable_ok [OF assms(1)] have ok: "rules_wf s" "capped s" "service_ok (books ?s)" by (simp_all add: rewards_ok_def)
  from award_Inr [OF granted(4)] obtain i journalId grantedAt level lvl where
    o: "outcome = GRANTED i (rw_id rule) (de_points d) (de_creditAmountMinor d) (de_monetised d) lvl"
    and s': "s' = ?s\<lparr>rewards := rewards ?s @ [reward_row rule input d i journalId grantedAt],
        balances_of := map (added (gi_organizationId input) (gi_userId input) (rb_totalPoints balance + de_points d) level
          (de_creditAmountMinor d)) (balances_of ?s), books := books s'\<rparr>"
    and p: "0 < de_points d" by blast
  have row: "rewards s' = rewards s @ [reward_row rule input d i journalId grantedAt]" using only_rows [OF s'] by simp
  note e = evaluate_Inr [OF granted(2)]
  have v: "de_monetised d = (de_creditAmountMinor d > 0)" "0 \<le> de_creditAmountMinor d"
    using decision_value [OF granted(2) assms(2,3) ok(1) p] by blast+
  have m: "moves_reward rt (gi_organizationId input) (de_creditAmountMinor d) (books s) (books s')"
    using award_books [OF ok(3) v granted(4)] by simp
  have n: "granted_before s rule input = window_points s (gi_organizationId input) (gi_userId input) (rw_id rule)
      (rw_periodType rule) (gi_occurredAt input)" if "rw_periodCap rule = Some cap" for cap
  proof -
    have c: "rw_periodCap w = Some cap" "rw_id w = rw_id rule" "rw_periodType w = rw_periodType rule"
      using that assms(3) by (simp_all add: same_reward_terms_def)
    have "reward_rule_row_ok w" using ok(1) assms(2) by (simp add: rules_wf_def)
    with c(1) have "cap \<le> MAX_TOTAL_POINTS" by (simp add: reward_rule_row_ok_def)
    moreover have "window_points s (gi_organizationId input) (gi_userId input) (rw_id w) (rw_periodType w) (gi_occurredAt input) \<le> cap"
      using ok(2) assms(2,4) c(1) by (simp add: capped_def)
    ultimately show ?thesis by (simp add: granted_before_def c)
  qed
  have pts: "de_points d = (case rw_periodCap rule of None \<Rightarrow> rw_points rule
      | Some cap \<Rightarrow> min (rw_points rule) (cap - window_points s (gi_organizationId input) (gi_userId input) (rw_id rule)
          (rw_periodType rule) (gi_occurredAt input)))"
    using e n by (cases "rw_periodCap rule") simp_all
  show ?thesis
    unfolding granted(1) o sum.case grant_outcome.case
    using e p pts m row by (auto simp: moves_reward_def reward_row_def)
qed simp_all

theorem grant_pays_its_value_witness:
  "\<exists>i z l. fst (granted_after ''a'' 0 rewards_ruled) = Inr (GRANTED i (rw_id (hd (rewardRules rewards_ruled))) 60 300 z l) \<and>
     bal_at (books (snd (granted_after ''a'' 0 rewards_ruled))) (''A'', WALLET, ''IRR'') =
       bal_at (books rewards_ruled) (''A'', WALLET, ''IRR'') + 300"
proof -
  let ?w = "hd (rewardRules rewards_ruled)" and ?f = "monthly_fact ''a'' 0"
  obtain a s' where g: "granted_after ''a'' 0 rewards_ruled = (a, s')" by (cases "granted_after ''a'' 0 rewards_ruled")
  have w: "?w \<in> set (rewardRules rewards_ruled)" using rewards_ruled_eval by (cases "rewardRules rewards_ruled") simp_all
  have f: "gi_organizationId ?f = ''A''" "plain_year (gi_occurredAt ?f)" using plain_days(1) by (simp_all add: monthly_fact_def)
  have rt: "ECONOMIC_PLATFORM_ORGANIZATION_ID reward_rt = ''P''" by (simp add: reward_rt_def)
  from monthly_first g obtain i z l where a: "a = Inr (GRANTED i (rw_id ?w) 60 300 z l)"
    by (auto simp: granted_after_def split: sum.splits grant_outcome.splits dest: granted_rule)
  from grant_pays_its_value [OF reachable_ruled w same_terms_refl f(2) g [unfolded granted_after_def]] a g
  show ?thesis by (simp add: f rt)
qed

text \<open>C26. A fact pays once per rule. In every reachable state a rule has given at most one reward for one source; asked again about
  the same fact it answers that it is a duplicate, asked about another's fact under that source it refuses, and
  either way nothing changes.\<close>

theorem fact_pays_once:
  assumes "reward_reachable s" and r: "r \<in> set (rewards s)" "rd_ruleId r = rw_id rule" "rd_sourceReference r = gi_sourceReference input"
  shows "grantOne rt rule input s =
      (if rd_organizationId r = gi_organizationId input \<and> rd_userId r = gi_userId input \<and> rd_triggerEvent r = gi_triggerEvent input
       then Inr (SKIPPED ''duplicate'' (rw_id rule)) else Inl idempotencyKeyReused, s) \<and>
    (\<forall>q\<in>set (rewards s). rd_ruleId q = rd_ruleId r \<and> rd_sourceReference q = rd_sourceReference r \<longrightarrow> q = r)"
proof -
  let ?org = "gi_organizationId input" and ?user = "gi_userId input"
  let ?same = "rd_organizationId r = ?org \<and> rd_userId r = ?user \<and> rd_triggerEvent r = gi_triggerEvent input"
  let ?s = "ensured ?org ?user s"
  from reward_reachable_ok [OF assms(1)] have ok: "balances_wf s" "distinct (map (\<lambda>r. (rd_ruleId r, rd_sourceReference r)) (rewards s))"
    "commit_ok (books s)" by (simp_all add: rewards_ok_def service_ok_def books_ok_def ledger_ok_def)
  have one: "q = r" if "q \<in> set (rewards s)" "rd_ruleId q = rd_ruleId r" "rd_sourceReference q = rd_sourceReference r" for q
    using distinct_map_eq [OF ok(2) that(1) r(1)] that(2,3) by simp
  have "find (\<lambda>r. rd_ruleId r = rw_id rule \<and> rd_sourceReference r = gi_sourceReference input) (rewards s) = Some r"
  proof (cases "find (\<lambda>r. rd_ruleId r = rw_id rule \<and> rd_sourceReference r = gi_sourceReference input) (rewards s)")
    case None
    with r show ?thesis by (auto simp: find_None_iff)
  next
    case (Some q)
    then have "q \<in> set (rewards s)" "rd_ruleId q = rw_id rule" "rd_sourceReference q = gi_sourceReference input"
      by (auto dest: find_SomeD)
    with Some one [of q] r show ?thesis by simp
  qed
  note found = this
  have "list_ex (of_subject ?org ?user) (balances_of ?s)" by (simp add: ensured_def of_subject_def)
  then obtain b where b: "find (of_subject ?org ?user) (balances_of ?s) = Some b"
    by (cases "find (of_subject ?org ?user) (balances_of ?s)") (auto simp: find_None_iff list_ex_iff)
  have en: "ensureBalanceRow ?org ?user s = Inr ((), ?s)" by (simp add: ensureBalanceRow_def ensured_def)
  have lk: "lockBalance ?org ?user ?s = Inr (b, ?s)" by (simp add: lockBalance_def bindM_run b)
  have body: "grant_body rt rule input s =
      (if ?same then Inr (SKIPPED ''duplicate'' (rw_id rule), ?s) else Inl idempotencyKeyReused)"
    unfolding grant_body_def Let_def thenM_run en bindM_run by (simp add: lk found action_simps)
  have same: "?s = s" if ?same
  proof -
    have "\<exists>b\<in>set (balances_of s). of_subject (rd_organizationId r) (rd_userId r) b"
      using ok(1) r(1) unfolding balances_wf_def by blast
    with that have "list_ex (of_subject ?org ?user) (balances_of s)" by (simp add: list_ex_iff)
    then show ?thesis by (simp add: ensured_def)
  qed
  have "grantOne rt rule input s = (if ?same then Inr (SKIPPED ''duplicate'' (rw_id rule)) else Inl idempotencyKeyReused, s)"
  proof (cases ?same)
    case True
    have "rewardTransaction (grant_body rt rule input) s = Inr (SKIPPED ''duplicate'' (rw_id rule), s)"
      using body same [OF True] True ok(3) by (simp add: rewardTransaction_Inr)
    with True show ?thesis by (simp add: grantOne_def atomically_def)
  next
    case False
    have "rewardTransaction (grant_body rt rule input) s = Inl idempotencyKeyReused"
      using body False by (auto simp: rewardTransaction_def bindM_run)
    with False show ?thesis by (auto simp: grantOne_def atomically_def idempotencyKeyReused_def)
  qed
  with one show ?thesis by blast
qed

theorem fact_pays_once_witness:
  "\<exists>r. r \<in> set (rewards rewards_granted) \<and> rd_sourceReference r = ''a'' \<and>
     granted_after ''a'' 0 rewards_granted =
       (Inr (SKIPPED ''duplicate'' (rw_id (hd (rewardRules rewards_granted)))), rewards_granted)"
proof -
  from monthly_rows obtain r q where r: "rewards rewards_granted = [r, q]" "rd_sourceReference r = ''a''"
    "rd_ruleId r = rw_id (hd (rewardRules rewards_granted))" "rd_organizationId r = ''A''" "rd_userId r = ''u''" "rd_triggerEvent r = ''E''"
    by (cases "rewards rewards_granted"; cases "tl (rewards rewards_granted)") auto
  with fact_pays_once [OF reachable_granted, of r "hd (rewardRules rewards_granted)" "monthly_fact ''a'' 0" reward_rt]
  show ?thesis by (auto simp: monthly_fact_def granted_after_def)
qed

end
