(* ===== verification/Spec2Isabelle.thy ===== *)
theory Spec2Isabelle
  imports Statements Interleaving Reward_Promises
begin

text \<open>
  The core of RASTA's economic service, \<^verbatim>\<open>services/economic-service/src\<close>: the money of the platform's
  organizations, kept in a double-entry ledger, and the obligations between them, from the day they are owed to
  their settlement. Every part that decides about money is modelled from the source, in the order the service has
  it; the statements of the SQL migrations that the code relies on (constraints, triggers, the sequence of a stream)
  are modelled as the refusals they are.

  \<^bold>\<open>How code and model correspond.\<close> A table is a list of records in the state \<open>db\<close> (\<open>Store\<close>), in the order of
  insertion, with the source's column names after a prefix. BigInt amounts are \<open>int\<close>, with the
  bound \<open>MAX_AMOUNT_MINOR\<close> (BIGINT) checked where the code or a column does; text is a character list; a clock, a fresh identity and the
  request's context are the fields of a \<open>runtime\<close>, read through a counter of the state, so that they may return
  anything. An operation in one database transaction is an action \<open>db \<Rightarrow> failure + 'a \<times> db\<close> (\<open>Prelude\<close>): an
  error is a value and leaves no state, as a rolled back transaction does. A request that runs several
  transactions, such as a settlement that is refused and then recorded, is \<open>db \<Rightarrow> (failure + 'a) \<times> db\<close>: it
  keeps what committed before the error. \<open>transaction\<close> runs a body and then the deferred triggers.

  \<^bold>\<open>The theories\<close>, each with the code it models.
  \<^item> \<open>Prelude\<close>: actions, requests, failures, the collections of rules for invariants (\<open>keeps_rules\<close>), frames, lists.
  \<^item> \<open>Money\<close>: money.ts of the contracts package and ledger/money.ts: decimal text, BIGINT, basis points, rounding, clamping.
  \<^item> \<open>Store\<close>: the tables (prisma/schema.prisma), the request context, the service's events.
  \<^item> \<open>Outbox\<close>: events/routing.ts and the writing half of outbox/: payload schemas, partition keys, sequence numbers.
  \<^item> \<open>Ledger\<close>, \<open>Ledger_Laws\<close>: ledger/: the balance check, accounts, posting, reversal, the trial balance; the
    invariant \<open>ledger_ok\<close>; the locale \<open>double_entry\<close> that its clients use.
  \<^item> \<open>Wallet\<close>, \<open>Wallet_Laws\<close>: wallet/: opening, crediting, locking, holds; \<open>books_ok\<close>.
  \<^item> \<open>StateMachine\<close>: transaction/state-machine.ts. \<open>Access\<close>: access/: who may act for whom.
  \<^item> \<open>Commission\<close>, \<open>Commission_Laws\<close>: commission/: selection of a rule, pricing, changes of rules.
  \<^item> \<open>Transaction\<close>, \<open>Transaction_Invariants\<close>, \<open>Transaction_Laws\<close>: transaction/: creating, recording an authorised
    obligation, authorising, disputing, resolving, cancelling, refunding, the statement reader.
  \<^item> \<open>Settlement\<close>, \<open>Settlement_Laws\<close>: settlement/settlement.service.ts: pricing, locking, posting and recording.
  \<^item> \<open>Service\<close>: all operations as the steps of one machine (\<open>service_step\<close>), the invariant \<open>service_ok\<close> that all of
    them keep, the reachable states. A top-up or a payment is a credit from a platform account there.
  \<^item> \<open>History\<close>, \<open>Lifecycle\<close>: relations between the states before and after an operation (the locales
    \<open>history\<close>, \<open>store_history\<close>), interpreted on the ledger's growth and on the state machine.
  \<^item> \<open>Scenario\<close>: a run from the empty store, evaluated by the kernel, that the examples of the properties use.
  \<^item> \<open>Guarantees\<close>, \<open>Contracts\<close>, \<open>Obligation_Contracts\<close>, \<open>Statements\<close>: what each operation does when it succeeds
    and what it leaves when it is refused.
  \<^item> \<open>Request_Hash\<close>, \<open>Idempotency\<close>, \<open>Idempotency_Laws\<close>, \<open>Answers\<close>, \<open>Interleaving\<close>: shared/idempotency.ts. The
    hash of a request; the claim of a key, the answer stored with its effect, the replay; then requests that interleave,
    statement by statement, as a step relation.
  \<^item> \<open>Calendar\<close>, \<open>Reward_Engine\<close>, \<open>Reward\<close>: reward/exact-comparison.ts, rule-engine.ts and reward.service.ts. A rule's
    condition, its cap and the window it counts in; one grant and its money; all grants of a fact; the rules'
    administration. Their tables stand beside \<open>db\<close> in \<open>reward_db\<close>.
  \<^item> \<open>Reward_Laws\<close>, \<open>Reward_Runs\<close>, \<open>Reward_Changes\<close>, \<open>Reward_Life\<close>, \<open>Reward_Scenario\<close>, \<open>Reward_Promises\<close>: the
    invariant \<open>rewards_ok\<close>, that every step keeps it and \<open>service_ok\<close>, the reachable states, a run, what rewards promise.

  \<^bold>\<open>What is shown.\<close> In every reachable state (here): a wallet's figures are the ledger's, what is pending is
  the sum of the active holds, nothing is negative; debits equal credits; the numbers of a stream have no
  gap; an obligation is settled exactly when it has its one settlement; every row meets its constraints. Over time: the ledger
  is only appended to and statuses move by the table of transitions alone. Of one operation: a settlement takes
  the gross from the payer, pays the net and the commission, moves no other balance, and happens once; holds, refunds, postings, reversals
  and openings do what they promise; the access rules admit only the grounds they name. Lives of obligations are finite
  up to disputes and reversals, and no obligation is stuck. Of a request under a key: its effect commits together with its answer, a retry
  gets that answer, and however requests interleave an effect happens once in the life of its record. Of rewards: caps
  hold, a fact pays once per rule, balances are the sums of the rewards, and a grant moves exactly its value.

  \<^bold>\<open>Bounds.\<close> There is no fuel: loops are structural recursion on lists. The retry of a lost race
  (opening a wallet, the first rows of a stream) is one more attempt, as in the code, and
  a claim has the three attempts (\<open>CLAIM_ATTEMPTS\<close>) of the code.

  \<^bold>\<open>Not modelled.\<close> Concurrency inside one transaction: row locks are what make the operations serial, and the model
  takes them one at a time; that wallets are locked in one order is a lemma of \<open>Contracts\<close>. The endpoints that combine an
  operation with a key, and the canonical form that the validating pipe keeps of a body (it is an argument here). The relay that sends the outbox,
  consumers, HTTP controllers, configuration, logs and metrics; payments beyond the credit they post;
  participation scores, recognition and the reads of rewards; the reversal of a settlement; the other services of the repository, which share no state with
  this one; they are listed in the manifest with the reason.
\<close>

section \<open>What holds in every reachable state\<close>

lemma scenario_settled_facts:
  "let s = scenario_settled in
     map (\<lambda>w. (w_id w, w_ledgerBalanceMinor w)) (wallets s) = [(''WLT_H'', 4000), (''WLT_c'', 975)] \<and>
     length (journals s) = 2 \<and> length (settlements s) = 1 \<and> map t_status (txns s) = [SETTLED] \<and>
     length (stream_of s ''rasta.economic.v1'' ''TXN_T'') = 4"
  by code_simp

lemma distinct_filter_one: "distinct (map f xs) \<Longrightarrow> length (filter (\<lambda>x. f x = k) xs) \<le> 1"
  by (induction xs) (auto simp: filter_empty_conv image_iff)

lemma journal_delta_zero:
  assumes "commit_ok s" and "j \<in> set (journals s)"
  shows "2 \<le> length (entries_of s (j_id j)) \<and> journal_delta s (j_id j) cur = 0"
proof -
  from assms have ok: "assert_journal_balanced s (j_id j)" by (auto simp: commit_ok_def list_all_iff)
  show ?thesis
  proof (cases "\<exists>e\<in>set (entries_of s (j_id j)). e_currency e = cur")
    case True
    with ok show ?thesis by (auto simp: assert_journal_balanced_def list_all_iff)
  next
    case False
    then have "filter (\<lambda>e. e_currency e = cur) (entries_of s (j_id j)) = []" by (simp add: filter_empty_conv)
    with ok show ?thesis by (simp add: assert_journal_balanced_def journal_delta_def)
  qed
qed

text \<open>C2. A wallet says what the ledger says. In every reachable state the figures a wallet row carries are those of its owner's
  accounts: the ledger balance is the WALLET account plus the ESCROW account, what is pending is the
  ESCROW account and exactly the sum of the wallet's active holds, the rest is available; none is
  negative or above the largest amount.\<close>

theorem wallets_agree_with_ledger:
  assumes "reachable s" and "w \<in> set (wallets s)"
  shows "w_availableBalanceMinor w = purpose_balance s (w_organizationId w) WALLET (w_currency w) \<and>
    w_pendingBalanceMinor w = purpose_balance s (w_organizationId w) ESCROW (w_currency w) \<and>
    w_pendingBalanceMinor w = activeHoldTotal s (w_id w) \<and>
    w_ledgerBalanceMinor w = w_availableBalanceMinor w + w_pendingBalanceMinor w \<and>
    0 \<le> w_availableBalanceMinor w \<and> 0 \<le> w_pendingBalanceMinor w \<and> w_ledgerBalanceMinor w \<le> MAX_AMOUNT_MINOR"
proof -
  have "wallet_synced s w" "escrow_backed s w"
    using reachable_service_ok [OF assms(1)] assms(2) by (simp_all add: service_ok_def books_ok_def wallet_ok_def)
  then show ?thesis
    by (simp add: wallet_synced_def escrow_backed_def wallet_balances_def ledger_balances_def balancesFrom_def
        isConsistent_def within_limit_def)
qed

theorem wallets_agree_with_ledger_witness:
  "let w = hd (wallets scenario_settled) in
     w_ledgerBalanceMinor w = 4000 \<and>
     w_availableBalanceMinor w = purpose_balance scenario_settled (w_organizationId w) WALLET (w_currency w) \<and>
     w_pendingBalanceMinor w = activeHoldTotal scenario_settled (w_id w)"
proof -
  from scenario_settled_facts have "hd (wallets scenario_settled) \<in> set (wallets scenario_settled)"
    "w_ledgerBalanceMinor (hd (wallets scenario_settled)) = 4000" by (auto simp: Let_def)
  with wallets_agree_with_ledger [OF reachable_scenario_settled this(1)] show ?thesis by (simp add: Let_def)
qed

text \<open>C3. The books balance. In every reachable state each journal has two legs at least and its debits equal its
  credits in every currency, and the trial balance of every currency says balanced.\<close>

theorem books_balance:
  assumes "reachable s" and "j \<in> set (journals s)"
  shows "2 \<le> length (entries_of s (j_id j)) \<and> journal_delta s (j_id j) cur = 0 \<and> tb_balanced (trialBalance cur s)"
proof -
  have ok: "ledger_ok s" using reachable_service_ok [OF assms(1)] by (simp add: service_ok_def books_ok_def)
  then have "commit_ok s" by (simp add: ledger_ok_def)
  from journal_delta_zero [OF this assms(2)] trialBalance_balanced [OF ok] show ?thesis by blast
qed

theorem books_balance_witness:
  "let j = hd (journals scenario_settled) in
     j \<in> set (journals scenario_settled) \<and> 2 \<le> length (entries_of scenario_settled (j_id j)) \<and>
     journal_delta scenario_settled (j_id j) ''IRR'' = 0 \<and> tb_balanced (trialBalance ''IRR'' scenario_settled)"
proof -
  from scenario_settled_facts have "hd (journals scenario_settled) \<in> set (journals scenario_settled)"
    by (cases "journals scenario_settled") (auto simp: Let_def)
  with books_balance [OF reachable_scenario_settled this] show ?thesis by (simp add: Let_def)
qed

text \<open>C10. Events are announced in order and once. In every reachable state the rows of one topic and partition key carry the numbers
  1, 2, 3 and so on in the order they were written, with no gap and no repetition; each row's payload is
  as its published schema says, and its key is the one the policy of its event gives.\<close>

theorem streams_are_gap_free:
  assumes "reachable s"
  shows "map o_streamSeq (stream_of s topic k) = [1 ..< Suc (length (stream_of s topic k))] \<and>
    list_all (\<lambda>r. payload_schema (o_payload r) \<and> k = snd (PARTITION_KEY_POLICY (o_payload r)) \<and> k \<noteq> []) (stream_of s topic k)"
proof -
  have ok: "streams_ok s" using reachable_service_ok [OF assms] by (simp add: service_ok_def)
  then have m: "map o_streamSeq (stream_of s topic k) = [1 ..< next_seq_of s topic k]" unfolding streams_ok_def by blast
  then have "length (stream_of s topic k) = next_seq_of s topic k - 1" by (metis length_map length_upt)
  with m have "map o_streamSeq (stream_of s topic k) = [1 ..< Suc (length (stream_of s topic k))]"
    by (cases "next_seq_of s topic k") auto
  moreover have "list_all (\<lambda>r. payload_schema (o_payload r) \<and> k = snd (PARTITION_KEY_POLICY (o_payload r)) \<and> k \<noteq> [])
      (stream_of s topic k)"
    using ok unfolding streams_ok_def stream_of_def by (auto simp: list_all_iff)
  ultimately show ?thesis ..
qed

theorem streams_are_gap_free_witness:
  "map o_streamSeq (stream_of scenario_settled ''rasta.economic.v1'' ''TXN_T'') = [1, 2, 3, 4]"
proof -
  have "length (stream_of scenario_settled ''rasta.economic.v1'' ''TXN_T'') = 4"
    using scenario_settled_facts by (simp add: Let_def)
  with streams_are_gap_free [OF reachable_scenario_settled, of "''rasta.economic.v1''" "''TXN_T''"]
  show ?thesis by (simp add: upt_rec)
qed



text \<open>C11. Every row is well-typed. In every reachable state the rows of each table meet the table's own constraints: an
  obligation's amounts, its settled and disputed fields and its source; a rule's rate, bounds and window; a
  ledger entry's positive amount within BIGINT on an account of its organization and currency; an account
  type fixed by its purpose; a hold's positive amount on a wallet of the same owner; and identities are
  unique, an external fact standing for one obligation at most.\<close>

theorem rows_are_well_typed:
  assumes "reachable s"
  shows "list_all transaction_row_ok (txns s) \<and> list_all rule_row_ok (rules s) \<and>
    list_all (\<lambda>e. 0 < e_amountMinor e \<and> e_amountMinor e \<le> MAX_AMOUNT_MINOR \<and> on_account s e) (entries s) \<and>
    list_all (\<lambda>a. a_accountType a = PURPOSE_TYPE (a_purpose a)) (accounts s) \<and>
    list_all (\<lambda>h. 0 < h_amountMinor h \<and>
      (\<exists>w\<in>set (wallets s). w_id w = h_walletId h \<and> wallet_key w = (h_organizationId h, h_currency h))) (holds s) \<and>
    distinct (map t_id (txns s)) \<and> distinct (map r_id (rules s)) \<and> distinct (map wallet_key (wallets s)) \<and>
    distinct (map j_id (journals s)) \<and> distinct (map e_id (entries s)) \<and> distinct (map account_key (accounts s)) \<and>
    distinct (map h_id (holds s)) \<and> sources_unique (txns s)"
  using reachable_service_ok [OF assms]
  by (simp add: service_ok_def txns_ok_def rules_ok_def books_ok_def ledger_ok_def entries_ok_def accounts_ok_def wallet_ok_def
      holds_ok_def wallets_unique_def list_all_iff)

theorem rows_are_well_typed_witness:
  "let s = scenario_settled in
     length (wallets s) = 2 \<and> length (journals s) = 2 \<and> list_all transaction_row_ok (txns s) \<and>
     list_all rule_row_ok (rules s) \<and> distinct (map wallet_key (wallets s)) \<and> sources_unique (txns s)"
proof -
  from scenario_settled_facts have "length (wallets scenario_settled) = 2 \<and> length (journals scenario_settled) = 2"
    by (auto simp: Let_def dest!: arg_cong [of _ _ length])
  with rows_are_well_typed [OF reachable_scenario_settled] show ?thesis by (simp add: Let_def)
qed

section \<open>What holds over time\<close>

lemma steps_to_settled: "service_step\<^sup>*\<^sup>* scenario_due scenario_settled"
  unfolding scenario_settled_def
  by (rule r_into_rtranclp, rule step_settle) (rule prod.collapse [symmetric])

text \<open>C9. The ledger only grows. Whatever operations run, in any order, accounts, journals and entries are only ever
  appended to: nothing posted is changed, reordered or removed.\<close>

theorem ledger_is_append_only:
  assumes "service_step\<^sup>*\<^sup>* s s'"
  shows "\<exists>as js es. accounts s' = accounts s @ as \<and> journals s' = journals s @ js \<and> entries s' = entries s @ es"
proof -
  from assms have "ledger_grows s s'"
    by (induction rule: rtranclp_induct) (auto intro: grows.refl grows.trans step_grows)
  then show ?thesis unfolding ledger_grows_def by blast
qed

theorem ledger_is_append_only_witness:
  "\<exists>as js es. accounts scenario_settled = accounts scenario_due @ as \<and> journals scenario_settled = journals scenario_due @ js \<and>
     entries scenario_settled = entries scenario_due @ es"
  by (rule ledger_is_append_only [OF steps_to_settled])



end
